(* ===== verification/Prelim.thy ===== *)
theory Prelim
  imports Main
begin

text \<open>
  Shared vocabulary of the development: the collections of facts the component
  theories feed, the type names of the model, and generic lemmas on the tables
  (lists of rows) that stand for the database tables the serializers read and
  write. A table is a list of rows in insertion order; a row is identified by a
  key function (its primary key or a unique column).
\<close>

named_theorems table_simps \<open>rewrite rules for rows looked up or replaced in a table\<close>
named_theorems inv_intros \<open>preservation facts of the database invariant\<close>

type_synonym user_id = nat
type_synonym time = nat
type_synonym field_name = string

subsection \<open>Python string helpers\<close>

text \<open>
  Python \<open>str\<close> values are modelled as \<open>string\<close> whose code points are below
  256, one \<open>char\<close> each. \<open>str.isspace\<close> on that range, and \<open>str.strip(chars)\<close>.
\<close>

definition py_isspace :: "char \<Rightarrow> bool" where
  "py_isspace c \<longleftrightarrow> of_char c \<in> ({9, 10, 11, 12, 13, 28, 29, 30, 31, 32, 133, 160} :: nat set)"

definition strip_by :: "(char \<Rightarrow> bool) \<Rightarrow> string \<Rightarrow> string" where
  "strip_by P s = rev (dropWhile P (rev (dropWhile P s)))"

abbreviation py_strip :: "string \<Rightarrow> string" where
  "py_strip \<equiv> strip_by py_isspace"

text \<open>\<open>s.replace(p, '')\<close>: every occurrence of \<open>p\<close>, left to right, removed.\<close>

function remove_all :: "string \<Rightarrow> string \<Rightarrow> string" where
  "remove_all p [] = []"
| "remove_all p (c # s) =
     (if p \<noteq> [] \<and> take (length p) (c # s) = p then remove_all p (drop (length p) (c # s))
      else c # remove_all p s)"
  by pat_completeness auto
termination
  by (relation "measure (\<lambda>(p, s). length s)") auto

subsection \<open>Queries on a table\<close>

text \<open>
  \<open>Model.objects.get(**filter)\<close>: the one row that matches, or one of the two
  exceptions Django raises.
\<close>

datatype 'a get_result = Got 'a | DoesNotExist | MultipleObjectsReturned

definition orm_get :: "('a \<Rightarrow> bool) \<Rightarrow> 'a list \<Rightarrow> 'a get_result" where
  "orm_get P rows =
     (case filter P rows of
        [] \<Rightarrow> DoesNotExist
      | [r] \<Rightarrow> Got r
      | _ \<Rightarrow> MultipleObjectsReturned)"

text \<open>\<open>instance.save()\<close> on a row that exists: an UPDATE of the row with the same key.\<close>

definition replace_by :: "('a \<Rightarrow> 'k) \<Rightarrow> 'a \<Rightarrow> 'a list \<Rightarrow> 'a list" where
  "replace_by key r rows = map (\<lambda>x. if key x = key r then r else x) rows"

subsection \<open>Lemmas on strings and tables\<close>

lemma strip_by_Nil [simp]: "strip_by P [] = []"
  by (simp add: strip_by_def)

lemma strip_by_edges:
  assumes "strip_by P s \<noteq> []"
  shows "\<not> P (hd (strip_by P s))" and "\<not> P (last (strip_by P s))"
proof -
  let ?t = "dropWhile P s"
  let ?w = "dropWhile P (rev ?t)"
  have r: "strip_by P s = rev ?w" by (simp add: strip_by_def)
  with assms have w: "?w \<noteq> []" by simp
  then show "\<not> P (last (strip_by P s))" using r by (simp add: last_rev hd_dropWhile)
  have "takeWhile P (rev ?t) @ ?w = rev ?t" by (rule takeWhile_dropWhile_id)
  then have split: "?t = rev ?w @ rev (takeWhile P (rev ?t))"
    by (metis rev_append rev_rev_ident)
  from split w have "?t \<noteq> []" by (metis append_is_Nil_conv rev_is_Nil_conv)
  then have "\<not> P (hd ?t)" by (rule hd_dropWhile)
  moreover have "hd ?t = hd (rev ?w)" using split w by (metis hd_append2 rev_is_Nil_conv)
  ultimately show "\<not> P (hd (strip_by P s))" using r by simp
qed

lemma strip_by_idem [simp]: "strip_by P (strip_by P s) = strip_by P s"
proof (cases "strip_by P s = []")
  case True
  then show ?thesis by simp
next
  case False
  let ?r = "strip_by P s"
  from strip_by_edges [OF False] have h: "\<not> P (hd ?r)" and l: "\<not> P (last ?r)" by auto
  have "dropWhile P ?r = ?r" using False h by (cases ?r) auto
  moreover have "dropWhile P (rev ?r) = rev ?r" using False l
    by (cases "rev ?r") (auto simp flip: last_rev)
  ultimately show ?thesis by (simp add: strip_by_def)
qed

lemma filter_key_distinct:
  assumes "distinct (map key rows)" and "r \<in> set rows"
  shows "filter (\<lambda>x. key x = key r) rows = [r]"
  using assms
proof (induction rows)
  case Nil
  then show ?case by simp
next
  case (Cons y ys)
  show ?case
  proof (cases "y = r")
    case True
    with Cons.prems have "\<forall>x \<in> set ys. key x \<noteq> key r" by (auto simp: image_iff)
    with True show ?thesis by (simp add: filter_empty_conv)
  next
    case False
    with Cons.prems have "key y \<noteq> key r"
      by (auto simp: image_iff)
    with False Cons show ?thesis by simp
  qed
qed

lemma orm_get_key_Got [table_simps]:
  "distinct (map key rows) \<Longrightarrow> r \<in> set rows \<Longrightarrow> orm_get (\<lambda>x. key x = key r) rows = Got r"
  by (simp add: orm_get_def filter_key_distinct)

lemma orm_get_none [table_simps]:
  "\<forall>x \<in> set rows. \<not> P x \<Longrightarrow> orm_get P rows = DoesNotExist"
  by (simp add: orm_get_def filter_empty_conv)

lemma orm_get_Got_D:
  "orm_get P rows = Got r \<Longrightarrow> r \<in> set rows \<and> P r"
proof -
  assume a: "orm_get P rows = Got r"
  then have "filter P rows = [r]"
    by (auto simp: orm_get_def split: list.splits)
  then have "r \<in> set (filter P rows)" by simp
  then show ?thesis by simp
qed

lemma orm_get_key_cases:
  assumes "distinct (map key rows)"
  shows "orm_get (\<lambda>x. key x = k) rows = DoesNotExist \<and> k \<notin> key ` set rows
       \<or> (\<exists>r \<in> set rows. key r = k \<and> orm_get (\<lambda>x. key x = k) rows = Got r)"
proof (cases "k \<in> key ` set rows")
  case True
  then obtain r where "r \<in> set rows" "key r = k" by auto
  with assms show ?thesis using orm_get_key_Got [of key rows r] by auto
next
  case False
  then show ?thesis by (auto intro: orm_get_none)
qed

lemma map_key_replace_by [table_simps]:
  "map key (replace_by key r rows) = map key rows"
  by (simp add: replace_by_def)

lemma set_replace_by:
  "x \<in> set (replace_by key r rows) \<Longrightarrow> x = r \<or> x \<in> set rows"
  by (auto simp: replace_by_def)

lemma replace_by_mem [table_simps]:
  "r0 \<in> set rows \<Longrightarrow> key r0 = key r \<Longrightarrow> r \<in> set (replace_by key r rows)"
  by (force simp: replace_by_def)

lemma replace_by_other:
  "x \<in> set rows \<Longrightarrow> key x \<noteq> key r \<Longrightarrow> x \<in> set (replace_by key r rows)"
  by (force simp: replace_by_def)

lemma replace_by_key_eq:
  "x \<in> set (replace_by key r rows) \<Longrightarrow> key x = key r \<Longrightarrow> x = r"
  by (auto simp: replace_by_def)

lemma map_replace_by_same:
  "\<forall>x \<in> set rows. key x = key r \<longrightarrow> f x = f r \<Longrightarrow> map f (replace_by key r rows) = map f rows"
  by (induction rows) (auto simp: replace_by_def)

lemma distinct_map_eqD:
  "distinct (map f xs) \<Longrightarrow> x \<in> set xs \<Longrightarrow> y \<in> set xs \<Longrightarrow> f x = f y \<Longrightarrow> x = y"
  by (auto dest: inj_onD simp: distinct_map)

lemma replace_by_self:
  "distinct (map key rows) \<Longrightarrow> r \<in> set rows \<Longrightarrow> replace_by key r rows = rows"
  unfolding replace_by_def by (rule map_idI) (auto dest: distinct_map_eqD)

lemma set_replace_by_distinct:
  assumes "distinct (map key rows)" and "r0 \<in> set rows" and "key r0 = key r"
  shows "set (replace_by key r rows) = insert r (set rows - {r0})"
proof
  show "set (replace_by key r rows) \<subseteq> insert r (set rows - {r0})"
  proof
    fix y assume y: "y \<in> set (replace_by key r rows)"
    show "y \<in> insert r (set rows - {r0})"
    proof (cases "key y = key r")
      case True
      with y show ?thesis by (simp add: replace_by_key_eq)
    next
      case False
      with y assms(3) show ?thesis by (auto dest: set_replace_by)
    qed
  qed
next
  show "insert r (set rows - {r0}) \<subseteq> set (replace_by key r rows)"
  proof
    fix y assume y: "y \<in> insert r (set rows - {r0})"
    show "y \<in> set (replace_by key r rows)"
    proof (cases "y = r")
      case True
      with assms(2,3) show ?thesis by (simp add: replace_by_mem)
    next
      case False
      with y have y': "y \<in> set rows" "y \<noteq> r0" by auto
      have "key y \<noteq> key r"
        using distinct_map_eqD [OF assms(1) y'(1) assms(2)] y'(2) assms(3) by auto
      with y' show ?thesis by (simp add: replace_by_other)
    qed
  qed
qed

text \<open>Setting attributes from a list of distinct names: the last write of a name wins.\<close>

lemma foldl_set_get:
  assumes "\<And>x m w. get (f x (m, w)) = (if m = n then h w else get x)"
  shows "distinct (map fst a) \<Longrightarrow> (n, v) \<in> set a \<Longrightarrow> get (foldl f x a) = h v"
    and "n \<notin> fst ` set a \<Longrightarrow> get (foldl f x a) = get x"
proof -
  show absent: "n \<notin> fst ` set a \<Longrightarrow> get (foldl f x a) = get x" for a x
    by (induction a arbitrary: x) (auto simp: assms)
  show "distinct (map fst a) \<Longrightarrow> (n, v) \<in> set a \<Longrightarrow> get (foldl f x a) = h v"
  proof (induction a arbitrary: x)
    case Nil
    then show ?case by simp
  next
    case (Cons b a)
    show ?case
    proof (cases "fst b = n")
      case True
      obtain m w where b: "b = (m, w)" by (cases b)
      with True Cons.prems have "v = w" "n \<notin> fst ` set a"
        by (auto simp: image_iff)
      with True b show ?thesis by (simp add: absent assms)
    next
      case False
      with Cons show ?thesis by auto
    qed
  qed
qed

end
