(* ===== verification/Orm.thy ===== *)
theory Orm
  imports Prelim
begin

text \<open>
  The persisted entities the serializers work on (users/models.py, which is not
  part of the sources given: modelled from the spec and from what
  serializers.py reads and writes) and the Django operations the serializers
  call on them: password hashing of \<open>django.contrib.auth\<close>, the custom user
  manager's \<open>create_user\<close>, \<open>Profile.objects.get_or_create\<close> and
  \<open>InvitationCode.is_valid\<close>. The database is a record of three tables and the
  auto-increment counters; \<open>now\<close> is the clock \<open>timezone.now()\<close> reads.
\<close>

subsection \<open>Entities\<close>

text \<open>
  A stored password is the output of \<open>make_password\<close>. Hashing is modelled by
  an injective constructor: the model never needs the hash function, only that
  \<open>check_password\<close> accepts exactly the raw password that was set.
\<close>

datatype stored_password = Hashed string

record user =
  user_pk :: user_id
  email :: string
  password :: stored_password
  first_name :: string
  last_name :: string
  patronymic :: string
  role :: string
  is_active :: bool
  is_role_confirmed :: bool
  date_joined :: time

text \<open>A profile row; its fields hold the values of the serializer fields.\<close>

record profile =
  prof_user :: user_id
  avatar :: "string option"
  phone_number :: "string option"
  bio :: "string option"
  date_of_birth :: "string option"

text \<open>An invitation code; \<open>code\<close> is the UUID's 128-bit integer.\<close>

record invitation =
  inv_pk :: nat
  code :: nat
  inv_role :: string
  created_by :: user_id
  used_by :: "user_id option"
  created_at :: time
  expires_at :: "time option"

record db =
  users :: "user list"
  profiles :: "profile list"
  invites :: "invitation list"
  next_user_pk :: nat
  next_inv_pk :: nat
  now :: time

text \<open>Errors the database and the framework raise outside validation.\<close>

datatype db_error = IntegrityError | MultipleObjects | AssertionFailed

subsection \<open>Operations of django.contrib.auth\<close>

definition make_password :: "string \<Rightarrow> stored_password" where
  "make_password raw = Hashed raw"

definition check_password :: "user \<Rightarrow> string \<Rightarrow> bool" where
  "check_password u raw \<longleftrightarrow> password u = make_password raw"

definition set_password :: "user \<Rightarrow> string \<Rightarrow> user" where
  "set_password u raw = u\<lparr>password := make_password raw\<rparr>"

subsection \<open>Model methods and managers\<close>

text \<open>
  \<open>InvitationCode.is_valid()\<close>: a code is valid while no user has used it and
  it has not expired (the glossary: a single-use token).
\<close>

definition is_valid :: "time \<Rightarrow> invitation \<Rightarrow> bool" where
  "is_valid t i \<longleftrightarrow> used_by i = None \<and> (case expires_at i of None \<Rightarrow> True | Some e \<Rightarrow> t < e)"

text \<open>\<open>str.lower()\<close> on one character below 256.\<close>

definition py_lower :: "char \<Rightarrow> char" where
  "py_lower c =
     (let n = of_char c :: nat in
      if (65 \<le> n \<and> n \<le> 90) \<or> (192 \<le> n \<and> n \<le> 222 \<and> n \<noteq> 215) then char_of (n + 32) else c)"

text \<open>
  \<open>BaseUserManager.normalize_email\<close>: the stripped address split at its last
  \<open>@\<close>, with the domain part lower-cased; an address without \<open>@\<close> is
  returned as given.
\<close>

definition normalize_email :: "string \<Rightarrow> string" where
  "normalize_email em =
     (let s = py_strip em in
      if CHR ''@'' \<notin> set s then em
      else let r = rev s;
               domain = rev (takeWhile (\<lambda>c. c \<noteq> CHR ''@'') r);
               name = rev (tl (dropWhile (\<lambda>c. c \<noteq> CHR ''@'') r))
           in name @ CHR ''@'' # map py_lower domain)"

text \<open>
  \<open>User.objects.create_user(email, password, **extra)\<close> of a manager written
  in Django's pattern: the address is normalized with
  \<^const>\<open>normalize_email\<close>, the user inserted with the next primary key and the
  hashed password; the unique constraint on the email column (the username
  field) raises \<open>IntegrityError\<close> on a duplicate.
\<close>

definition create_user ::
  "db \<Rightarrow> string \<Rightarrow> string \<Rightarrow> string \<Rightarrow> string \<Rightarrow> string \<Rightarrow> string \<Rightarrow> bool \<Rightarrow> bool
     \<Rightarrow> db_error + (user \<times> db)" where
  "create_user d em pw fn ln pa ro act conf =
     (if normalize_email em \<in> email ` set (users d) then Inl IntegrityError
      else
        let u = \<lparr>user_pk = next_user_pk d, email = normalize_email em, password = make_password pw,
                 first_name = fn, last_name = ln, patronymic = pa, role = ro,
                 is_active = act, is_role_confirmed = conf, date_joined = now d\<rparr>
        in Inr (u, d\<lparr>users := users d @ [u], next_user_pk := Suc (next_user_pk d)\<rparr>))"

text \<open>\<open>instance.save()\<close> of a user and of an invitation: UPDATE of the row by primary key.\<close>

definition save_user :: "db \<Rightarrow> user \<Rightarrow> db" where
  "save_user d u = d\<lparr>users := replace_by user_pk u (users d)\<rparr>"

definition save_invitation :: "db \<Rightarrow> invitation \<Rightarrow> db" where
  "save_invitation d i = d\<lparr>invites := replace_by inv_pk i (invites d)\<rparr>"

text \<open>
  \<open>Profile.objects.get_or_create(user=instance)\<close>: the profile of the user, or a
  new empty profile inserted for it; two profiles of one user raise
  \<open>MultipleObjectsReturned\<close>.
\<close>

definition empty_profile :: "user_id \<Rightarrow> profile" where
  "empty_profile k = \<lparr>prof_user = k, avatar = None, phone_number = None, bio = None,
                       date_of_birth = None\<rparr>"

definition get_or_create_profile :: "db \<Rightarrow> user_id \<Rightarrow> db_error + (profile \<times> bool \<times> db)" where
  "get_or_create_profile d k =
     (case orm_get (\<lambda>p. prof_user p = k) (profiles d) of
        Got p \<Rightarrow> Inr (p, False, d)
      | DoesNotExist \<Rightarrow>
          Inr (empty_profile k, True, d\<lparr>profiles := profiles d @ [empty_profile k]\<rparr>)
      | MultipleObjectsReturned \<Rightarrow> Inl MultipleObjects)"

definition save_profile :: "db \<Rightarrow> profile \<Rightarrow> db" where
  "save_profile d p = d\<lparr>profiles := replace_by prof_user p (profiles d)\<rparr>"

subsection \<open>The constraints of the schema\<close>

text \<open>
  What the database guarantees about its tables: unique primary keys below the
  auto-increment counters, the unique email column of the user table, the unique
  code column of the invitation table, the one-to-one link from profiles to
  users, and the foreign keys of invitations and profiles.
\<close>

definition db_constraints :: "db \<Rightarrow> bool" where
  "db_constraints d \<longleftrightarrow>
     distinct (map user_pk (users d)) \<and> (\<forall>u \<in> set (users d). user_pk u < next_user_pk d) \<and>
     distinct (map email (users d)) \<and>
     distinct (map inv_pk (invites d)) \<and> (\<forall>i \<in> set (invites d). inv_pk i < next_inv_pk d) \<and>
     distinct (map code (invites d)) \<and>
     distinct (map prof_user (profiles d)) \<and>
     (\<forall>p \<in> set (profiles d). prof_user p \<in> user_pk ` set (users d)) \<and>
     (\<forall>i \<in> set (invites d). created_by i \<in> user_pk ` set (users d) \<and>
        (\<forall>k. used_by i = Some k \<longrightarrow> k \<in> user_pk ` set (users d)))"

subsection \<open>Lemmas\<close>

lemma check_set_password [simp]: "check_password (set_password u raw) raw' \<longleftrightarrow> raw' = raw"
  by (auto simp: check_password_def set_password_def make_password_def)

lemma set_password_fields [simp]:
  "user_pk (set_password u raw) = user_pk u" "email (set_password u raw) = email u"
  "role (set_password u raw) = role u" "is_active (set_password u raw) = is_active u"
  "is_role_confirmed (set_password u raw) = is_role_confirmed u"
  by (simp_all add: set_password_def)

lemma create_user_Inr:
  "create_user d em pw fn ln pa ro act conf = Inr (u, d') \<longleftrightarrow>
     normalize_email em \<notin> email ` set (users d) \<and>
     u = \<lparr>user_pk = next_user_pk d, email = normalize_email em, password = make_password pw,
          first_name = fn, last_name = ln, patronymic = pa, role = ro,
          is_active = act, is_role_confirmed = conf, date_joined = now d\<rparr> \<and>
     d' = d\<lparr>users := users d @ [u], next_user_pk := Suc (next_user_pk d)\<rparr>"
  by (auto simp: create_user_def Let_def)

lemma create_user_Inl:
  "create_user d em pw fn ln pa ro act conf = Inl e \<longleftrightarrow>
     normalize_email em \<in> email ` set (users d) \<and> e = IntegrityError"
  by (auto simp: create_user_def Let_def)

lemma is_valid_used [simp]: "used_by i = Some k \<Longrightarrow> \<not> is_valid t i"
  by (simp add: is_valid_def)

lemma create_user_constraints [inv_intros]:
  assumes "db_constraints d" and "create_user d em pw fn ln pa ro act conf = Inr (u, d')"
  shows "db_constraints d'"
proof -
  from assms(2) have em: "normalize_email em \<notin> email ` set (users d)"
    and u: "user_pk u = next_user_pk d" "email u = normalize_email em"
    and d': "d' = d\<lparr>users := users d @ [u], next_user_pk := Suc (next_user_pk d)\<rparr>"
    by (auto simp: create_user_Inr)
  have "next_user_pk d \<notin> user_pk ` set (users d)"
    using assms(1) by (auto simp: db_constraints_def)
  with assms(1) em u d' show ?thesis
    by (auto simp: db_constraints_def less_Suc_eq)
qed

text \<open>Saving an invitation that keeps its key, code and creator keeps the constraints.\<close>

lemma save_invitation_constraints [inv_intros]:
  assumes "db_constraints d" and "i0 \<in> set (invites d)" and "inv_pk i = inv_pk i0"
    and "code i = code i0" and "created_by i = created_by i0"
    and "\<forall>k. used_by i = Some k \<longrightarrow> k \<in> user_pk ` set (users d)"
  shows "db_constraints (save_invitation d i)"
proof -
  have same: "\<forall>x \<in> set (invites d). inv_pk x = inv_pk i \<longrightarrow> x = i0"
    using assms(1-3) by (auto simp: db_constraints_def dest: inj_on_eq_iff [OF distinct_map [THEN iffD1, THEN conjunct2]])
  then have "map code (replace_by inv_pk i (invites d)) = map code (invites d)"
    using assms(4) by (auto intro: map_replace_by_same)
  moreover have "map inv_pk (replace_by inv_pk i (invites d)) = map inv_pk (invites d)"
    by (rule map_key_replace_by)
  moreover have "x \<in> set (replace_by inv_pk i (invites d)) \<Longrightarrow> x = i \<or> x \<in> set (invites d)" for x
    by (rule set_replace_by)
  ultimately show ?thesis using assms
    by (simp add: db_constraints_def save_invitation_def) (metis set_map)
qed

lemma get_or_create_profile_Inr:
  assumes "distinct (map prof_user (profiles d))"
  shows "\<exists>p created d1. get_or_create_profile d k = Inr (p, created, d1) \<and> prof_user p = k \<and>
           p \<in> set (profiles d1) \<and> users d1 = users d \<and> invites d1 = invites d \<and>
           next_user_pk d1 = next_user_pk d \<and> next_inv_pk d1 = next_inv_pk d \<and> now d1 = now d \<and>
           (profiles d1 = profiles d \<or> (k \<notin> prof_user ` set (profiles d) \<and>
                                         profiles d1 = profiles d @ [empty_profile k]))"
  using orm_get_key_cases [OF assms, of k]
  by (auto simp: get_or_create_profile_def empty_profile_def dest: orm_get_Got_D)

lemma get_or_create_profile_constraints [inv_intros]:
  assumes "db_constraints d" and "k \<in> user_pk ` set (users d)"
    and "get_or_create_profile d k = Inr (p, created, d1)"
  shows "db_constraints d1"
proof -
  have "distinct (map prof_user (profiles d))" using assms(1) by (simp add: db_constraints_def)
  from get_or_create_profile_Inr [OF this, of k] assms(3) have
    d1: "users d1 = users d" "invites d1 = invites d" "next_user_pk d1 = next_user_pk d"
        "next_inv_pk d1 = next_inv_pk d"
        "profiles d1 = profiles d \<or> (k \<notin> prof_user ` set (profiles d) \<and>
                                       profiles d1 = profiles d @ [empty_profile k])"
    by auto
  then show ?thesis using assms(1,2)
    by (auto simp: db_constraints_def empty_profile_def)
qed

lemma save_profile_constraints [inv_intros]:
  assumes "db_constraints d" and "p0 \<in> set (profiles d)" and "prof_user p = prof_user p0"
  shows "db_constraints (save_profile d p)"
proof -
  have "x \<in> set (replace_by prof_user p (profiles d)) \<Longrightarrow> prof_user x \<in> user_pk ` set (users d)" for x
    using assms by (auto simp: db_constraints_def dest: set_replace_by)
  with assms(1) show ?thesis
    by (simp add: db_constraints_def save_profile_def map_key_replace_by)
qed

lemma save_user_constraints [inv_intros]:
  assumes "db_constraints d" and "u \<in> set (users d)" and "user_pk u' = user_pk u" and "email u' = email u"
  shows "db_constraints (save_user d u')"
proof -
  have same: "\<forall>x \<in> set (users d). user_pk x = user_pk u' \<longrightarrow> x = u"
    using assms(1-3) by (auto simp: db_constraints_def intro: distinct_map_eqD)
  then have "map email (replace_by user_pk u' (users d)) = map email (users d)"
    using assms(4) by (auto intro: map_replace_by_same)
  moreover have "user_pk ` set (replace_by user_pk u' (users d)) = user_pk ` set (users d)"
    by (metis map_key_replace_by set_map)
  moreover have "x \<in> set (replace_by user_pk u' (users d)) \<Longrightarrow> user_pk x < next_user_pk d" for x
    using assms by (auto simp: db_constraints_def dest: set_replace_by)
  ultimately show ?thesis using assms(1)
    by (simp add: db_constraints_def save_user_def map_key_replace_by)
qed

end
