(* ===== verification/Drf_Fields.thy ===== *)
theory Drf_Fields
  imports Prelim
begin

text \<open>
  The part of Django REST framework the serializers rely on when they validate
  a request: a JSON payload maps field names to values; each writable field of
  a serializer runs \<open>Field.run_validation\<close> (the empty/required/null checks,
  \<open>CharField\<close>'s blank check and whitespace trimming, the field's validators),
  then the serializer's \<open>validate_<field>\<close> hook; \<open>to_internal_value\<close> collects
  the errors of all fields before \<open>validate()\<close> is run on the result.
  Strings are Python \<open>str\<close> values whose code points are below 256 (one HOL
  \<open>char\<close> each); payload values are JSON strings, \<open>null\<close> or objects (JSON
  numbers, booleans and arrays are not modelled).
\<close>

datatype jval = JNull | JStr string | JObj "(string \<times> jval) list"

type_synonym payload = "field_name \<Rightarrow> jval option"

text \<open>The payload of a JSON object: \<open>json.loads\<close> keeps the last of repeated keys.\<close>

definition obj_payload :: "(string \<times> jval) list \<Rightarrow> payload" where
  "obj_payload kvs = map_of (rev kvs)"

text \<open>The internal value of a field: skipped (absent), \<open>None\<close>, or a string.\<close>

datatype fval = Absent | Null | Val string

text \<open>
  The error messages of the serializers (the source's Russian texts are named
  by their meaning) and of the framework.
\<close>

datatype msg =
    Required | Null_not_allowed | Blank | Null_character
  | Not_a_string                      \<comment> \<open>\<open>CharField\<close>: "Not a valid string."\<close>
  | Not_a_dict                        \<comment> \<open>nested serializer: "Expected a dictionary"\<close>
  | Nested "(field_name \<times> msg) list"  \<comment> \<open>the errors of a nested serializer\<close>
  | Field_invalid string              \<comment> \<open>a model-derived validator of the field\<close>
  | Password_weak string              \<comment> \<open>a message of \<open>validate_password\<close>\<close>
  | Email_exists                      \<comment> \<open>user with this email already exists\<close>
  | Role_invalid                      \<comment> \<open>invalid user role\<close>
  | Passwords_differ                  \<comment> \<open>passwords do not match\<close>
  | Invite_invalid                    \<comment> \<open>invalid or already used invitation code\<close>
  | Invite_role_mismatch string string \<comment> \<open>code is for role X, not for Y\<close>
  | Invite_not_found                  \<comment> \<open>invitation code not found\<close>
  | Uuid_invalid                      \<comment> \<open>Django's "is not a valid UUID"\<close>
  | Old_password_wrong                \<comment> \<open>old password is incorrect\<close>
  | New_passwords_differ              \<comment> \<open>new passwords do not match\<close>
  | Invalid_choice                    \<comment> \<open>\<open>ChoiceField\<close>: not a valid choice\<close>
  | Datetime_invalid                  \<comment> \<open>\<open>DateTimeField\<close>: wrong format\<close>

type_synonym verrors = "(field_name \<times> msg) list"

subsection \<open>Fields\<close>

text \<open>
  The options of a \<open>CharField\<close> that decide its validation; \<open>validators\<close> is
  the list of its validators run together (\<open>run_validators\<close> collects all
  their messages).
\<close>

record char_field =
  required :: bool
  allow_blank :: bool
  allow_null :: bool
  trim_whitespace :: bool
  validators :: "string \<Rightarrow> msg list"

text \<open>\<open>ProhibitNullCharactersValidator\<close>, which every \<open>CharField\<close> carries.\<close>

definition prohibit_null :: "string \<Rightarrow> msg list" where
  "prohibit_null s = (if CHR 0x00 \<in> set s then [Null_character] else [])"

text \<open>
  \<open>CharField.run_validation\<close> with \<open>Field.validate_empty_values\<close>:
  an absent value is skipped on a partial update or when the field is optional;
  \<open>null\<close> needs \<open>allow_null\<close>; a blank string (after trimming) needs
  \<open>allow_blank\<close> and skips the validators.
\<close>

definition run_char_field :: "char_field \<Rightarrow> bool \<Rightarrow> jval option \<Rightarrow> msg list + fval" where
  "run_char_field f partial v =
     (case v of
        None \<Rightarrow> if partial then Inr Absent
                else if required f then Inl [Required] else Inr Absent
      | Some JNull \<Rightarrow> if allow_null f then Inr Null else Inl [Null_not_allowed]
      | Some (JObj _) \<Rightarrow> Inl [Not_a_string]
      | Some (JStr s) \<Rightarrow>
          if s = [] \<or> (trim_whitespace f \<and> py_strip s = []) then
            (if allow_blank f then Inr (Val []) else Inl [Blank])
          else
            let s' = (if trim_whitespace f then py_strip s else s)
            in (case validators f s' of [] \<Rightarrow> Inr (Val s') | ms \<Rightarrow> Inl ms))"

text \<open>
  \<open>Serializer.to_internal_value\<close>: every field in declaration order; a field's
  \<open>validate_<field>\<close> hook runs on its value when the field itself passed; the
  errors of all fields are collected, each keyed by its field name; skipped
  fields are left out of the validated data.
\<close>

definition field_step ::
  "(field_name \<Rightarrow> fval \<Rightarrow> msg list) \<Rightarrow> bool \<Rightarrow> payload \<Rightarrow> field_name \<Rightarrow> char_field
     \<Rightarrow> msg list + fval" where
  "field_step hook partial data n f =
     (case run_char_field f partial (data n) of
        Inl ms \<Rightarrow> Inl ms
      | Inr Absent \<Rightarrow> Inr Absent
      | Inr v \<Rightarrow> (case hook n v of [] \<Rightarrow> Inr v | ms \<Rightarrow> Inl ms))"

fun to_internal ::
  "(field_name \<times> char_field) list \<Rightarrow> (field_name \<Rightarrow> fval \<Rightarrow> msg list) \<Rightarrow> bool \<Rightarrow> payload
     \<Rightarrow> verrors + (field_name \<times> fval) list" where
  "to_internal [] hook partial data = Inr []"
| "to_internal ((n, f) # fs) hook partial data =
     (case (field_step hook partial data n f, to_internal fs hook partial data) of
        (Inl ms, Inl es) \<Rightarrow> Inl (map (Pair n) ms @ es)
      | (Inl ms, Inr _) \<Rightarrow> Inl (map (Pair n) ms)
      | (Inr _, Inl es) \<Rightarrow> Inl es
      | (Inr Absent, Inr a) \<Rightarrow> Inr a
      | (Inr v, Inr a) \<Rightarrow> Inr ((n, v) # a))"

text \<open>\<open>attrs.get(name)\<close> on the validated data: \<open>Absent\<close> stands for Python's \<open>None\<close> of a missing key.\<close>

definition attr :: "(field_name \<times> fval) list \<Rightarrow> field_name \<Rightarrow> fval" where
  "attr a n = (case map_of a n of None \<Rightarrow> Absent | Some v \<Rightarrow> v)"

text \<open>The string a validated value holds, as passed on to the model (\<open>''''\<close> for none).\<close>

fun fstr :: "fval \<Rightarrow> string" where
  "fstr (Val s) = s"
| "fstr _ = []"

fun fval_json :: "fval \<Rightarrow> jval option" where
  "fval_json (Val s) = Some (JStr s)"
| "fval_json Null = Some JNull"
| "fval_json Absent = None"

text \<open>\<open>attrs.pop(k)\<close> and \<open>attrs.get(k, default)\<close> on validated data; Python truthiness of a value.\<close>

definition pop_key :: "field_name \<Rightarrow> (field_name \<times> fval) list \<Rightarrow> (field_name \<times> fval) list" where
  "pop_key k a = filter (\<lambda>p. fst p \<noteq> k) a"

definition get_str :: "(field_name \<times> fval) list \<Rightarrow> field_name \<Rightarrow> string \<Rightarrow> string" where
  "get_str a k dflt = (case map_of a k of None \<Rightarrow> dflt | Some v \<Rightarrow> fstr v)"

fun truthy :: "fval \<Rightarrow> bool" where
  "truthy (Val s) = (s \<noteq> [])"
| "truthy _ = False"

text \<open>Validated data passed back to a serializer as request data (\<open>data=validated_data\<close>).\<close>

definition revalue :: "(field_name \<times> fval) list \<Rightarrow> payload" where
  "revalue a n = Option.bind (map_of a n) fval_json"

text \<open>
  The values \<open>to_representation\<close> puts into a response body: JSON null,
  strings, numbers, booleans, date-times (kept as times, not formatted) and the
  nested object of a nested serializer.
\<close>

datatype oval = ONull | OStr string | ONum nat | OBool bool | OTime time | OObj "(string \<times> oval) list"

subsection \<open>Lemmas\<close>

lemma map_of_pop_key: "map_of (pop_key k a) n = (if n = k then None else map_of a n)"
  by (induction a) (auto simp: pop_key_def)

lemma attr_pop_key [simp]: "n \<noteq> k \<Longrightarrow> attr (pop_key k a) n = attr a n"
  by (simp add: attr_def map_of_pop_key)

lemma get_str_pop_key [simp]: "n \<noteq> k \<Longrightarrow> get_str (pop_key k a) n d = get_str a n d"
  by (simp add: get_str_def map_of_pop_key)

lemma run_char_field_Val:
  assumes "run_char_field f False v = Inr r" and "required f" and "\<not> allow_null f"
  shows "\<exists>s. r = Val s"
  using assms
  by (auto simp: run_char_field_def Let_def split: option.splits jval.splits if_splits list.splits)

lemma field_step_cases:
  "field_step hook p data n f = Inr v \<Longrightarrow> run_char_field f p (data n) = Inr v"
  by (auto simp: field_step_def split: sum.splits fval.splits list.splits)

lemma field_step_hook:
  "field_step hook p data n f = Inr v \<Longrightarrow> v \<noteq> Absent \<Longrightarrow> hook n v = []"
  by (auto simp: field_step_def split: sum.splits fval.splits list.splits)

lemma to_internal_keys:
  "to_internal fs hook p data = Inr a \<Longrightarrow> fst ` set a \<subseteq> fst ` set fs"
proof (induction fs hook p data arbitrary: a rule: to_internal.induct)
  case (1 hook p data)
  then show ?case by simp
next
  case (2 m g fs hook p data)
  then show ?case
    by (cases "field_step hook p data m g"; cases "to_internal fs hook p data")
       (force split: fval.splits)+
qed

lemma to_internal_Cons_Inr:
  assumes "to_internal ((m, g) # fs) hook p data = Inr a"
  obtains r a' where "field_step hook p data m g = Inr r" "to_internal fs hook p data = Inr a'"
    "a = (if r = Absent then a' else (m, r) # a')"
  using assms
  by (cases "field_step hook p data m g"; cases "to_internal fs hook p data")
     (auto split: fval.splits)

text \<open>A field that passed is found in the validated data with the value it produced.\<close>

lemma to_internal_attr:
  assumes "to_internal fs hook p data = Inr a" and "distinct (map fst fs)" and "(n, f) \<in> set fs"
  shows "field_step hook p data n f = Inr (attr a n)"
  using assms
proof (induction fs hook p data arbitrary: a rule: to_internal.induct)
  case (1 hook p data)
  then show ?case by simp
next
  case (2 m g fs hook p data)
  from "2.prems"(1) obtain r a' where r: "field_step hook p data m g = Inr r"
    and rest: "to_internal fs hook p data = Inr a'"
    and a: "a = (if r = Absent then a' else (m, r) # a')"
    by (rule to_internal_Cons_Inr)
  show ?case
  proof (cases "n = m")
    case True
    with "2.prems" have "f = g" by (auto simp: image_iff)
    moreover have "m \<notin> fst ` set a'"
      using to_internal_keys [OF rest] "2.prems"(2) by auto
    then have "map_of a' m = None" by (simp add: map_of_eq_None_iff)
    ultimately show ?thesis using r a True by (auto simp: attr_def)
  next
    case False
    with "2.prems" have "(n, f) \<in> set fs" by auto
    with "2.IH" [OF rest] "2.prems"(2) have "field_step hook p data n f = Inr (attr a' n)"
      by simp
    with False a show ?thesis by (auto simp: attr_def)
  qed
qed

text \<open>A required field that does not accept \<open>null\<close> yields a string that its hook accepted.\<close>

lemma to_internal_required:
  assumes "to_internal fs hook False data = Inr a" and "distinct (map fst fs)" and "(n, f) \<in> set fs"
    and "required f" and "\<not> allow_null f"
  shows "\<exists>s. attr a n = Val s \<and> hook n (Val s) = []"
proof -
  have st: "field_step hook False data n f = Inr (attr a n)"
    using assms(1-3) by (rule to_internal_attr)
  then have "run_char_field f False (data n) = Inr (attr a n)" by (rule field_step_cases)
  then obtain s where s: "attr a n = Val s" using assms(4,5) run_char_field_Val by blast
  with st have "hook n (Val s) = []" using field_step_hook by fastforce
  with s show ?thesis by blast
qed

text \<open>
  What a required \<open>CharField\<close> that allows neither blank nor \<open>null\<close> and trims
  whitespace accepted: a JSON string whose stripped form is non-empty and passed
  the validators.
\<close>

lemma run_char_field_strict:
  assumes "run_char_field f p v = Inr (Val s)" and "\<not> allow_blank f" and "trim_whitespace f"
  shows "\<exists>s0. v = Some (JStr s0) \<and> s = py_strip s0 \<and> s \<noteq> [] \<and> validators f s = []"
  using assms
  by (auto simp: run_char_field_def Let_def split: option.splits jval.splits if_splits list.splits)

lemma run_char_field_strict_Inr:
  assumes "v = Some (JStr s0)" and "py_strip s0 \<noteq> []" and "trim_whitespace f"
    and "validators f (py_strip s0) = []"
  shows "run_char_field f p v = Inr (Val (py_strip s0))"
  using assms by (auto simp: run_char_field_def)

lemma to_internal_strict:
  assumes "to_internal fs hook False data = Inr a" and "distinct (map fst fs)" and "(n, f) \<in> set fs"
    and "required f" and "\<not> allow_null f" and "\<not> allow_blank f" and "trim_whitespace f"
  shows "\<exists>s0. data n = Some (JStr s0) \<and> attr a n = Val (py_strip s0) \<and> py_strip s0 \<noteq> [] \<and>
           validators f (py_strip s0) = [] \<and> hook n (Val (py_strip s0)) = []"
proof -
  from to_internal_required [OF assms(1-5)] obtain s where
    s: "attr a n = Val s" "hook n (Val s) = []" by blast
  have "field_step hook False data n f = Inr (attr a n)"
    using assms(1-3) by (rule to_internal_attr)
  then have "run_char_field f False (data n) = Inr (Val s)" using s by (simp add: field_step_cases)
  from run_char_field_strict [OF this assms(6,7)] s show ?thesis by auto
qed

text \<open>\<open>to_internal_value\<close> reports the errors of every failing field.\<close>

lemma to_internal_field_error:
  assumes "(n, f) \<in> set fs" and "field_step hook p data n f = Inl ms"
  shows "\<exists>es. to_internal fs hook p data = Inl es \<and> set (map (Pair n) ms) \<subseteq> set es"
  using assms
proof (induction fs hook p data rule: to_internal.induct)
  case (1 hook p data)
  then show ?case by simp
next
  case (2 m g fs hook p data)
  show ?case
  proof (cases "(n, f) = (m, g)")
    case True
    with "2.prems"(2) show ?thesis
      by (cases "to_internal fs hook p data") auto
  next
    case False
    with "2.prems" have "(n, f) \<in> set fs" by auto
    with "2.IH" "2.prems"(2) obtain es where
      "to_internal fs hook p data = Inl es" "set (map (Pair n) ms) \<subseteq> set es" by blast
    then show ?thesis
      by (cases "field_step hook p data m g") (auto split: fval.splits)
  qed
qed

text \<open>Validating validated data again, as a partial update, gives it back unchanged.\<close>

lemma to_internal_cong:
  "(\<And>m. m \<in> fst ` set fs \<Longrightarrow> data1 m = data2 m) \<Longrightarrow>
   to_internal fs hook p data1 = to_internal fs hook p data2"
proof (induction fs hook p data1 rule: to_internal.induct)
  case (1 hook p data)
  then show ?case by simp
next
  case (2 n f fs hook p data)
  then have "data n = data2 n" by simp
  moreover have "to_internal fs hook p data = to_internal fs hook p data2" using 2 by auto
  ultimately show ?case by (simp add: field_step_def)
qed

lemma run_char_field_revalidate:
  "run_char_field f p v = Inr (Val s) \<Longrightarrow> run_char_field f p' (Some (JStr s)) = Inr (Val s)"
  by (auto simp: run_char_field_def Let_def split: option.splits jval.splits if_splits list.splits)

lemma run_char_field_Null:
  "run_char_field f p v = Inr Null \<Longrightarrow> run_char_field f p' (Some JNull) = Inr Null"
  by (auto simp: run_char_field_def Let_def split: option.splits jval.splits if_splits list.splits)

lemma to_internal_revalidate:
  assumes "to_internal fs hook p data = Inr a" and "distinct (map fst fs)"
    and "\<And>n v. hook n v = []"
  shows "to_internal fs hook True (revalue a) = Inr a"
  using assms
proof (induction fs hook p data arbitrary: a rule: to_internal.induct)
  case (1 hook p data)
  then show ?case by simp
next
  case (2 n f fs hook p data)
  from "2.prems"(1) obtain r a' where r: "field_step hook p data n f = Inr r"
    and rest: "to_internal fs hook p data = Inr a'"
    and a: "a = (if r = Absent then a' else (n, r) # a')"
    by (rule to_internal_Cons_Inr)
  have nfs: "n \<notin> fst ` set fs" using "2.prems"(2) by simp
  have keys: "fst ` set a' \<subseteq> fst ` set fs" using rest by (rule to_internal_keys)
  have "distinct (map fst fs)" using "2.prems"(2) by simp
  with "2.IH" [OF rest] "2.prems"(3) have IH: "to_internal fs hook True (revalue a') = Inr a'"
    by blast
  have same: "to_internal fs hook True (revalue a) = to_internal fs hook True (revalue a')"
  proof (rule to_internal_cong)
    fix m assume "m \<in> fst ` set fs"
    with nfs have "m \<noteq> n" by auto
    with a show "revalue a m = revalue a' m" by (simp add: revalue_def)
  qed
  have rc: "run_char_field f p (data n) = Inr r" using r by (rule field_step_cases)
  have "field_step hook True (revalue a) n f = Inr r"
  proof (cases r)
    case Absent
    with a keys nfs have "map_of a n = None"
      by (auto simp: map_of_eq_None_iff)
    then have "revalue a n = None" by (simp add: revalue_def)
    with Absent show ?thesis by (simp add: field_step_def run_char_field_def)
  next
    case Null
    with a have "revalue a n = Some JNull" by (simp add: revalue_def)
    with Null rc "2.prems"(3) show ?thesis by (simp add: field_step_def run_char_field_Null)
  next
    case (Val s)
    with a have "revalue a n = Some (JStr s)" by (simp add: revalue_def)
    with Val rc "2.prems"(3) show ?thesis by (simp add: field_step_def run_char_field_revalidate)
  qed
  with same IH a show ?case by (cases r) auto
qed

lemma to_internal_no_Absent:
  "to_internal fs hook p data = Inr a \<Longrightarrow> Absent \<notin> snd ` set a"
proof (induction fs hook p data arbitrary: a rule: to_internal.induct)
  case (1 hook p data)
  then show ?case by simp
next
  case (2 n f fs hook p data)
  from "2.prems" obtain r a' where "field_step hook p data n f = Inr r"
    "to_internal fs hook p data = Inr a'" "a = (if r = Absent then a' else (n, r) # a')"
    by (rule to_internal_Cons_Inr)
  with "2.IH" show ?case by auto
qed

lemma to_internal_partial_absent:
  assumes "to_internal fs hook True data = Inr a" and "distinct (map fst fs)" and "(n, f) \<in> set fs"
    and "data n = None"
  shows "n \<notin> fst ` set a"
proof
  assume n: "n \<in> fst ` set a"
  have "field_step hook True data n f = Inr (attr a n)" using assms(1-3) by (rule to_internal_attr)
  then have "run_char_field f True (data n) = Inr (attr a n)" by (rule field_step_cases)
  with assms(4) have "attr a n = Absent" by (simp add: run_char_field_def)
  moreover from n obtain v where "map_of a n = Some v" by (metis map_of_eq_None_iff option.exhaust)
  moreover have "v \<noteq> Absent"
  proof
    assume "v = Absent"
    with \<open>map_of a n = Some v\<close> have "(n, Absent) \<in> set a" by (simp add: map_of_SomeD)
    then have "Absent \<in> snd ` set a" by force
    with to_internal_no_Absent [OF assms(1)] show False by simp
  qed
  ultimately show False by (simp add: attr_def)
qed

text \<open>An empty request body: every required field reports \<open>Required\<close>, in declaration order; a partial update validates to nothing.\<close>

lemma to_internal_empty:
  "to_internal fs hook False (\<lambda>_. None) =
     (if filter (\<lambda>p. required (snd p)) fs = [] then Inr []
      else Inl (map (\<lambda>(n, f). (n, Required)) (filter (\<lambda>p. required (snd p)) fs)))"
  by (induction fs) (auto simp: field_step_def run_char_field_def split: sum.splits)

lemma to_internal_empty_partial: "to_internal fs hook True (\<lambda>_. None) = Inr []"
  by (induction fs) (auto simp: field_step_def run_char_field_def)

subsection \<open>Errors and keys of the validation\<close>

lemma to_internal_Inl_keys:
  "to_internal fs hook p data = Inl es \<Longrightarrow> set (map fst es) \<subseteq> set (map fst fs)"
  by (induction fs hook p data arbitrary: es rule: to_internal.induct)
     (auto split: sum.splits fval.splits simp: image_subset_iff)

lemma to_internal_distinct:
  "distinct (map fst fs) \<Longrightarrow> to_internal fs hook p data = Inr a \<Longrightarrow> distinct (map fst a)"
proof (induction fs hook p data arbitrary: a rule: to_internal.induct)
  case (1 hook p data)
  then show ?case by simp
next
  case (2 n f fs hook p data)
  then have "n \<notin> fst ` set fs" by simp
  with 2 show ?case
    by (auto split: sum.splits fval.splits dest!: to_internal_keys)
qed

end
