(* ===== verification/Settings.thy ===== *)
theory Settings
  imports Orm Drf_Fields
begin

text \<open>
  What the serializers take from outside serializers.py: the DRF fields that
  \<open>ModelSerializer\<close> derives from the model fields of \<open>User\<close> and \<open>Profile\<close>
  (users/models.py), the validators \<open>validate_password\<close> runs
  (\<open>AUTH_PASSWORD_VALIDATORS\<close> of the settings), and the choices of
  \<open>User.Role\<close>, and the parser of \<open>DateTimeField\<close> (ISO 8601 with the
  configured time zone), and how \<open>ImageField\<close> and \<open>DateField\<close> show a
  stored value (the file's URL under \<open>MEDIA_URL\<close>, the ISO date). The model is stated for every such configuration that is
  well-formed in Django's sense (\<open>cfg_ok\<close>), and instantiated with a concrete one
  in the witnesses. A request ends in a failure (a 400 response with the
  validation errors, or a server error raised by the ORM) or in a result.
\<close>

record config =
  model_field :: "field_name \<Rightarrow> char_field"
  password_validators :: "string \<Rightarrow> msg list"
  role_choices :: "(string \<times> string) list"
  parse_datetime :: "string \<Rightarrow> time option"
  image_repr :: "string \<Rightarrow> string"
  date_repr :: "string \<Rightarrow> string"

datatype failure = Invalid verrors | Server_error db_error

text \<open>\<open>User.Role.values\<close>\<close>

definition role_values :: "config \<Rightarrow> string list" where
  "role_values cfg = map fst (role_choices cfg)"

text \<open>\<open>invitation.get_role_display()\<close>: the label of a choice, the value itself otherwise.\<close>

definition role_display :: "config \<Rightarrow> string \<Rightarrow> string" where
  "role_display cfg r = (case map_of (role_choices cfg) r of Some l \<Rightarrow> l | None \<Rightarrow> r)"

text \<open>\<open>dict(User.Role.choices).get(value)\<close> as formatted into a message.\<close>

definition choice_label :: "config \<Rightarrow> fval \<Rightarrow> string" where
  "choice_label cfg v =
     (case v of Val r \<Rightarrow> (case map_of (role_choices cfg) r of Some l \<Rightarrow> l | None \<Rightarrow> ''None'')
              | _ \<Rightarrow> ''None'')"

text \<open>
  Django's model fields are \<open>null=False\<close> unless declared otherwise, so the DRF
  fields derived from the user's text columns do not accept \<open>null\<close>; the email
  is the username field, which Django requires to be a non-blank column, so its
  DRF field is required.
\<close>

text \<open>
  The keys of a 400 response: the serializer's declared fields and
  \<open>non_field_errors\<close>, under which DRF reports errors of \<open>validate\<close> that
  name no field.
\<close>

definition keys_declared :: "field_name list \<Rightarrow> verrors \<Rightarrow> bool" where
  "keys_declared ns es \<longleftrightarrow> list_all (\<lambda>e. fst e \<in> set ns \<or> fst e = ''non_field_errors'') es"

definition user_text_fields :: "field_name list" where
  "user_text_fields = [''email'', ''first_name'', ''last_name'', ''patronymic'', ''role'']"

definition cfg_ok :: "config \<Rightarrow> bool" where
  "cfg_ok cfg \<longleftrightarrow>
     (\<forall>n \<in> set user_text_fields. \<not> allow_null (model_field cfg n)) \<and> required (model_field cfg ''email'')"

end
