(* ===== verification/Uuid.thy ===== *)
theory Uuid
  imports Prelim
begin

text \<open>
  Invitation codes are UUIDs (\<open>uuid.uuid4()\<close> in
  \<open>InvitationCodeSerializer.create\<close>). A code travels as its string form
  \<open>str(uuid)\<close> and comes back as the registration's \<open>invite_code\<close> string, which
  \<open>InvitationCode.objects.get(code=...)\<close> turns into a UUID with Django's
  \<open>UUIDField.to_python\<close>, that is Python's \<open>uuid.UUID(hex=s)\<close>:
  \<^verbatim>\<open>
  hex = hex.replace('urn:', '').replace('uuid:', '')
  hex = hex.strip('{}').replace('-', '')
  if len(hex) != 32: raise ValueError(...)
  int = int_(hex, 16)
  if not 0 <= int < 1 << 128: raise ValueError(...)
  \<close>
  with \<open>int(s, 16)\<close>'s own syntax: surrounding whitespace, a sign, an optional
  \<open>0x\<close> prefix followed by at most one underscore, and hex digits with single
  underscores between them. A UUID is its 128-bit integer (a \<open>nat\<close>).
\<close>

subsection \<open>Hex digits\<close>

definition hex_val :: "char \<Rightarrow> nat option" where
  "hex_val c =
     (let n = of_char c :: nat in
      if 48 \<le> n \<and> n \<le> 57 then Some (n - 48)
      else if 97 \<le> n \<and> n \<le> 102 then Some (n - 87)
      else if 65 \<le> n \<and> n \<le> 70 then Some (n - 55)
      else None)"

text \<open>
  The digits of \<open>int(s, 16)\<close> after the prefix: \<open>need\<close> is set where a digit
  must come next (at the start and after an underscore).
\<close>

fun hex_run :: "bool \<Rightarrow> string \<Rightarrow> nat list option" where
  "hex_run need [] = (if need then None else Some [])"
| "hex_run need (c # r) =
     (if c = CHR ''_'' \<and> \<not> need then hex_run True r
      else case hex_val c of
             None \<Rightarrow> None
           | Some d \<Rightarrow> map_option (Cons d) (hex_run False r))"

definition hex_value :: "nat list \<Rightarrow> nat" where
  "hex_value ds = foldl (\<lambda>a d. 16 * a + d) 0 ds"

definition sign_split :: "string \<Rightarrow> bool \<times> string" where
  "sign_split t =
     (case t of
        [] \<Rightarrow> (False, [])
      | c # r \<Rightarrow> if c = CHR ''+'' then (False, r) else if c = CHR ''-'' then (True, r) else (False, t))"

definition drop_hex_prefix :: "string \<Rightarrow> string" where
  "drop_hex_prefix t =
     (case t of
        c0 # c1 # r \<Rightarrow>
          if c0 = CHR ''0'' \<and> (c1 = CHR ''x'' \<or> c1 = CHR ''X'')
          then (case r of c2 # r' \<Rightarrow> if c2 = CHR ''_'' then r' else r | [] \<Rightarrow> r)
          else t
      | _ \<Rightarrow> t)"

text \<open>\<open>int(s, 16)\<close>; \<open>None\<close> is the \<open>ValueError\<close>.\<close>

definition py_int16 :: "string \<Rightarrow> int option" where
  "py_int16 s =
     (let (neg, t) = sign_split (py_strip s)
      in map_option (\<lambda>ds. if neg then - int (hex_value ds) else int (hex_value ds))
           (hex_run True (drop_hex_prefix t)))"

text \<open>\<open>uuid.UUID(hex=s)\<close>, that is \<open>UUIDField.to_python(s)\<close>; \<open>None\<close> is the error.\<close>

definition uuid_parse :: "string \<Rightarrow> nat option" where
  "uuid_parse s =
     (let h = remove_all ''-''
                (strip_by (\<lambda>c. c = CHR ''{'' \<or> c = CHR ''}'')
                   (remove_all ''uuid:'' (remove_all ''urn:'' s)))
      in if length h \<noteq> 32 then None
         else case py_int16 h of
                None \<Rightarrow> None
              | Some i \<Rightarrow> if 0 \<le> i \<and> i < 2 ^ 128 then Some (nat i) else None)"

subsection \<open>Printing: \<open>str(uuid)\<close>\<close>

definition hex_char :: "nat \<Rightarrow> char" where
  "hex_char d = ''0123456789abcdef'' ! d"

fun hex_digit_list :: "nat \<Rightarrow> nat \<Rightarrow> nat list" where
  "hex_digit_list 0 n = []"
| "hex_digit_list (Suc w) n = hex_digit_list w (n div 16) @ [n mod 16]"

text \<open>\<open>'%032x' % int\<close> cut into the groups 8-4-4-4-12.\<close>

definition uuid_str :: "nat \<Rightarrow> string" where
  "uuid_str n =
     (let h = map hex_char (hex_digit_list 32 n)
      in take 8 h @ ''-'' @ take 4 (drop 8 h) @ ''-'' @ take 4 (drop 12 h) @ ''-''
         @ take 4 (drop 16 h) @ ''-'' @ drop 20 h)"

subsection \<open>Lemmas: digits, and the round trip of a printed code\<close>

lemma hex_val_hex_char: "d < 16 \<Longrightarrow> hex_val (hex_char d) = Some d"
proof -
  assume "d < 16"
  then have "d \<in> set [0..<16]" by simp
  then show ?thesis by (simp add: upt_rec hex_char_def hex_val_def) (elim disjE; simp)
qed

lemma hex_digit_list_length [simp]: "length (hex_digit_list w n) = w"
  by (induction w arbitrary: n) auto

lemma hex_digit_list_lt: "x \<in> set (hex_digit_list w n) \<Longrightarrow> x < 16"
  by (induction w arbitrary: n) auto

lemma hex_value_snoc: "hex_value (xs @ [d]) = 16 * hex_value xs + d"
  by (simp add: hex_value_def)

lemma hex_value_digits: "hex_value (hex_digit_list w n) = n mod 16 ^ w"
proof (induction w arbitrary: n)
  case 0
  then show ?case by (simp add: hex_value_def)
next
  case (Suc w)
  have "n mod (16 * 16 ^ w) = 16 * (n div 16 mod 16 ^ w) + n mod 16"
    by (rule mod_mult2_eq)
  with Suc show ?case by (simp add: hex_value_snoc)
qed

lemma hex_run_hex_chars:
  "(\<forall>d \<in> set ds. d < 16) \<Longrightarrow> ds \<noteq> [] \<or> \<not> need \<Longrightarrow> hex_run need (map hex_char ds) = Some ds"
proof (induction ds arbitrary: need)
  case Nil
  then show ?case by simp
next
  case (Cons d ds)
  then have d: "d < 16" by simp
  have "hex_val (hex_char d) = Some d" using d by (rule hex_val_hex_char)
  moreover have "hex_val CHR ''_'' = None" by (simp add: hex_val_def)
  ultimately have "hex_char d \<noteq> CHR ''_''" by auto
  with Cons d show ?case by (simp add: hex_val_hex_char)
qed

lemma remove_all_absent: "p \<noteq> [] \<Longrightarrow> hd p \<notin> set s \<Longrightarrow> remove_all p s = s"
proof (induction s)
  case Nil
  then show ?case by simp
next
  case (Cons c s)
  then have "take (length p) (c # s) \<noteq> p"
    by (cases p) auto
  with Cons show ?case by simp
qed

lemma remove_all_single: "remove_all [c] s = filter (\<lambda>x. x \<noteq> c) s"
  by (induction s) auto

lemma strip_by_none: "\<forall>c \<in> set s. \<not> P c \<Longrightarrow> strip_by P s = s"
proof -
  assume a: "\<forall>c \<in> set s. \<not> P c"
  then have "dropWhile P s = s" by (cases s) auto
  moreover from a have "dropWhile P (rev s) = rev s" by (cases "rev s") auto
  ultimately show ?thesis by (simp add: strip_by_def)
qed

lemma hex_val_Some_not:
  "hex_val c \<noteq> None \<Longrightarrow>
     c \<noteq> CHR ''+'' \<and> c \<noteq> CHR ''-'' \<and> c \<noteq> CHR ''x'' \<and> c \<noteq> CHR ''X'' \<and> c \<noteq> CHR ''_''
     \<and> c \<noteq> CHR ''u'' \<and> c \<noteq> CHR ''{'' \<and> c \<noteq> CHR ''}'' \<and> \<not> py_isspace c"
  by (auto simp: hex_val_def py_isspace_def Let_def split: if_splits)

lemma hex_digits_hex_val:
  "\<forall>d \<in> set ds. d < 16 \<Longrightarrow> c \<in> set (map hex_char ds) \<Longrightarrow> hex_val c \<noteq> None"
  by (auto simp: hex_val_hex_char)

lemma py_int16_hex_digits:
  assumes ds: "\<forall>d \<in> set ds. d < 16" and ne: "ds \<noteq> []"
  shows "py_int16 (map hex_char ds) = Some (int (hex_value ds))"
proof -
  let ?s = "map hex_char ds"
  have hx: "\<And>c. c \<in> set ?s \<Longrightarrow> hex_val c \<noteq> None" using ds by (rule hex_digits_hex_val)
  then have "\<forall>c \<in> set ?s. \<not> py_isspace c" using hex_val_Some_not by blast
  then have "py_strip ?s = ?s" by (rule strip_by_none)
  moreover have "sign_split ?s = (False, ?s)"
  proof -
    obtain c r where cr: "?s = c # r" using ne by (cases ds) auto
    then have "hex_val c \<noteq> None" using hx by simp
    then have "c \<noteq> CHR ''+'' \<and> c \<noteq> CHR ''-''" using hex_val_Some_not by blast
    with cr show ?thesis by (simp add: sign_split_def)
  qed
  moreover have "drop_hex_prefix ?s = ?s"
  proof (cases "tl ?s")
    case Nil
    then show ?thesis by (cases ?s) (auto simp: drop_hex_prefix_def)
  next
    case (Cons c1 r)
    then obtain c0 where s: "?s = c0 # c1 # r" by (cases ?s) auto
    then have "hex_val c1 \<noteq> None" using hx by simp
    then have "c1 \<noteq> CHR ''x'' \<and> c1 \<noteq> CHR ''X''" using hex_val_Some_not by blast
    with s show ?thesis by (simp add: drop_hex_prefix_def)
  qed
  moreover have "hex_run True ?s = Some ds"
    using ds ne by (simp add: hex_run_hex_chars)
  ultimately show ?thesis by (simp add: py_int16_def)
qed

lemma groups_8_4_4_4_12:
  "take 8 h @ take 4 (drop 8 h) @ take 4 (drop 12 h) @ take 4 (drop 16 h) @ drop 20 h = h"
proof -
  have "take 4 (drop 16 h) @ drop 20 h = drop 16 h"
    using append_take_drop_id [of 4 "drop 16 h"] by simp
  moreover have "take 4 (drop 12 h) @ drop 16 h = drop 12 h"
    using append_take_drop_id [of 4 "drop 12 h"] by simp
  moreover have "take 4 (drop 8 h) @ drop 12 h = drop 8 h"
    using append_take_drop_id [of 4 "drop 8 h"] by simp
  ultimately show ?thesis by simp
qed

lemma uuid_str_chars: "c \<in> set (uuid_str n) \<Longrightarrow> hex_val c \<noteq> None \<or> c = CHR ''-''"
proof -
  assume c: "c \<in> set (uuid_str n)"
  let ?h = "map hex_char (hex_digit_list 32 n)"
  from c have "c \<in> set ?h \<or> c = CHR ''-''"
    by (auto simp: uuid_str_def Let_def dest!: in_set_takeD in_set_dropD)
  then show ?thesis
    using hex_digits_hex_val [of "hex_digit_list 32 n" c] hex_digit_list_lt by blast
qed

lemma uuid_str_digits:
  "remove_all ''-'' (uuid_str n) = map hex_char (hex_digit_list 32 n)"
proof -
  let ?h = "map hex_char (hex_digit_list 32 n)"
  have nd: "\<forall>c \<in> set ?h. c \<noteq> CHR ''-''"
    using hex_digits_hex_val [of "hex_digit_list 32 n"] hex_digit_list_lt hex_val_Some_not by blast
  have sub: "\<And>xs. set xs \<subseteq> set ?h \<Longrightarrow> filter (\<lambda>x. x \<noteq> CHR ''-'') xs = xs"
    using nd by (blast intro: filter_True)
  have "\<And>j k. set (take k (drop j ?h)) \<subseteq> set ?h"
    by (meson set_drop_subset set_take_subset subset_trans)
  then have "\<And>j k. filter (\<lambda>x. x \<noteq> CHR ''-'') (take k (drop j ?h)) = take k (drop j ?h)"
    by (rule sub)
  moreover have "filter (\<lambda>x. x \<noteq> CHR ''-'') (drop 20 ?h) = drop 20 ?h"
    by (rule sub) (rule set_drop_subset)
  moreover have "filter (\<lambda>x. x \<noteq> CHR ''-'') (take 8 ?h) = take 8 ?h"
    by (rule sub) (rule set_take_subset)
  ultimately have "filter (\<lambda>x. x \<noteq> CHR ''-'') (uuid_str n) =
        take 8 ?h @ take 4 (drop 8 ?h) @ take 4 (drop 12 ?h) @ take 4 (drop 16 ?h) @ drop 20 ?h"
    by (simp add: uuid_str_def Let_def)
  then show ?thesis by (simp only: remove_all_single groups_8_4_4_4_12)
qed

abbreviation brace :: "char \<Rightarrow> bool" where
  "brace c \<equiv> c = CHR ''{'' \<or> c = CHR ''}''"

lemma strip_by_wrap:
  assumes "P a" and "P b" and "\<forall>c \<in> set t. \<not> P c"
  shows "strip_by P (a # t @ [b]) = t"
proof (cases t)
  case Nil
  with assms show ?thesis by (simp add: strip_by_def)
next
  case (Cons c r)
  with assms have "dropWhile P (a # t @ [b]) = t @ [b]" by simp
  moreover obtain x ys where xs: "rev t = x # ys" using Cons by (cases "rev t") auto
  then have "x \<in> set t" by (metis list.set_intros(1) set_rev)
  with assms xs have "dropWhile P (rev (t @ [b])) = rev t" by simp
  ultimately show ?thesis by (simp add: strip_by_def)
qed

lemma uuid_str_no_u: "CHR ''u'' \<notin> set (uuid_str n)"
  using uuid_str_chars hex_val_Some_not by fastforce

lemma uuid_str_no_brace: "\<forall>c \<in> set (uuid_str n). \<not> brace c"
  by (auto dest!: uuid_str_chars simp: hex_val_def)

text \<open>The digits left after the prefixes, braces and hyphens are read by \<open>int(s, 16)\<close>.\<close>

lemma uuid_parse_hex:
  assumes "remove_all ''-'' (strip_by brace (remove_all ''uuid:'' (remove_all ''urn:'' s)))
             = map hex_char (hex_digit_list 32 n)"
    and n: "n < 2 ^ 128"
  shows "uuid_parse s = Some n"
proof -
  have "py_int16 (map hex_char (hex_digit_list 32 n)) = Some (int (n mod 16 ^ 32))"
  proof -
    have "hex_digit_list 32 n \<noteq> []" by (simp flip: length_0_conv)
    then show ?thesis
      using py_int16_hex_digits [of "hex_digit_list 32 n"] hex_digit_list_lt
      by (simp add: hex_value_digits)
  qed
  moreover have "n mod 16 ^ 32 = n" using n by simp
  ultimately show ?thesis using assms by (simp add: uuid_parse_def)
qed

lemma uuid_roundtrip: "n < 2 ^ 128 \<Longrightarrow> uuid_parse (uuid_str n) = Some n"
  by (rule uuid_parse_hex)
     (simp add: remove_all_absent uuid_str_no_u strip_by_none uuid_str_no_brace uuid_str_digits)

lemma uuid_parse_bound: "uuid_parse s = Some n \<Longrightarrow> n < 2 ^ 128"
  by (auto simp: uuid_parse_def Let_def split: if_splits option.splits)

end
