(* ===== verification/Registration.thy ===== *)
theory Registration
  imports Settings Uuid
begin

text \<open>
  \<open>UserRegistrationSerializer\<close> (src/users/serializers.py, lines 66-141):
  its declared and model-derived fields in \<open>Meta.fields\<close> order, the field
  hooks \<open>validate_email\<close> and \<open>validate_role\<close>, the object-level
  \<open>validate\<close> that checks the two passwords and resolves the invitation code,
  and \<open>create\<close>, which creates the user (active and role-confirmed exactly when
  an invitation was given) and marks the invitation as used by it.
  \<open>register\<close> is the request: \<open>is_valid()\<close> then \<open>save()\<close>.
\<close>

subsection \<open>Fields (lines 67-79)\<close>

definition password_field :: "config \<Rightarrow> char_field" where
  "password_field cfg =
     \<lparr>required = True, allow_blank = False, allow_null = False, trim_whitespace = True,
      validators = (\<lambda>s. password_validators cfg s @ prohibit_null s)\<rparr>"

definition password2_field :: char_field where
  "password2_field =
     \<lparr>required = True, allow_blank = False, allow_null = False, trim_whitespace = True,
      validators = prohibit_null\<rparr>"

definition invite_code_field :: char_field where
  "invite_code_field =
     \<lparr>required = False, allow_blank = True, allow_null = True, trim_whitespace = True,
      validators = prohibit_null\<rparr>"

definition reg_fields :: "config \<Rightarrow> (field_name \<times> char_field) list" where
  "reg_fields cfg =
     [(''email'', model_field cfg ''email''),
      (''password'', password_field cfg),
      (''password2'', password2_field),
      (''first_name'', (model_field cfg ''first_name'')\<lparr>required := True\<rparr>),
      (''last_name'', (model_field cfg ''last_name'')\<lparr>required := True\<rparr>),
      (''patronymic'', model_field cfg ''patronymic''),
      (''role'', (model_field cfg ''role'')\<lparr>required := True\<rparr>),
      (''invite_code'', invite_code_field)]"

subsection \<open>Field hooks (lines 81-91)\<close>

definition validate_email :: "db \<Rightarrow> fval \<Rightarrow> msg list" where
  "validate_email d v = (if (\<exists>u \<in> set (users d). v = Val (email u)) then [Email_exists] else [])"

definition validate_role :: "config \<Rightarrow> fval \<Rightarrow> msg list" where
  "validate_role cfg v = (if v \<notin> set (map Val (role_values cfg)) then [Role_invalid] else [])"

definition reg_hook :: "config \<Rightarrow> db \<Rightarrow> field_name \<Rightarrow> fval \<Rightarrow> msg list" where
  "reg_hook cfg d n v =
     (if n = ''email'' then validate_email d v
      else if n = ''role'' then validate_role cfg v
      else [])"

subsection \<open>Object-level validation (lines 93-113)\<close>

text \<open>
  The validated data is the dictionary of field values together with the
  \<open>invitation_instance\<close> entry that \<open>validate\<close> adds.
\<close>

type_synonym reg_data = "(field_name \<times> fval) list \<times> invitation option"

definition reg_cleanup :: "(field_name \<times> fval) list \<Rightarrow> (field_name \<times> fval) list" where
  "reg_cleanup attrs = pop_key ''invite_code'' (pop_key ''password2'' attrs)"

definition reg_validate ::
  "config \<Rightarrow> db \<Rightarrow> (field_name \<times> fval) list \<Rightarrow> failure + reg_data" where
  "reg_validate cfg d attrs =
     (if attr attrs ''password'' \<noteq> attr attrs ''password2''
      then Inl (Invalid [(''password2'', Passwords_differ)])
      else
        let ic = attr attrs ''invite_code'' in
        if \<not> truthy ic then Inr (reg_cleanup attrs, None)
        else
          (case uuid_parse (fstr ic) of
             None \<Rightarrow> Inl (Invalid [(''non_field_errors'', Uuid_invalid)])
           | Some c \<Rightarrow>
               (case orm_get (\<lambda>i. code i = c) (invites d) of
                  DoesNotExist \<Rightarrow> Inl (Invalid [(''invite_code'', Invite_not_found)])
                | MultipleObjectsReturned \<Rightarrow> Inl (Server_error MultipleObjects)
                | Got invitation \<Rightarrow>
                    if \<not> is_valid (now d) invitation
                    then Inl (Invalid [(''invite_code'', Invite_invalid)])
                    else if Val (inv_role invitation) \<noteq> attr attrs ''role''
                    then Inl (Invalid [(''role'', Invite_role_mismatch (role_display cfg (inv_role invitation))
                                                    (choice_label cfg (attr attrs ''role'')))])
                    else Inr (reg_cleanup attrs, Some invitation))))"

subsection \<open>Creation (lines 115-141)\<close>

definition reg_create :: "db \<Rightarrow> reg_data \<Rightarrow> db_error + (user \<times> db)" where
  "reg_create d vd =
     (let (a, invitation) = vd in
      case create_user d (fstr (attr a ''email'')) (fstr (attr a ''password''))
             (fstr (attr a ''first_name'')) (fstr (attr a ''last_name''))
             (get_str a ''patronymic'' []) (fstr (attr a ''role''))
             (invitation \<noteq> None) (invitation \<noteq> None) of
        Inl e \<Rightarrow> Inl e
      | Inr (u, d1) \<Rightarrow>
          (case invitation of
             None \<Rightarrow> Inr (u, d1)
           | Some i \<Rightarrow> Inr (u, save_invitation d1 (i\<lparr>used_by := Some (user_pk u)\<rparr>))))"

subsection \<open>The request: \<open>is_valid()\<close> then \<open>save()\<close>\<close>

definition reg_is_valid :: "config \<Rightarrow> db \<Rightarrow> payload \<Rightarrow> failure + reg_data" where
  "reg_is_valid cfg d data =
     (case to_internal (reg_fields cfg) (reg_hook cfg d) False data of
        Inl es \<Rightarrow> Inl (Invalid es)
      | Inr attrs \<Rightarrow> reg_validate cfg d attrs)"

definition register :: "config \<Rightarrow> db \<Rightarrow> payload \<Rightarrow> failure + (user \<times> db)" where
  "register cfg d data =
     (case reg_is_valid cfg d data of
        Inl f \<Rightarrow> Inl f
      | Inr vd \<Rightarrow> (case reg_create d vd of Inl e \<Rightarrow> Inl (Server_error e) | Inr r \<Rightarrow> Inr r))"

text \<open>The invitation code a registration request presents: its stripped, non-blank
  \<open>invite_code\<close> string read as a UUID.\<close>

definition reg_code :: "payload \<Rightarrow> nat option" where
  "reg_code data =
     (case data ''invite_code'' of
        Some (JStr s) \<Rightarrow> if py_strip s = [] then None else uuid_parse (py_strip s)
      | _ \<Rightarrow> None)"

subsection \<open>Lemmas: what validation establishes\<close>

lemma reg_fields_distinct [simp]: "distinct (map fst (reg_fields cfg))"
  by (simp add: reg_fields_def)

lemma reg_required_field:
  assumes "to_internal (reg_fields cfg) (reg_hook cfg d) False data = Inr attrs" and "cfg_ok cfg"
    and "(n, f) \<in> set (reg_fields cfg)" and "required f" and "\<not> allow_null f"
  shows "\<exists>s. attr attrs n = Val s \<and> reg_hook cfg d n (Val s) = []"
  using assms(1) reg_fields_distinct assms(3-5) by (rule to_internal_required)

lemma reg_attrs:
  assumes "to_internal (reg_fields cfg) (reg_hook cfg d) False data = Inr attrs" and "cfg_ok cfg"
  shows "\<exists>e. attr attrs ''email'' = Val e \<and> e \<notin> email ` set (users d)"
    and "\<exists>r. attr attrs ''role'' = Val r \<and> r \<in> set (role_values cfg)"
proof -
  have "(''email'', model_field cfg ''email'') \<in> set (reg_fields cfg)"
    by (simp add: reg_fields_def)
  moreover have "required (model_field cfg ''email'')" "\<not> allow_null (model_field cfg ''email'')"
    using assms(2) by (simp_all add: cfg_ok_def user_text_fields_def)
  ultimately obtain e where "attr attrs ''email'' = Val e" "reg_hook cfg d ''email'' (Val e) = []"
    using reg_required_field [OF assms] by blast
  then show "\<exists>e. attr attrs ''email'' = Val e \<and> e \<notin> email ` set (users d)"
    by (auto simp: reg_hook_def validate_email_def split: if_splits)
next
  have "(''role'', (model_field cfg ''role'')\<lparr>required := True\<rparr>) \<in> set (reg_fields cfg)"
    by (simp add: reg_fields_def)
  moreover have "\<not> allow_null (model_field cfg ''role'')"
    using assms(2) by (simp add: cfg_ok_def user_text_fields_def)
  ultimately obtain r where "attr attrs ''role'' = Val r" "reg_hook cfg d ''role'' (Val r) = []"
    using reg_required_field [OF assms] by fastforce
  then show "\<exists>r. attr attrs ''role'' = Val r \<and> r \<in> set (role_values cfg)"
    by (auto simp: reg_hook_def validate_role_def split: if_splits)
qed

lemma reg_validate_Inr:
  assumes "reg_validate cfg d attrs = Inr (a, io)"
  shows "a = reg_cleanup attrs"
    and "io = None \<Longrightarrow> \<not> truthy (attr attrs ''invite_code'')"
    and "io = Some i \<Longrightarrow> i \<in> set (invites d) \<and> is_valid (now d) i \<and>
           attr attrs ''role'' = Val (inv_role i) \<and> truthy (attr attrs ''invite_code'') \<and>
           uuid_parse (fstr (attr attrs ''invite_code'')) = Some (code i)"
  using assms
  by (auto simp: reg_validate_def Let_def split: if_splits option.splits get_result.splits
           dest: orm_get_Got_D)

text \<open>\<open>validate\<close> raises a server error only through \<open>MultipleObjectsReturned\<close>,
  which the unique code column rules out.\<close>

lemma reg_validate_Server_error:
  "reg_validate cfg d attrs = Inl (Server_error e) \<Longrightarrow> \<not> distinct (map code (invites d))"
proof
  assume r: "reg_validate cfg d attrs = Inl (Server_error e)" and dist: "distinct (map code (invites d))"
  from r obtain c where "orm_get (\<lambda>i. code i = c) (invites d) = MultipleObjectsReturned"
    by (auto simp: reg_validate_def Let_def split: if_splits option.splits get_result.splits)
  moreover from dist have "orm_get (\<lambda>i. code i = c) (invites d) \<noteq> MultipleObjectsReturned"
    using orm_get_key_cases [of code "invites d" c] by auto
  ultimately show False by simp
qed

subsection \<open>Lemmas: what creation does\<close>

lemma reg_create_Inr:
  assumes "reg_create d (a, io) = Inr (u, d')"
  shows "user_pk u = next_user_pk d" "email u = normalize_email (fstr (attr a ''email''))"
    "role u = fstr (attr a ''role'')" "password u = make_password (fstr (attr a ''password''))"
    "is_active u = (io \<noteq> None)" "is_role_confirmed u = (io \<noteq> None)"
    "email u \<notin> email ` set (users d)" "users d' = users d @ [u]" "profiles d' = profiles d"
    "now d' = now d" "next_user_pk d' = Suc (next_user_pk d)" "next_inv_pk d' = next_inv_pk d"
    "invites d' = (case io of None \<Rightarrow> invites d
                   | Some i \<Rightarrow> replace_by inv_pk (i\<lparr>used_by := Some (user_pk u)\<rparr>) (invites d))"
  using assms
  by (auto simp: reg_create_def create_user_Inr save_invitation_def
           split: sum.splits option.splits)

lemma reg_create_Inl:
  "reg_create d (a, io) = Inl e \<Longrightarrow>
     e = IntegrityError \<and> normalize_email (fstr (attr a ''email'')) \<in> email ` set (users d)"
  by (auto simp: reg_create_def create_user_Inl split: sum.splits option.splits)

subsection \<open>Lemmas: the request as a whole\<close>

lemma register_Inr_D:
  assumes "register cfg d data = Inr (u, d')"
  obtains attrs a io where "to_internal (reg_fields cfg) (reg_hook cfg d) False data = Inr attrs"
    "reg_validate cfg d attrs = Inr (a, io)" "reg_create d (a, io) = Inr (u, d')"
  using assms
  by (auto simp: register_def reg_is_valid_def split: sum.splits)

lemma reg_cleanup_attr [simp]:
  "n \<noteq> ''invite_code'' \<Longrightarrow> n \<noteq> ''password2'' \<Longrightarrow> attr (reg_cleanup a) n = attr a n"
  by (simp add: reg_cleanup_def)

lemma reg_is_valid_Inr:
  assumes "reg_is_valid cfg d data = Inr (a, io)" and "cfg_ok cfg"
  shows "\<exists>e r. attr a ''email'' = Val e \<and> e \<notin> email ` set (users d) \<and>
           attr a ''role'' = Val r \<and> r \<in> set (role_values cfg) \<and>
           (\<forall>i. io = Some i \<longrightarrow> i \<in> set (invites d) \<and> is_valid (now d) i \<and> inv_role i = r)"
proof -
  from assms(1) obtain attrs where ti: "to_internal (reg_fields cfg) (reg_hook cfg d) False data = Inr attrs"
    and rv: "reg_validate cfg d attrs = Inr (a, io)"
    by (auto simp: reg_is_valid_def split: sum.splits)
  from reg_attrs [OF ti assms(2)] obtain e r where
    e: "attr attrs ''email'' = Val e" "e \<notin> email ` set (users d)" and
    r: "attr attrs ''role'' = Val r" "r \<in> set (role_values cfg)" by blast
  have a: "a = reg_cleanup attrs" using rv by (rule reg_validate_Inr)
  have "\<forall>i. io = Some i \<longrightarrow> i \<in> set (invites d) \<and> is_valid (now d) i \<and> inv_role i = r"
    using reg_validate_Inr(3) [OF rv] r by auto
  with e r a show ?thesis by auto
qed

subsection \<open>Properties of registration\<close>

text \<open>
  C10. On a database that satisfies its schema constraints, a registration
  request fails with validation errors (a 400 response) or with an
  \<open>IntegrityError\<close> from the insert (a server error), and the latter exactly
  when the validated email is not stored but its normalized form is:
  \<open>validate_email\<close> (line 83) looks the address up as given, while
  \<open>create_user\<close> stores it with the domain lower-cased.
  \<open>MultipleObjectsReturned\<close> from the code lookup cannot occur, because codes
  are unique.
\<close>

theorem register_failures:
  assumes "db_constraints d" and "cfg_ok cfg" and "register cfg d data = Inl f"
  shows "(\<exists>es. f = Invalid es) \<or>
         (f = Server_error IntegrityError \<and>
          (\<exists>a io e. reg_is_valid cfg d data = Inr (a, io) \<and> attr a ''email'' = Val e \<and>
                    e \<notin> email ` set (users d) \<and> normalize_email e \<in> email ` set (users d)))"
proof (cases "reg_is_valid cfg d data")
  case (Inl f')
  note rvf = this
  then have f: "f = f'" using assms(3) by (simp add: register_def)
  show ?thesis
  proof (cases "to_internal (reg_fields cfg) (reg_hook cfg d) False data")
    case (Inl es)
    with rvf f show ?thesis by (auto simp: reg_is_valid_def)
  next
    case (Inr attrs)
    with \<open>reg_is_valid cfg d data = Inl f'\<close> have rv: "reg_validate cfg d attrs = Inl f'"
      by (simp add: reg_is_valid_def)
    have "distinct (map code (invites d))" using assms(1) by (simp add: db_constraints_def)
    then have "\<forall>e. f' \<noteq> Server_error e" using rv reg_validate_Server_error by blast
    with f show ?thesis by (cases f') auto
  qed
next
  case (Inr vd)
  obtain a io where vd: "vd = (a, io)" by (cases vd)
  with Inr assms(2) obtain e where e: "attr a ''email'' = Val e" "e \<notin> email ` set (users d)"
    using reg_is_valid_Inr by blast
  from Inr vd assms(3) obtain err where "reg_create d (a, io) = Inl err" and f: "f = Server_error err"
    by (auto simp: register_def split: sum.splits)
  then have "err = IntegrityError" and "normalize_email e \<in> email ` set (users d)"
    using e(1) by (auto dest: reg_create_Inl)
  with f e Inr vd show ?thesis by blast
qed

text \<open>
  C11. A successful registration appends one new user with the next primary key,
  an email no other user has and a role among \<open>User.Role.values\<close>; the user is
  active exactly when its role is confirmed; a confirmed user consumed a valid
  invitation for its role, whose row now records it in \<open>used_by\<close>, and an
  unconfirmed one left the invitations unchanged.
\<close>

theorem register_result:
  assumes "cfg_ok cfg" and "register cfg d data = Inr (u, d')"
  shows "user_pk u = next_user_pk d \<and> users d' = users d @ [u] \<and>
         email u \<notin> email ` set (users d) \<and> role u \<in> set (role_values cfg) \<and>
         is_active u = is_role_confirmed u \<and>
         (is_role_confirmed u \<longrightarrow>
            (\<exists>i \<in> set (invites d). is_valid (now d) i \<and> inv_role i = role u \<and>
               invites d' = replace_by inv_pk (i\<lparr>used_by := Some (user_pk u)\<rparr>) (invites d))) \<and>
         (\<not> is_role_confirmed u \<longrightarrow> invites d' = invites d)"
proof -
  from assms(2) obtain a io where rv: "reg_is_valid cfg d data = Inr (a, io)"
    and rc: "reg_create d (a, io) = Inr (u, d')"
    by (auto simp: register_def split: sum.splits)
  from reg_is_valid_Inr [OF rv assms(1)] obtain e r where
    facts: "attr a ''email'' = Val e" "attr a ''role'' = Val r" "r \<in> set (role_values cfg)"
      "\<forall>i. io = Some i \<longrightarrow> i \<in> set (invites d) \<and> is_valid (now d) i \<and> inv_role i = r"
    by blast
  note c = reg_create_Inr [OF rc]
  show ?thesis
    using c facts by (cases io) auto
qed

lemma reg_create_steps:
  "reg_create d (a, io) = Inr (u, d') \<Longrightarrow>
   \<exists>d1. create_user d (fstr (attr a ''email'')) (fstr (attr a ''password''))
             (fstr (attr a ''first_name'')) (fstr (attr a ''last_name''))
             (get_str a ''patronymic'' []) (fstr (attr a ''role'')) (io \<noteq> None) (io \<noteq> None) = Inr (u, d1)
        \<and> d' = (case io of None \<Rightarrow> d1 | Some i \<Rightarrow> save_invitation d1 (i\<lparr>used_by := Some (user_pk u)\<rparr>))"
  by (auto simp: reg_create_def split: sum.splits option.splits)

lemma register_db_constraints:
  assumes "db_constraints d" and "cfg_ok cfg" and "register cfg d data = Inr (u, d')"
  shows "db_constraints d'"
proof -
  from assms(3) obtain a io where rv: "reg_is_valid cfg d data = Inr (a, io)"
    and rc: "reg_create d (a, io) = Inr (u, d')"
    by (auto simp: register_def split: sum.splits)
  from reg_create_steps [OF rc] obtain d1 where cu: "create_user d (fstr (attr a ''email'')) (fstr (attr a ''password''))
             (fstr (attr a ''first_name'')) (fstr (attr a ''last_name''))
             (get_str a ''patronymic'' []) (fstr (attr a ''role'')) (io \<noteq> None) (io \<noteq> None) = Inr (u, d1)"
    and d': "d' = (case io of None \<Rightarrow> d1 | Some i \<Rightarrow> save_invitation d1 (i\<lparr>used_by := Some (user_pk u)\<rparr>))"
    by blast
  have c1: "db_constraints d1" using assms(1) cu by (rule create_user_constraints)
  have d1: "invites d1 = invites d" "users d1 = users d @ [u]" using cu by (auto simp: create_user_Inr)
  show ?thesis
  proof (cases io)
    case None
    with c1 d' show ?thesis by simp
  next
    case (Some i)
    with reg_is_valid_Inr [OF rv assms(2)] have "i \<in> set (invites d1)" using d1 by auto
    with c1 d1 have "db_constraints (save_invitation d1 (i\<lparr>used_by := Some (user_pk u)\<rparr>))"
      by (intro save_invitation_constraints) auto
    with Some d' show ?thesis by simp
  qed
qed

lemma reg_code_attr:
  assumes "to_internal (reg_fields cfg) (reg_hook cfg d) False data = Inr attrs"
  shows "reg_code data =
           (if truthy (attr attrs ''invite_code'') then uuid_parse (fstr (attr attrs ''invite_code'')) else None)"
proof -
  have "(''invite_code'', invite_code_field) \<in> set (reg_fields cfg)" by (simp add: reg_fields_def)
  with assms have "field_step (reg_hook cfg d) False data ''invite_code'' invite_code_field
                     = Inr (attr attrs ''invite_code'')"
    by (intro to_internal_attr) auto
  then have "run_char_field invite_code_field False (data ''invite_code'') = Inr (attr attrs ''invite_code'')"
    by (rule field_step_cases)
  moreover obtain v where v: "attr attrs ''invite_code'' = v" by simp
  ultimately have "run_char_field invite_code_field False (data ''invite_code'') = Inr v" by simp
  then show ?thesis unfolding v
    by (auto simp: run_char_field_def invite_code_field_def reg_code_def Let_def
             split: option.splits jval.splits if_splits list.splits)
qed

lemma register_consumes:
  assumes "register cfg d data = Inr (u, d')"
  shows "reg_code data = None \<Longrightarrow> \<not> is_active u \<and> \<not> is_role_confirmed u \<and> invites d' = invites d"
    and "reg_code data = Some c \<Longrightarrow> is_active u \<and> is_role_confirmed u \<and>
           (\<exists>i \<in> set (invites d). code i = c \<and> is_valid (now d) i \<and> inv_role i = role u \<and>
              invites d' = replace_by inv_pk (i\<lparr>used_by := Some (user_pk u)\<rparr>) (invites d))"
proof -
  from assms obtain attrs a io where ti: "to_internal (reg_fields cfg) (reg_hook cfg d) False data = Inr attrs"
    and rv: "reg_validate cfg d attrs = Inr (a, io)" and rc: "reg_create d (a, io) = Inr (u, d')"
    by (rule register_Inr_D)
  note code = reg_code_attr [OF ti]
  note c = reg_create_Inr [OF rc]
  have a: "a = reg_cleanup attrs" using rv by (rule reg_validate_Inr)
  {
    assume "reg_code data = None"
    then have "io = None"
      using code reg_validate_Inr(3) [OF rv] by (cases io) auto
    with c show "\<not> is_active u \<and> \<not> is_role_confirmed u \<and> invites d' = invites d" by simp
  }
  {
    assume rc: "reg_code data = Some c"
    then have "truthy (attr attrs ''invite_code'')" using code by (auto split: if_splits)
    then obtain i where io: "io = Some i" using reg_validate_Inr(2) [OF rv] by (cases io) auto
    with reg_validate_Inr(3) [OF rv] rc code a c
    show "is_active u \<and> is_role_confirmed u \<and>
           (\<exists>i \<in> set (invites d). code i = c \<and> is_valid (now d) i \<and> inv_role i = role u \<and>
              invites d' = replace_by inv_pk (i\<lparr>used_by := Some (user_pk u)\<rparr>) (invites d))"
      by auto
  }
qed

text \<open>
  C1. Invitation codes are single-use: after a registration that presented the
  code \<open>c\<close> succeeded, a following successful registration cannot have
  presented \<open>c\<close> again (the consumed invitation is no longer \<open>is_valid\<close>).
\<close>

theorem register_single_use:
  assumes "db_constraints d" and "cfg_ok cfg"
    and "register cfg d data1 = Inr (u1, d1)" and "register cfg d1 data2 = Inr (u2, d2)"
    and "reg_code data1 = Some c"
  shows "reg_code data2 \<noteq> Some c"
proof
  assume c2: "reg_code data2 = Some c"
  from register_consumes(2) [OF assms(3,5)] obtain i1 where
    i1: "i1 \<in> set (invites d)" "code i1 = c"
    and inv1: "invites d1 = replace_by inv_pk (i1\<lparr>used_by := Some (user_pk u1)\<rparr>) (invites d)"
    by blast
  from register_consumes(2) [OF assms(4) c2] obtain i2 where
    i2: "i2 \<in> set (invites d1)" "code i2 = c" "is_valid (now d1) i2"
    by blast
  let ?i1' = "i1\<lparr>used_by := Some (user_pk u1)\<rparr>"
  have "?i1' \<in> set (invites d1)" using i1(1) inv1 by (auto intro: replace_by_mem)
  moreover have "distinct (map code (invites d1))"
    using register_db_constraints [OF assms(1-3)] by (simp add: db_constraints_def)
  ultimately have "i2 = ?i1'" using i1(2) i2(1,2) by (auto intro: distinct_map_eqD)
  with i2(3) show False by simp
qed

text \<open>
  C12. A registered user is active and role-confirmed exactly when the request
  presented an invitation code; without one the account stays inactive (the
  email confirmation that would activate it is a TODO in \<open>create\<close>).
\<close>

theorem register_active_iff_code:
  assumes "register cfg d data = Inr (u, d')"
  shows "(is_active u \<longleftrightarrow> reg_code data \<noteq> None) \<and> (is_role_confirmed u \<longleftrightarrow> reg_code data \<noteq> None)"
proof (cases "reg_code data")
  case None
  then show ?thesis using register_consumes(1) [OF assms] by simp
next
  case (Some c)
  then show ?thesis using register_consumes(2) [OF assms] by auto
qed

text \<open>
  C13. An empty registration body is rejected with one \<open>Required\<close> error for
  each required field, all at once and in the order of \<open>Meta.fields\<close>
  (the patronymic only if the model makes it required); \<open>validate\<close> is not
  reached and nothing is written.
\<close>

theorem register_empty:
  assumes "cfg_ok cfg"
  shows "register cfg d (\<lambda>_. None) =
           Inl (Invalid (map (\<lambda>n. (n, Required))
             ([''email'', ''password'', ''password2'', ''first_name'', ''last_name''] @
              (if required (model_field cfg ''patronymic'') then [''patronymic''] else []) @ [''role''])))"
  using assms
  by (simp add: register_def reg_is_valid_def to_internal_empty reg_fields_def cfg_ok_def
      password_field_def password2_field_def invite_code_field_def)

end
