(* ===== verification/Change_Password.thy ===== *)
theory Change_Password
  imports Settings
begin

text \<open>
  \<open>ChangePasswordSerializer\<close> (src/users/serializers.py, lines 144-165): three
  password fields, \<open>validate_old_password\<close> checking the old password against
  the request's user, \<open>validate\<close> comparing the two new passwords, and
  \<open>save\<close>, which hashes the new password into the request's user and saves that
  row. The request's user is the row the authentication loaded.
\<close>

subsection \<open>Fields (lines 145-147)\<close>

definition old_password_field :: char_field where
  "old_password_field =
     \<lparr>required = True, allow_blank = False, allow_null = False, trim_whitespace = True,
      validators = prohibit_null\<rparr>"

definition new_password_field :: "config \<Rightarrow> char_field" where
  "new_password_field cfg =
     \<lparr>required = True, allow_blank = False, allow_null = False, trim_whitespace = True,
      validators = (\<lambda>s. password_validators cfg s @ prohibit_null s)\<rparr>"

definition new_password2_field :: char_field where
  "new_password2_field =
     \<lparr>required = True, allow_blank = False, allow_null = False, trim_whitespace = True,
      validators = prohibit_null\<rparr>"

definition cp_fields :: "config \<Rightarrow> (field_name \<times> char_field) list" where
  "cp_fields cfg =
     [(''old_password'', old_password_field), (''new_password'', new_password_field cfg),
      (''new_password2'', new_password2_field)]"

subsection \<open>Validation (lines 149-158)\<close>

definition validate_old_password :: "user \<Rightarrow> fval \<Rightarrow> msg list" where
  "validate_old_password u v = (if \<not> check_password u (fstr v) then [Old_password_wrong] else [])"

definition cp_hook :: "user \<Rightarrow> field_name \<Rightarrow> fval \<Rightarrow> msg list" where
  "cp_hook u n v = (if n = ''old_password'' then validate_old_password u v else [])"

definition cp_validate :: "(field_name \<times> fval) list \<Rightarrow> failure + (field_name \<times> fval) list" where
  "cp_validate attrs =
     (if attr attrs ''new_password'' \<noteq> attr attrs ''new_password2''
      then Inl (Invalid [(''new_password2'', New_passwords_differ)])
      else Inr attrs)"

subsection \<open>Saving (lines 160-165)\<close>

definition cp_save :: "db \<Rightarrow> user \<Rightarrow> (field_name \<times> fval) list \<Rightarrow> user \<times> db" where
  "cp_save d u vd =
     (let u' = set_password u (fstr (attr vd ''new_password'')) in (u', save_user d u'))"

subsection \<open>The request\<close>

definition cp_is_valid :: "config \<Rightarrow> user \<Rightarrow> payload \<Rightarrow> failure + (field_name \<times> fval) list" where
  "cp_is_valid cfg u data =
     (case to_internal (cp_fields cfg) (cp_hook u) False data of
        Inl es \<Rightarrow> Inl (Invalid es)
      | Inr attrs \<Rightarrow> cp_validate attrs)"

definition change_password :: "config \<Rightarrow> db \<Rightarrow> user \<Rightarrow> payload \<Rightarrow> failure + (user \<times> db)" where
  "change_password cfg d u data =
     (case cp_is_valid cfg u data of
        Inl f \<Rightarrow> Inl f
      | Inr vd \<Rightarrow> Inr (cp_save d u vd))"

subsection \<open>Lemmas\<close>

lemma cp_fields_distinct [simp]: "distinct (map fst (cp_fields cfg))"
  by (simp add: cp_fields_def)

lemma cp_attrs:
  assumes "to_internal (cp_fields cfg) (cp_hook u) False data = Inr attrs"
  shows "\<exists>so. data ''old_password'' = Some (JStr so) \<and> attr attrs ''old_password'' = Val (py_strip so)
           \<and> py_strip so \<noteq> [] \<and> check_password u (py_strip so)"
    and "\<exists>sn. data ''new_password'' = Some (JStr sn) \<and> attr attrs ''new_password'' = Val (py_strip sn)
           \<and> py_strip sn \<noteq> [] \<and> password_validators cfg (py_strip sn) = []"
    and "\<exists>s2. data ''new_password2'' = Some (JStr s2) \<and> attr attrs ''new_password2'' = Val (py_strip s2)"
proof -
  have "(''old_password'', old_password_field) \<in> set (cp_fields cfg)" by (simp add: cp_fields_def)
  from to_internal_strict [OF assms cp_fields_distinct this]
  show "\<exists>so. data ''old_password'' = Some (JStr so) \<and> attr attrs ''old_password'' = Val (py_strip so)
           \<and> py_strip so \<noteq> [] \<and> check_password u (py_strip so)"
    by (auto simp: old_password_field_def cp_hook_def validate_old_password_def split: if_splits)
next
  have "(''new_password'', new_password_field cfg) \<in> set (cp_fields cfg)" by (simp add: cp_fields_def)
  from to_internal_strict [OF assms cp_fields_distinct this]
  show "\<exists>sn. data ''new_password'' = Some (JStr sn) \<and> attr attrs ''new_password'' = Val (py_strip sn)
           \<and> py_strip sn \<noteq> [] \<and> password_validators cfg (py_strip sn) = []"
    by (auto simp: new_password_field_def)
next
  have "(''new_password2'', new_password2_field) \<in> set (cp_fields cfg)" by (simp add: cp_fields_def)
  from to_internal_strict [OF assms cp_fields_distinct this]
  show "\<exists>s2. data ''new_password2'' = Some (JStr s2) \<and> attr attrs ''new_password2'' = Val (py_strip s2)"
    by (auto simp: new_password2_field_def)
qed

subsection \<open>Properties of the password change\<close>

text \<open>
  C16. A successful password change presented the user's current password (as
  stripped by the field), two equal new passwords that pass
  \<open>validate_password\<close>, and stores exactly the hash of the stripped new
  password into the request's user, saved by primary key.
\<close>

theorem change_password_effect:
  assumes "change_password cfg d u data = Inr (u', d')"
  shows "\<exists>so sn s2. data ''old_password'' = Some (JStr so) \<and> check_password u (py_strip so) \<and>
           data ''new_password'' = Some (JStr sn) \<and> data ''new_password2'' = Some (JStr s2) \<and>
           py_strip s2 = py_strip sn \<and> password_validators cfg (py_strip sn) = [] \<and>
           u' = set_password u (py_strip sn) \<and> d' = save_user d u'"
proof -
  from assms obtain attrs where ti: "to_internal (cp_fields cfg) (cp_hook u) False data = Inr attrs"
    and cv: "cp_validate attrs = Inr attrs" and r: "(u', d') = cp_save d u attrs"
    by (auto simp: change_password_def cp_is_valid_def cp_validate_def split: sum.splits if_splits)
  from cv have eq: "attr attrs ''new_password'' = attr attrs ''new_password2''"
    by (simp add: cp_validate_def split: if_splits)
  from cp_attrs [OF ti] eq r show ?thesis
    by (auto simp: cp_save_def Let_def)
qed

text \<open>
  C17. A wrong old password is reported on the field \<open>old_password\<close> and the
  request fails (nothing is saved).
\<close>

theorem change_password_wrong_old:
  assumes "data ''old_password'' = Some (JStr so)" and "py_strip so \<noteq> []"
    and "CHR 0x00 \<notin> set (py_strip so)" and "\<not> check_password u (py_strip so)"
  shows "\<exists>es. change_password cfg d u data = Inl (Invalid es) \<and> (''old_password'', Old_password_wrong) \<in> set es"
proof -
  have "field_step (cp_hook u) False data ''old_password'' old_password_field = Inl [Old_password_wrong]"
    using assms
    by (simp add: field_step_def run_char_field_strict_Inr old_password_field_def prohibit_null_def
                  cp_hook_def validate_old_password_def)
  moreover have "(''old_password'', old_password_field) \<in> set (cp_fields cfg)"
    by (simp add: cp_fields_def)
  ultimately obtain es where "to_internal (cp_fields cfg) (cp_hook u) False data = Inl es"
    and "set (map (Pair ''old_password'') [Old_password_wrong]) \<subseteq> set es"
    by (blast dest: to_internal_field_error)
  then show ?thesis by (simp add: change_password_def cp_is_valid_def)
qed

end
