(* ===== verification/User_Update.thy ===== *)
theory User_Update
  imports Settings
begin

text \<open>
  \<open>ProfileSerializer\<close> and \<open>UserSerializer\<close> (src/users/serializers.py,
  lines 8-64): a user edits its own names and its profile. \<open>UserSerializer\<close>
  validates the writable user fields and the nested, optional profile (the
  read-only fields of the payload are ignored by the framework);
  \<open>UserSerializer.update\<close> pops the profile data, gets or creates the user's
  profile, runs a partial \<open>ProfileSerializer\<close> over the popped data and saves
  it, then lets \<open>ModelSerializer.update\<close> set the remaining fields on the user
  and save it. The outcome carries the database also on failure: rows written
  before an exception stay written.
\<close>

subsection \<open>Fields (lines 8-24)\<close>

text \<open>\<open>ProfileSerializer.Meta.fields\<close>, derived from the profile's model fields.\<close>

definition profile_fields :: "config \<Rightarrow> (field_name \<times> char_field) list" where
  "profile_fields cfg =
     [(''avatar'', model_field cfg ''avatar''), (''phone_number'', model_field cfg ''phone_number''),
      (''bio'', model_field cfg ''bio''), (''date_of_birth'', model_field cfg ''date_of_birth'')]"

text \<open>
  The writable fields of \<open>UserSerializer.Meta.fields\<close> other than the nested
  profile: every field of \<open>read_only_fields\<close> is dropped from validation.
\<close>

definition user_read_only_fields :: "field_name list" where
  "user_read_only_fields = [''id'', ''email'', ''role'', ''is_active'', ''is_role_confirmed'', ''date_joined'']"

definition user_fields :: "config \<Rightarrow> (field_name \<times> char_field) list" where
  "user_fields cfg =
     [(n, model_field cfg n).
        n \<leftarrow> [''id'', ''email'', ''first_name'', ''last_name'', ''patronymic'', ''role'',
             ''is_active'', ''is_role_confirmed'', ''date_joined''],
        n \<notin> set user_read_only_fields]"

text \<open>
  \<open>profile = ProfileSerializer(required=False)\<close> as a field: skipped when
  absent, no \<open>null\<close>, a JSON object validated by the nested serializer (with
  the root's \<open>partial\<close>), its errors nested under \<open>profile\<close>.
\<close>

definition profile_step ::
  "config \<Rightarrow> bool \<Rightarrow> jval option \<Rightarrow> msg list + (field_name \<times> fval) list option" where
  "profile_step cfg partial v =
     (case v of
        None \<Rightarrow> Inr None
      | Some JNull \<Rightarrow> Inl [Null_not_allowed]
      | Some (JStr _) \<Rightarrow> Inl [Not_a_dict]
      | Some (JObj kvs) \<Rightarrow>
          (case to_internal (profile_fields cfg) (\<lambda>_ _. []) partial (obj_payload kvs) of
             Inl es \<Rightarrow> Inl [Nested es]
           | Inr a \<Rightarrow> Inr (Some a)))"

text \<open>The validated data: the user's fields and the \<open>profile\<close> entry, if given.\<close>

type_synonym user_data = "(field_name \<times> fval) list \<times> (field_name \<times> fval) list option"

definition user_to_internal :: "config \<Rightarrow> bool \<Rightarrow> payload \<Rightarrow> verrors + user_data" where
  "user_to_internal cfg partial data =
     (case (to_internal (user_fields cfg) (\<lambda>_ _. []) partial data,
            profile_step cfg partial (data ''profile'')) of
        (Inl es, Inl ms) \<Rightarrow> Inl (es @ map (Pair ''profile'') ms)
      | (Inl es, Inr _) \<Rightarrow> Inl es
      | (Inr _, Inl ms) \<Rightarrow> Inl (map (Pair ''profile'') ms)
      | (Inr a, Inr p) \<Rightarrow> Inr (a, p))"

subsection \<open>Saving a serializer's validated data into an instance\<close>

text \<open>A validated value as the model stores it, and as a serializer reads it back.\<close>

fun fval_opt :: "fval \<Rightarrow> string option" where
  "fval_opt (Val s) = Some s"
| "fval_opt _ = None"

definition set_profile_attr :: "profile \<Rightarrow> field_name \<times> fval \<Rightarrow> profile" where
  "set_profile_attr p nv =
     (let (n, v) = nv in
      if n = ''avatar'' then p\<lparr>avatar := fval_opt v\<rparr>
      else if n = ''phone_number'' then p\<lparr>phone_number := fval_opt v\<rparr>
      else if n = ''bio'' then p\<lparr>bio := fval_opt v\<rparr>
      else if n = ''date_of_birth'' then p\<lparr>date_of_birth := fval_opt v\<rparr>
      else p)"

text \<open>
  \<open>setattr(instance, attr, value)\<close> for one validated key: every text column
  of \<open>User\<close> can be set. The other columns (\<open>id\<close>, the two flags,
  \<open>date_joined\<close>) hold numbers, booleans and date-times, values the
  text-valued validation of this model never produces; the \<open>Meta\<close> of line 24
  makes all four read-only.
\<close>

definition set_user_attr :: "user \<Rightarrow> field_name \<times> fval \<Rightarrow> user" where
  "set_user_attr u nv =
     (let (n, v) = nv in
      if n = ''email'' then u\<lparr>email := fstr v\<rparr>
      else if n = ''first_name'' then u\<lparr>first_name := fstr v\<rparr>
      else if n = ''last_name'' then u\<lparr>last_name := fstr v\<rparr>
      else if n = ''patronymic'' then u\<lparr>patronymic := fstr v\<rparr>
      else if n = ''role'' then u\<lparr>role := fstr v\<rparr>
      else u)"

text \<open>
  \<open>ModelSerializer.update(instance, validated_data)\<close>: first
  \<open>raise_errors_on_nested_writes\<close> asserts that no nested serializer's data is
  left in the validated data, then every attribute is set and the instance is
  saved.
\<close>

definition model_update_user :: "db \<Rightarrow> user \<Rightarrow> user_data \<Rightarrow> db_error + (user \<times> db)" where
  "model_update_user d u vd =
     (let (a, nested) = vd in
      if nested \<noteq> None then Inl AssertionFailed
      else let u' = foldl set_user_attr u a in Inr (u', save_user d u'))"

text \<open>
  \<open>ProfileSerializer(instance=p, data=profile_data, partial=True)\<close>, then
  \<open>is_valid(raise_exception=True)\<close> and \<open>save()\<close> (lines 42-49): the popped,
  already validated values are validated once more as request data.
\<close>

definition profile_serializer_update ::
  "config \<Rightarrow> db \<Rightarrow> profile \<Rightarrow> (field_name \<times> fval) list \<Rightarrow> failure + db" where
  "profile_serializer_update cfg d p pd =
     (case to_internal (profile_fields cfg) (\<lambda>_ _. []) True (revalue pd) of
        Inl es \<Rightarrow> Inl (Invalid es)
      | Inr a \<Rightarrow> Inr (save_profile d (foldl set_profile_attr p a)))"

subsection \<open>\<open>UserSerializer.update\<close> (lines 26-64)\<close>

definition user_update :: "config \<Rightarrow> db \<Rightarrow> user \<Rightarrow> user_data \<Rightarrow> (failure + user) \<times> db" where
  "user_update cfg d u vd =
     (let (a, profile_data) = vd;
          after_profile =
            (case profile_data of
               None \<Rightarrow> Inr d
             | Some pd \<Rightarrow>
                 (case get_or_create_profile d (user_pk u) of
                    Inl e \<Rightarrow> Inl (Server_error e, d)
                  | Inr (p, created, d1) \<Rightarrow>
                      (case profile_serializer_update cfg d1 p pd of
                         Inl f \<Rightarrow> Inl (f, d1)
                       | Inr d2 \<Rightarrow> Inr d2)))
      in case after_profile of
           Inl (f, d') \<Rightarrow> (Inl f, d')
         | Inr d2 \<Rightarrow>
             (case model_update_user d2 u (a, None) of
                Inl e \<Rightarrow> (Inl (Server_error e), d2)
              | Inr (u', d3) \<Rightarrow> (Inr u', d3)))"

subsection \<open>The request: \<open>is_valid()\<close> then \<open>save()\<close>\<close>

definition update_profile_request ::
  "config \<Rightarrow> db \<Rightarrow> user \<Rightarrow> bool \<Rightarrow> payload \<Rightarrow> (failure + user) \<times> db" where
  "update_profile_request cfg d u partial data =
     (case user_to_internal cfg partial data of
        Inl es \<Rightarrow> (Inl (Invalid es), d)
      | Inr vd \<Rightarrow> user_update cfg d u vd)"

subsection \<open>Representation (lines 8-24)\<close>

text \<open>
  The response body of \<open>UserSerializer\<close>: the \<open>Meta.fields\<close> in order, and
  under \<open>profile\<close> the \<open>ProfileSerializer\<close> representation of
  \<open>instance.profile\<close>, read through the reverse one-to-one relation: \<open>None\<close>
  when the user has no profile (DRF turns \<open>ObjectDoesNotExist\<close> into null), an
  exception (\<open>None\<close> here) when it has two.
\<close>

text \<open>
  \<open>to_representation\<close> of one stored profile column: \<open>null\<close> for none; the
  image's URL (\<open>ImageField\<close>, \<open>null\<close> for an empty file name) and the ISO
  date (\<open>DateField\<close>) as the configuration shows them; the text itself
  otherwise (\<open>CharField\<close>).
\<close>

definition profile_field_repr :: "config \<Rightarrow> field_name \<Rightarrow> string option \<Rightarrow> oval" where
  "profile_field_repr cfg n v =
     (case v of
        None \<Rightarrow> ONull
      | Some s \<Rightarrow>
          if n = ''avatar'' then (if s = [] then ONull else OStr (image_repr cfg s))
          else if n = ''date_of_birth'' then OStr (date_repr cfg s)
          else OStr s)"

definition profile_repr :: "config \<Rightarrow> profile \<Rightarrow> (string \<times> oval) list" where
  "profile_repr cfg p =
     [(''avatar'', profile_field_repr cfg ''avatar'' (avatar p)),
      (''phone_number'', profile_field_repr cfg ''phone_number'' (phone_number p)),
      (''bio'', profile_field_repr cfg ''bio'' (bio p)),
      (''date_of_birth'', profile_field_repr cfg ''date_of_birth'' (date_of_birth p))]"

definition nested_profile :: "config \<Rightarrow> db \<Rightarrow> user \<Rightarrow> oval option" where
  "nested_profile cfg d u =
     (case orm_get (\<lambda>p. prof_user p = user_pk u) (profiles d) of
        Got p \<Rightarrow> Some (OObj (profile_repr cfg p))
      | DoesNotExist \<Rightarrow> Some ONull
      | MultipleObjectsReturned \<Rightarrow> None)"

definition user_body :: "user \<Rightarrow> oval \<Rightarrow> (string \<times> oval) list" where
  "user_body u pr =
     [(''id'', ONum (user_pk u)), (''email'', OStr (email u)), (''first_name'', OStr (first_name u)),
      (''last_name'', OStr (last_name u)), (''patronymic'', OStr (patronymic u)), (''role'', OStr (role u)),
      (''profile'', pr), (''is_active'', OBool (is_active u)),
      (''is_role_confirmed'', OBool (is_role_confirmed u)), (''date_joined'', OTime (date_joined u))]"

definition user_repr :: "config \<Rightarrow> db \<Rightarrow> user \<Rightarrow> (string \<times> oval) list option" where
  "user_repr cfg d u = map_option (user_body u) (nested_profile cfg d u)"

subsection \<open>Lemmas\<close>

lemma set_user_attr_fixed [simp]:
  "user_pk (set_user_attr u nv) = user_pk u" "is_active (set_user_attr u nv) = is_active u"
  "is_role_confirmed (set_user_attr u nv) = is_role_confirmed u"
  "date_joined (set_user_attr u nv) = date_joined u" "password (set_user_attr u nv) = password u"
  by (auto simp: set_user_attr_def Let_def split: prod.splits)

lemma set_user_attr_other:
  "fst nv \<noteq> ''email'' \<Longrightarrow> email (set_user_attr u nv) = email u"
  "fst nv \<noteq> ''role'' \<Longrightarrow> role (set_user_attr u nv) = role u"
  "fst nv \<noteq> ''first_name'' \<Longrightarrow> first_name (set_user_attr u nv) = first_name u"
  "fst nv \<noteq> ''last_name'' \<Longrightarrow> last_name (set_user_attr u nv) = last_name u"
  "fst nv \<noteq> ''patronymic'' \<Longrightarrow> patronymic (set_user_attr u nv) = patronymic u"
  by (auto simp: set_user_attr_def Let_def split: prod.splits)

lemma foldl_set_user_attr_absent:
  "''email'' \<notin> fst ` set a \<Longrightarrow> email (foldl set_user_attr u a) = email u"
  "''role'' \<notin> fst ` set a \<Longrightarrow> role (foldl set_user_attr u a) = role u"
  "''first_name'' \<notin> fst ` set a \<Longrightarrow> first_name (foldl set_user_attr u a) = first_name u"
  "''last_name'' \<notin> fst ` set a \<Longrightarrow> last_name (foldl set_user_attr u a) = last_name u"
  "''patronymic'' \<notin> fst ` set a \<Longrightarrow> patronymic (foldl set_user_attr u a) = patronymic u"
  by (induction a arbitrary: u) (auto simp: set_user_attr_other)

lemma email_role_read_only: "''email'' \<in> set user_read_only_fields" "''role'' \<in> set user_read_only_fields"
  by (simp_all add: user_read_only_fields_def)

lemma foldl_set_user_attr_pk [simp]: "user_pk (foldl set_user_attr u a) = user_pk u"
  by (induction a arbitrary: u) auto

text \<open>Setting only writable fields keeps every column the endpoint declares read-only.\<close>

lemma foldl_set_user_attr_ro:
  assumes "fst ` set a \<inter> set user_read_only_fields = {}"
  shows "user_pk (foldl set_user_attr u a) = user_pk u \<and> email (foldl set_user_attr u a) = email u \<and>
   role (foldl set_user_attr u a) = role u \<and> is_active (foldl set_user_attr u a) = is_active u \<and>
   is_role_confirmed (foldl set_user_attr u a) = is_role_confirmed u \<and>
   date_joined (foldl set_user_attr u a) = date_joined u \<and> password (foldl set_user_attr u a) = password u"
proof -
  have "''email'' \<notin> fst ` set a" "''role'' \<notin> fst ` set a"
    using assms email_role_read_only by blast+
  moreover have "user_pk (foldl set_user_attr u a) = user_pk u \<and> is_active (foldl set_user_attr u a) = is_active u \<and>
    is_role_confirmed (foldl set_user_attr u a) = is_role_confirmed u \<and>
    date_joined (foldl set_user_attr u a) = date_joined u \<and> password (foldl set_user_attr u a) = password u"
    by (induction a arbitrary: u) auto
  ultimately show ?thesis by (simp add: foldl_set_user_attr_absent)
qed

lemma prof_user_foldl [simp]: "prof_user (foldl set_profile_attr p a) = prof_user p"
proof (induction a arbitrary: p)
  case Nil
  then show ?case by simp
next
  case (Cons nv a)
  have "prof_user (set_profile_attr p nv) = prof_user p"
    by (auto simp: set_profile_attr_def Let_def split: prod.splits)
  with Cons show ?case by simp
qed

lemma user_fields_distinct [simp]: "distinct (map fst (user_fields cfg))"
  by (simp add: user_fields_def user_read_only_fields_def)

lemma profile_fields_distinct [simp]: "distinct (map fst (profile_fields cfg))"
  by (simp add: profile_fields_def)

lemma user_to_internal_Inr:
  assumes "user_to_internal cfg partial data = Inr (a, pd)"
  shows "to_internal (user_fields cfg) (\<lambda>_ _. []) partial data = Inr a"
    and "profile_step cfg partial (data ''profile'') = Inr pd"
  using assms by (auto simp: user_to_internal_def split: sum.splits)

text \<open>The validated user data holds no key the \<open>Meta\<close> declares read-only.\<close>

lemma user_to_internal_writable:
  assumes "user_to_internal cfg partial data = Inr (a, pd)"
  shows "fst ` set a \<inter> set user_read_only_fields = {}"
proof -
  have "fst ` set a \<subseteq> fst ` set (user_fields cfg)"
    using user_to_internal_Inr(1) [OF assms] by (rule to_internal_keys)
  moreover have "fst ` set (user_fields cfg) \<inter> set user_read_only_fields = {}"
    by (auto simp: user_fields_def)
  ultimately show ?thesis by blast
qed

lemma profile_step_Some:
  "profile_step cfg partial v = Inr (Some pd) \<Longrightarrow>
   \<exists>kvs. v = Some (JObj kvs) \<and> to_internal (profile_fields cfg) (\<lambda>_ _. []) partial (obj_payload kvs) = Inr pd"
  by (auto simp: profile_step_def split: option.splits jval.splits sum.splits)

text \<open>The validated profile data always passes the second validation in \<open>update\<close>.\<close>

lemma profile_serializer_update_ok:
  assumes "profile_step cfg partial v = Inr (Some pd)"
  shows "profile_serializer_update cfg d p pd = Inr (save_profile d (foldl set_profile_attr p pd))"
proof -
  from profile_step_Some [OF assms] obtain kvs where
    "to_internal (profile_fields cfg) (\<lambda>_ _. []) partial (obj_payload kvs) = Inr pd" by blast
  then have "to_internal (profile_fields cfg) (\<lambda>_ _. []) True (revalue pd) = Inr pd"
    by (rule to_internal_revalidate) auto
  then show ?thesis by (simp add: profile_serializer_update_def)
qed

lemma user_update_steps:
  assumes "user_update cfg d u (a, pd) = (r, d')" and "distinct (map prof_user (profiles d))"
    and "profile_step cfg partial v = Inr pd"
  shows "\<exists>d2. r = Inr (foldl set_user_attr u a) \<and> d' = save_user d2 (foldl set_user_attr u a) \<and>
           users d2 = users d \<and> invites d2 = invites d \<and>
           (pd = None \<longrightarrow> d2 = d) \<and>
           (\<forall>q. pd = Some q \<longrightarrow> (\<exists>p created d1. get_or_create_profile d (user_pk u) = Inr (p, created, d1) \<and>
                  d2 = save_profile d1 (foldl set_profile_attr p q)))"
proof (cases pd)
  case None
  with assms(1) show ?thesis by (simp add: user_update_def model_update_user_def Let_def)
next
  case (Some q)
  from get_or_create_profile_Inr [OF assms(2), of "user_pk u"] obtain p created d1 where
    g: "get_or_create_profile d (user_pk u) = Inr (p, created, d1)" "users d1 = users d"
       "invites d1 = invites d"
    by blast
  have ps: "profile_serializer_update cfg d1 p q = Inr (save_profile d1 (foldl set_profile_attr p q))"
    using assms(3) Some by (intro profile_serializer_update_ok) auto
  from assms(1) Some g ps show ?thesis
    by (auto simp: user_update_def model_update_user_def Let_def save_profile_def)
qed

lemma user_update_Inr_user:
  "user_update cfg d u (a, pd) = (Inr u', d') \<Longrightarrow>
   u' = foldl set_user_attr u a \<and> users d' = replace_by user_pk u' (users d) \<and> invites d' = invites d"
  by (auto simp: user_update_def model_update_user_def Let_def get_or_create_profile_def
                 profile_serializer_update_def save_profile_def save_user_def
           split: option.splits sum.splits get_result.splits prod.splits)

subsection \<open>Properties of the profile update\<close>

text \<open>
  C18. A profile update never changes what the endpoint declares read-only: the
  updated user keeps its key, email, role, activity flag, role confirmation,
  join date and password, whatever the payload says; only that user's row of the
  user table changes, and no invitation.
\<close>

theorem update_read_only_preserved:
  assumes "update_profile_request cfg d u partial data = (Inr u', d')"
  shows "user_pk u' = user_pk u \<and> email u' = email u \<and> role u' = role u \<and>
         is_active u' = is_active u \<and> is_role_confirmed u' = is_role_confirmed u \<and>
         date_joined u' = date_joined u \<and> password u' = password u \<and>
         users d' = replace_by user_pk u' (users d) \<and> invites d' = invites d"
proof -
  from assms obtain a pd where ui: "user_to_internal cfg partial data = Inr (a, pd)"
    and uu: "user_update cfg d u (a, pd) = (Inr u', d')"
    by (auto simp: update_profile_request_def split: sum.splits)
  from user_update_Inr_user [OF uu] show ?thesis
    using foldl_set_user_attr_ro [OF user_to_internal_writable [OF ui], of u] by simp
qed

text \<open>
  C20. On a database satisfying its constraints a failed profile update writes
  nothing and fails only with validation errors: the profile that
  \<open>get_or_create\<close> may insert is only reached once validation has passed, and
  the second validation of the profile data inside \<open>update\<close>
  (\<open>raise_exception=True\<close>) always passes.
\<close>

theorem update_failure_no_write:
  assumes "db_constraints d" and "update_profile_request cfg d u partial data = (Inl f, d')"
  shows "d' = d \<and> (\<exists>es. f = Invalid es)"
proof (cases "user_to_internal cfg partial data")
  case (Inl es)
  with assms(2) show ?thesis by (auto simp: update_profile_request_def)
next
  case (Inr vd)
  obtain a pd where vd: "vd = (a, pd)" by (cases vd)
  have "profile_step cfg partial (data ''profile'') = Inr pd"
    using Inr unfolding vd by (rule user_to_internal_Inr(2))
  moreover have "distinct (map prof_user (profiles d))" using assms(1) by (simp add: db_constraints_def)
  moreover have "user_update cfg d u (a, pd) = (Inl f, d')"
    using assms(2) Inr vd by (simp add: update_profile_request_def)
  ultimately show ?thesis using user_update_steps by fastforce
qed

lemma update_profile_constraints:
  assumes "db_constraints d" and "u0 \<in> set (users d)" and "user_pk u = user_pk u0" and "email u = email u0"
    and "update_profile_request cfg d u partial data = (r, d')"
  shows "db_constraints d'"
proof (cases "user_to_internal cfg partial data")
  case (Inl es)
  with assms show ?thesis by (simp add: update_profile_request_def)
next
  case (Inr vd)
  obtain a pd where vd: "vd = (a, pd)" by (cases vd)
  have ps: "profile_step cfg partial (data ''profile'') = Inr pd"
    using Inr unfolding vd by (rule user_to_internal_Inr(2))
  have dist: "distinct (map prof_user (profiles d))" using assms(1) by (simp add: db_constraints_def)
  have uu: "user_update cfg d u (a, pd) = (r, d')"
    using assms(5) Inr vd by (simp add: update_profile_request_def)
  from user_update_steps [OF uu dist ps] obtain d2 where
    d': "d' = save_user d2 (foldl set_user_attr u a)" and d2u: "users d2 = users d"
    and none: "pd = None \<longrightarrow> d2 = d"
    and some: "\<forall>q. pd = Some q \<longrightarrow> (\<exists>p created d1. get_or_create_profile d (user_pk u) = Inr (p, created, d1) \<and>
                  d2 = save_profile d1 (foldl set_profile_attr p q))"
    by blast
  have c2: "db_constraints d2"
  proof (cases pd)
    case None
    with none assms(1) show ?thesis by simp
  next
    case (Some q)
    with some obtain p created d1 where g: "get_or_create_profile d (user_pk u) = Inr (p, created, d1)"
      and d2: "d2 = save_profile d1 (foldl set_profile_attr p q)" by blast
    have c1: "db_constraints d1"
      using assms(1) _ g by (rule get_or_create_profile_constraints) (use assms(2,3) in auto)
    have "p \<in> set (profiles d1)" using get_or_create_profile_Inr [OF dist, of "user_pk u"] g by auto
    with c1 d2 show ?thesis by (auto intro: save_profile_constraints)
  qed
  have w: "fst ` set a \<inter> set user_read_only_fields = {}"
    using Inr unfolding vd by (rule user_to_internal_writable)
  have "u0 \<in> set (users d2)" using assms(2) d2u by simp
  with c2 d' assms(3,4) show ?thesis
    using foldl_set_user_attr_ro [OF w, of u] by (auto intro: save_user_constraints)
qed

text \<open>
  C24. A partial update (PATCH) leaves every name the payload does not mention
  as it was.
\<close>

theorem patch_keeps_absent_names:
  assumes "update_profile_request cfg d u True data = (Inr u', d')"
  shows "(data ''first_name'' = None \<longrightarrow> first_name u' = first_name u) \<and>
         (data ''last_name'' = None \<longrightarrow> last_name u' = last_name u) \<and>
         (data ''patronymic'' = None \<longrightarrow> patronymic u' = patronymic u)"
proof -
  from assms obtain a pd where ti: "user_to_internal cfg True data = Inr (a, pd)"
    and uu: "user_update cfg d u (a, pd) = (Inr u', d')"
    by (auto simp: update_profile_request_def split: sum.splits)
  have t: "to_internal (user_fields cfg) (\<lambda>_ _. []) True data = Inr a" using ti by (rule user_to_internal_Inr)
  have u': "u' = foldl set_user_attr u a" using user_update_Inr_user [OF uu] by simp
  have mem: "(n, model_field cfg n) \<in> set (user_fields cfg)"
    if "n \<in> {''first_name'', ''last_name'', ''patronymic''}" for n
    using that by (auto simp: user_fields_def user_read_only_fields_def)
  show ?thesis
    using to_internal_partial_absent [OF t user_fields_distinct mem] u' foldl_set_user_attr_absent
    by auto
qed

subsection \<open>Reading back what was written\<close>

lemma foldl_set_user_attr_val:
  assumes "distinct (map fst a)" and "(n, v) \<in> set a"
  shows "n = ''first_name'' \<Longrightarrow> first_name (foldl set_user_attr u a) = fstr v"
    and "n = ''last_name'' \<Longrightarrow> last_name (foldl set_user_attr u a) = fstr v"
    and "n = ''patronymic'' \<Longrightarrow> patronymic (foldl set_user_attr u a) = fstr v"
proof -
  have g: "\<And>x m w. first_name (set_user_attr x (m, w)) = (if m = ''first_name'' then fstr w else first_name x)"
          "\<And>x m w. last_name (set_user_attr x (m, w)) = (if m = ''last_name'' then fstr w else last_name x)"
          "\<And>x m w. patronymic (set_user_attr x (m, w)) = (if m = ''patronymic'' then fstr w else patronymic x)"
    by (simp_all add: set_user_attr_def)
  show "n = ''first_name'' \<Longrightarrow> first_name (foldl set_user_attr u a) = fstr v"
    using foldl_set_get(1) [OF g(1) assms(1)] assms(2) by simp
  show "n = ''last_name'' \<Longrightarrow> last_name (foldl set_user_attr u a) = fstr v"
    using foldl_set_get(1) [OF g(2) assms(1)] assms(2) by simp
  show "n = ''patronymic'' \<Longrightarrow> patronymic (foldl set_user_attr u a) = fstr v"
    using foldl_set_get(1) [OF g(3) assms(1)] assms(2) by simp
qed

lemma foldl_set_profile_attr_val:
  assumes "distinct (map fst a)" and "(n, v) \<in> set a"
  shows "n = ''avatar'' \<Longrightarrow> avatar (foldl set_profile_attr p a) = fval_opt v"
    and "n = ''phone_number'' \<Longrightarrow> phone_number (foldl set_profile_attr p a) = fval_opt v"
    and "n = ''bio'' \<Longrightarrow> bio (foldl set_profile_attr p a) = fval_opt v"
    and "n = ''date_of_birth'' \<Longrightarrow> date_of_birth (foldl set_profile_attr p a) = fval_opt v"
proof -
  have g: "\<And>x m w. avatar (set_profile_attr x (m, w)) = (if m = ''avatar'' then fval_opt w else avatar x)"
          "\<And>x m w. phone_number (set_profile_attr x (m, w)) =
                       (if m = ''phone_number'' then fval_opt w else phone_number x)"
          "\<And>x m w. bio (set_profile_attr x (m, w)) = (if m = ''bio'' then fval_opt w else bio x)"
          "\<And>x m w. date_of_birth (set_profile_attr x (m, w)) =
                       (if m = ''date_of_birth'' then fval_opt w else date_of_birth x)"
    by (simp_all add: set_profile_attr_def)
  show "n = ''avatar'' \<Longrightarrow> avatar (foldl set_profile_attr p a) = fval_opt v"
    using foldl_set_get(1) [OF g(1) assms(1)] assms(2) by simp
  show "n = ''phone_number'' \<Longrightarrow> phone_number (foldl set_profile_attr p a) = fval_opt v"
    using foldl_set_get(1) [OF g(2) assms(1)] assms(2) by simp
  show "n = ''bio'' \<Longrightarrow> bio (foldl set_profile_attr p a) = fval_opt v"
    using foldl_set_get(1) [OF g(3) assms(1)] assms(2) by simp
  show "n = ''date_of_birth'' \<Longrightarrow> date_of_birth (foldl set_profile_attr p a) = fval_opt v"
    using foldl_set_get(1) [OF g(4) assms(1)] assms(2) by simp
qed

lemma nested_profile_Some:
  "distinct (map prof_user (profiles d)) \<Longrightarrow> \<exists>pr. nested_profile cfg d u = Some pr"
  using orm_get_key_cases [of prof_user "profiles d" "user_pk u"]
  by (auto simp: nested_profile_def)

text \<open>After the profile save of an update, the nested representation shows every saved profile value.\<close>

lemma nested_profile_after_save:
  assumes "db_constraints d" and "u \<in> set (users d)"
    and "get_or_create_profile d (user_pk u) = Inr (p, created, d1)"
    and "profile_step cfg partial v = Inr (Some q)"
    and "profiles d' = profiles (save_profile d1 (foldl set_profile_attr p q))" and "user_pk u' = user_pk u"
  shows "\<exists>prep. nested_profile cfg d' u' = Some (OObj prep) \<and>
           (\<forall>(n, x) \<in> set q. map_of prep n = Some (profile_field_repr cfg n (fval_opt x)))"
proof -
  let ?p' = "foldl set_profile_attr p q"
  have dist: "distinct (map prof_user (profiles d))" using assms(1) by (simp add: db_constraints_def)
  from get_or_create_profile_Inr [OF dist, of "user_pk u"] assms(3)
  have p: "p \<in> set (profiles d1)" "prof_user p = user_pk u" by auto
  have "db_constraints d1"
    using assms(1) _ assms(3) by (rule get_or_create_profile_constraints) (use assms(2) in auto)
  then have "distinct (map prof_user (profiles d1))" by (simp add: db_constraints_def)
  then have "distinct (map prof_user (profiles d'))"
    using assms(5) by (simp add: save_profile_def map_key_replace_by)
  moreover have "?p' \<in> set (profiles d')"
    using assms(5) p by (simp add: save_profile_def replace_by_mem)
  ultimately have "orm_get (\<lambda>x. prof_user x = prof_user ?p') (profiles d') = Got ?p'"
    by (rule orm_get_key_Got)
  then have np: "nested_profile cfg d' u' = Some (OObj (profile_repr cfg ?p'))"
    using p assms(6) by (simp add: nested_profile_def)
  from profile_step_Some [OF assms(4)] obtain kvs where
    tq: "to_internal (profile_fields cfg) (\<lambda>_ _. []) partial (obj_payload kvs) = Inr q" by blast
  have dq: "distinct (map fst q)" using tq profile_fields_distinct by (rule to_internal_distinct [rotated])
  have kq: "fst ` set q \<subseteq> {''avatar'', ''phone_number'', ''bio'', ''date_of_birth''}"
    using to_internal_keys [OF tq] by (simp add: profile_fields_def)
  have "map_of (profile_repr cfg ?p') n = Some (profile_field_repr cfg n (fval_opt x))"
    if nx: "(n, x) \<in> set q" for n x
  proof -
    from nx kq have "n = ''avatar'' \<or> n = ''phone_number'' \<or> n = ''bio'' \<or> n = ''date_of_birth''" by force
    then show ?thesis
      using foldl_set_profile_attr_val [OF dq nx, of p] by (auto simp: profile_repr_def)
  qed
  with np show ?thesis by auto
qed

text \<open>
  C19. What a profile update writes is what the endpoint reads back: after a
  successful update, the representation of the updated user shows every
  validated user field with its new value, and, when profile data was sent,
  a nested profile showing every validated profile field with its new value as
  that field represents it (the text of a text field, the URL of an image, the
  ISO form of a date).
\<close>

theorem update_read_back:
  assumes "db_constraints d" and "u \<in> set (users d)"
    and "user_to_internal cfg partial data = Inr (a, pd)"
    and "update_profile_request cfg d u partial data = (Inr u', d')"
  shows "\<exists>rep. user_repr cfg d' u' = Some rep \<and> (\<forall>(n, v) \<in> set a. map_of rep n = Some (OStr (fstr v))) \<and>
           (\<forall>q. pd = Some q \<longrightarrow> (\<exists>prep. map_of rep ''profile'' = Some (OObj prep) \<and>
              (\<forall>(n, v) \<in> set q. map_of prep n = Some (profile_field_repr cfg n (fval_opt v)))))"
proof -
  have ti: "to_internal (user_fields cfg) (\<lambda>_ _. []) partial data = Inr a"
    and ps: "profile_step cfg partial (data ''profile'') = Inr pd"
    using assms(3) by (rule user_to_internal_Inr)+
  have dist: "distinct (map prof_user (profiles d))" using assms(1) by (simp add: db_constraints_def)
  have uu: "user_update cfg d u (a, pd) = (Inr u', d')"
    using assms(3,4) by (simp add: update_profile_request_def)
  from user_update_steps [OF uu dist ps] obtain d2 where
    u': "u' = foldl set_user_attr u a" and d': "d' = save_user d2 u'"
    and none: "pd = None \<longrightarrow> d2 = d"
    and some: "\<forall>q. pd = Some q \<longrightarrow> (\<exists>p created d1. get_or_create_profile d (user_pk u) = Inr (p, created, d1) \<and>
                  d2 = save_profile d1 (foldl set_profile_attr p q))"
    by auto
  have pk: "user_pk u' = user_pk u" using u' by simp
  have prof: "profiles d' = profiles d2" using d' by (simp add: save_user_def)
  \<comment> \<open>the user fields\<close>
  have da: "distinct (map fst a)" using ti user_fields_distinct by (rule to_internal_distinct [rotated])
  have ka: "fst ` set a \<subseteq> {''first_name'', ''last_name'', ''patronymic''}"
    using to_internal_keys [OF ti] by (simp add: user_fields_def user_read_only_fields_def)
  have vals: "map_of (user_body u' pr) n = Some (OStr (fstr v))" if nv: "(n, v) \<in> set a" for n v pr
  proof -
    from nv ka have "n = ''first_name'' \<or> n = ''last_name'' \<or> n = ''patronymic''" by force
    then show ?thesis
      using foldl_set_user_attr_val [OF da nv, of u] u' by (auto simp: user_body_def)
  qed
  show ?thesis
  proof (cases pd)
    case None
    with none prof dist obtain pr where "nested_profile cfg d' u' = Some pr"
      using nested_profile_Some by fastforce
    with vals None show ?thesis by (auto simp: user_repr_def)
  next
    case (Some q)
    with some obtain p created d1 where g: "get_or_create_profile d (user_pk u) = Inr (p, created, d1)"
      and d2: "d2 = save_profile d1 (foldl set_profile_attr p q)" by blast
    from nested_profile_after_save [OF assms(1,2) g ps [unfolded Some], of d' u'] prof d2 pk
    obtain prep where "nested_profile cfg d' u' = Some (OObj prep)"
      and "\<forall>(n, x) \<in> set q. map_of prep n = Some (profile_field_repr cfg n (fval_opt x))" by auto
    with vals Some show ?thesis by (auto simp: user_repr_def user_body_def)
  qed
qed

text \<open>
  C25. An empty PATCH of a stored user is a no-op: it validates to no data, does
  not create a profile, saves the instance unchanged and returns it.
\<close>

theorem patch_empty_noop:
  assumes "db_constraints d" and "u \<in> set (users d)"
  shows "update_profile_request cfg d u True (\<lambda>_. None) = (Inr u, d)"
proof -
  have "user_to_internal cfg True (\<lambda>_. None) = Inr ([], None)"
    by (simp add: user_to_internal_def to_internal_empty_partial profile_step_def)
  moreover have "save_user d u = d"
    using assms by (simp add: save_user_def replace_by_self db_constraints_def)
  ultimately show ?thesis
    by (simp add: update_profile_request_def user_update_def model_update_user_def)
qed
end
