(* ===== verification/Scenarios.thy ===== *)
theory Scenarios
  imports Registration Change_Password User_Update
begin

text \<open>
  A concrete configuration, database and requests, on which the properties of
  the components are applied: the witnesses that their hypotheses hold
  together. The configuration derives the user fields as Django does for
  \<open>CharField(blank=...)\<close> columns and checks passwords for a minimum length; the
  database holds one administrator and one unused invitation for the role
  \<open>engineer\<close> whose code is the UUID with integer 1000.
\<close>

definition ex_field :: "field_name \<Rightarrow> char_field" where
  "ex_field n = \<lparr>required = (n = ''email''), allow_blank = (n \<noteq> ''email''), allow_null = False,
                  trim_whitespace = True, validators = prohibit_null\<rparr>"

definition ex_cfg :: config where
  "ex_cfg = \<lparr>model_field = ex_field,
             password_validators = (\<lambda>s. if length s < 8 then [Password_weak ''too short''] else []),
             role_choices = [(''admin'', ''Administrator''), (''engineer'', ''Engineer'')],
             parse_datetime = (\<lambda>s. if s = ''1970-01-01T00:01:40Z'' then Some 100 else None),
             image_repr = (\<lambda>s. ''/media/'' @ s), date_repr = (\<lambda>s. s)\<rparr>"

definition ex_admin :: user where
  "ex_admin = \<lparr>user_pk = 0, email = ''root@example.org'', password = Hashed ''rootpass1'',
     first_name = ''Root'', last_name = ''Admin'', patronymic = [], role = ''admin'',
     is_active = True, is_role_confirmed = True, date_joined = 0\<rparr>"

definition ex_inv :: invitation where
  "ex_inv = \<lparr>inv_pk = 1, code = 1000, inv_role = ''engineer'', created_by = 0, used_by = None,
             created_at = 0, expires_at = None\<rparr>"

definition ex_db :: db where
  "ex_db = \<lparr>users = [ex_admin], profiles = [], invites = [ex_inv], next_user_pk = 1,
            next_inv_pk = 2, now = 5\<rparr>"

text \<open>Ann registers with the printed code of the invitation; Bob registers without a code.\<close>

definition ex_pay1 :: payload where
  "ex_pay1 = [''email'' \<mapsto> JStr ''ann@example.org'', ''password'' \<mapsto> JStr ''secret123'',
     ''password2'' \<mapsto> JStr ''secret123'', ''first_name'' \<mapsto> JStr ''Ann'',
     ''last_name'' \<mapsto> JStr ''Lee'', ''role'' \<mapsto> JStr ''engineer'',
     ''invite_code'' \<mapsto> JStr ''00000000-0000-0000-0000-0000000003e8'']"

definition ex_pay2 :: payload where
  "ex_pay2 = [''email'' \<mapsto> JStr ''bob@example.org'', ''password'' \<mapsto> JStr ''hunter2222'',
     ''password2'' \<mapsto> JStr ''hunter2222'', ''first_name'' \<mapsto> JStr ''Bob'',
     ''last_name'' \<mapsto> JStr ''Ray'', ''role'' \<mapsto> JStr ''engineer'']"

definition ex_ann :: user where
  "ex_ann = \<lparr>user_pk = 1, email = ''ann@example.org'', password = Hashed ''secret123'',
     first_name = ''Ann'', last_name = ''Lee'', patronymic = [], role = ''engineer'',
     is_active = True, is_role_confirmed = True, date_joined = 5\<rparr>"

definition ex_bob :: user where
  "ex_bob = \<lparr>user_pk = 2, email = ''bob@example.org'', password = Hashed ''hunter2222'',
     first_name = ''Bob'', last_name = ''Ray'', patronymic = [], role = ''engineer'',
     is_active = False, is_role_confirmed = False, date_joined = 5\<rparr>"

definition ex_db1 :: db where
  "ex_db1 = ex_db\<lparr>users := [ex_admin, ex_ann], invites := [ex_inv\<lparr>used_by := Some 1\<rparr>],
                  next_user_pk := 2\<rparr>"

definition ex_db2 :: db where
  "ex_db2 = ex_db1\<lparr>users := [ex_admin, ex_ann, ex_bob], next_user_pk := 3\<rparr>"

text \<open>Ann changes the password, once with the right and once with a wrong old password.\<close>

definition ex_cp :: payload where
  "ex_cp = [''old_password'' \<mapsto> JStr ''secret123'', ''new_password'' \<mapsto> JStr '' newsecret9'',
            ''new_password2'' \<mapsto> JStr ''newsecret9 '']"

definition ex_cp_wrong :: payload where
  "ex_cp_wrong = ex_cp(''old_password'' \<mapsto> JStr ''guess'')"

text \<open>
  Ann edits the first name and the profile's bio with a PATCH that also tries to
  change the email and role; a second PATCH sends a string as the profile.
\<close>

text \<open>Bob's payload with Ann's address, its domain in capitals.\<close>

definition ex_pay_dup :: payload where
  "ex_pay_dup = ex_pay2(''email'' \<mapsto> JStr ''ann@EXAMPLE.org'')"

definition ex_upd :: payload where
  "ex_upd = [''first_name'' \<mapsto> JStr ''Anna'', ''role'' \<mapsto> JStr ''admin'',
             ''email'' \<mapsto> JStr ''boss@example.org'',
             ''profile'' \<mapsto> JObj [(''bio'', JStr '' Site reliability '')]]"

definition ex_upd_bad :: payload where
  "ex_upd_bad = ex_upd(''profile'' \<mapsto> JStr ''x'')"

definition ex_anna :: user where
  "ex_anna = ex_ann\<lparr>first_name := ''Anna''\<rparr>"

definition ex_db3 :: db where
  "ex_db3 = ex_db1\<lparr>users := [ex_admin, ex_anna],
     profiles := [\<lparr>prof_user = 1, avatar = None, phone_number = None,
                   bio = Some ''Site reliability'', date_of_birth = None\<rparr>]\<rparr>"

subsection \<open>Evaluation of the scenario\<close>

lemmas reg_eval =
  register_def reg_is_valid_def reg_fields_def ex_cfg_def ex_field_def
  run_char_field_def field_step_def password_field_def password2_field_def invite_code_field_def
  reg_hook_def validate_email_def validate_role_def role_values_def prohibit_null_def
  reg_validate_def attr_def uuid_parse_def py_int16_def sign_split_def drop_hex_prefix_def
  hex_value_def hex_val_def strip_by_def py_isspace_def orm_get_def is_valid_def reg_cleanup_def
  reg_create_def create_user_def pop_key_def get_str_def save_invitation_def replace_by_def
  make_password_def normalize_email_def py_lower_def char_of_def bit_0 Let_def

text \<open>The scenario's addresses are already normalized.\<close>

lemma ex_normalized [simp]:
  "normalize_email ''ann@example.org'' = ''ann@example.org''"
  "normalize_email ''bob@example.org'' = ''bob@example.org''"
  "normalize_email ''carl@example.org'' = ''carl@example.org''"
  "normalize_email ''dan@example.org'' = ''dan@example.org''"
  by (simp_all add: normalize_email_def py_lower_def char_of_def bit_0 strip_by_def py_isspace_def Let_def)

lemma ex_cfg_ok: "cfg_ok ex_cfg"
  by (simp add: cfg_ok_def ex_cfg_def ex_field_def user_text_fields_def)

lemma ex_db_constraints: "db_constraints ex_db"
  by (simp add: db_constraints_def ex_db_def ex_admin_def ex_inv_def)

lemma ex_register_ann: "register ex_cfg ex_db ex_pay1 = Inr (ex_ann, ex_db1)"
  by (simp add: reg_eval ex_db_def ex_pay1_def ex_inv_def ex_admin_def ex_ann_def ex_db1_def)

lemma ex_register_bob: "register ex_cfg ex_db1 ex_pay2 = Inr (ex_bob, ex_db2)"
  by (simp add: reg_eval ex_db_def ex_db1_def ex_db2_def ex_pay2_def ex_inv_def ex_admin_def
      ex_ann_def ex_bob_def)

lemma ex_reg_code_ann: "reg_code ex_pay1 = Some 1000"
  by (simp add: reg_code_def ex_pay1_def uuid_parse_def py_int16_def sign_split_def
      drop_hex_prefix_def hex_value_def hex_val_def strip_by_def py_isspace_def Let_def)

lemma ex_reg_code_bob: "reg_code ex_pay2 = None"
  by (simp add: reg_code_def ex_pay2_def)

lemma ex_register_mismatch:
  "register ex_cfg ex_db (ex_pay2(''password2'' \<mapsto> JStr ''other'')) =
     Inl (Invalid [(''password2'', Passwords_differ)])"
  by (simp add: reg_eval ex_db_def ex_pay2_def ex_inv_def ex_admin_def)

lemmas cp_eval =
  change_password_def cp_is_valid_def cp_fields_def ex_cfg_def old_password_field_def
  new_password_field_def new_password2_field_def run_char_field_def field_step_def cp_hook_def
  validate_old_password_def check_password_def make_password_def cp_validate_def cp_save_def
  set_password_def prohibit_null_def attr_def strip_by_def py_isspace_def Let_def

lemma ex_change_password:
  "change_password ex_cfg ex_db1 ex_ann ex_cp =
     Inr (ex_ann\<lparr>password := Hashed ''newsecret9''\<rparr>, save_user ex_db1 (ex_ann\<lparr>password := Hashed ''newsecret9''\<rparr>))"
  by (simp add: cp_eval ex_cp_def ex_ann_def)

lemmas upd_eval =
  update_profile_request_def user_to_internal_def user_fields_def user_read_only_fields_def
  profile_step_def profile_fields_def obj_payload_def ex_cfg_def ex_field_def run_char_field_def
  field_step_def prohibit_null_def strip_by_def py_isspace_def user_update_def
  get_or_create_profile_def orm_get_def empty_profile_def profile_serializer_update_def revalue_def
  save_profile_def replace_by_def model_update_user_def set_user_attr_def set_profile_attr_def
  save_user_def Let_def

lemma ex_upd_valid:
  "user_to_internal ex_cfg True ex_upd =
     Inr ([(''first_name'', Val ''Anna'')], Some [(''bio'', Val ''Site reliability'')])"
  by (simp add: upd_eval ex_upd_def)

lemma ex_update: "update_profile_request ex_cfg ex_db1 ex_ann True ex_upd = (Inr ex_anna, ex_db3)"
  by (simp add: upd_eval ex_upd_def ex_db1_def ex_db3_def ex_db_def ex_ann_def ex_anna_def ex_admin_def
      ex_inv_def)

lemma ex_update_bad:
  "update_profile_request ex_cfg ex_db1 ex_ann True ex_upd_bad = (Inl (Invalid [(''profile'', Not_a_dict)]), ex_db1)"
  by (simp add: upd_eval ex_upd_bad_def ex_upd_def)

lemma ex_db1_constraints: "db_constraints ex_db1"
  by (simp add: db_constraints_def ex_db1_def ex_db_def ex_admin_def ex_ann_def ex_inv_def)

subsection \<open>Witnesses\<close>

theorem register_single_use_witness:
  "reg_code ex_pay2 \<noteq> Some 1000"
  using register_single_use [OF ex_db_constraints ex_cfg_ok ex_register_ann ex_register_bob ex_reg_code_ann] .

theorem register_failures_witness:
  "register ex_cfg ex_db1 ex_pay_dup = Inl (Server_error IntegrityError) \<and>
   (\<exists>a io e. reg_is_valid ex_cfg ex_db1 ex_pay_dup = Inr (a, io) \<and> attr a ''email'' = Val e \<and>
      e \<notin> email ` set (users ex_db1) \<and> normalize_email e \<in> email ` set (users ex_db1))"
proof -
  have r: "register ex_cfg ex_db1 ex_pay_dup = Inl (Server_error IntegrityError)"
    by (simp add: reg_eval ex_pay_dup_def ex_pay2_def ex_db1_def ex_db_def ex_inv_def ex_admin_def
        ex_ann_def)
  from register_failures [OF ex_db1_constraints ex_cfg_ok r] r show ?thesis by simp
qed

theorem register_result_witness:
  "user_pk ex_ann = 1 \<and> users ex_db1 = users ex_db @ [ex_ann] \<and> is_active ex_ann"
  using register_result [OF ex_cfg_ok ex_register_ann]
  by (simp add: ex_db_def ex_ann_def)

theorem register_active_iff_code_witness:
  "\<not> is_active ex_bob \<and> reg_code ex_pay2 = None"
  using register_active_iff_code [OF ex_register_bob] by (simp add: ex_reg_code_bob)

theorem register_empty_witness:
  "register ex_cfg ex_db (\<lambda>_. None) =
     Inl (Invalid [(''email'', Required), (''password'', Required), (''password2'', Required),
                   (''first_name'', Required), (''last_name'', Required), (''role'', Required)])"
  using register_empty [OF ex_cfg_ok, of ex_db] by (simp add: ex_cfg_def ex_field_def)

theorem patch_empty_noop_witness:
  "update_profile_request ex_cfg ex_db1 ex_ann True (\<lambda>_. None) = (Inr ex_ann, ex_db1)"
  using patch_empty_noop [OF ex_db1_constraints] by (simp add: ex_db1_def)

theorem change_password_effect_witness:
  "\<exists>so sn s2. ex_cp ''old_password'' = Some (JStr so) \<and> check_password ex_ann (py_strip so) \<and>
     ex_cp ''new_password'' = Some (JStr sn) \<and> ex_cp ''new_password2'' = Some (JStr s2) \<and>
     py_strip s2 = py_strip sn \<and> password_validators ex_cfg (py_strip sn) = [] \<and>
     ex_ann\<lparr>password := Hashed ''newsecret9''\<rparr> = set_password ex_ann (py_strip sn)"
  using change_password_effect [OF ex_change_password] by blast

theorem change_password_wrong_old_witness:
  "ex_cp_wrong ''old_password'' = Some (JStr ''guess'') \<and> py_strip ''guess'' \<noteq> [] \<and>
   CHR 0x00 \<notin> set (py_strip ''guess'') \<and> \<not> check_password ex_ann (py_strip ''guess'') \<and>
   (\<exists>es. change_password ex_cfg ex_db1 ex_ann ex_cp_wrong = Inl (Invalid es) \<and>
         (''old_password'', Old_password_wrong) \<in> set es)"
proof -
  have h: "ex_cp_wrong ''old_password'' = Some (JStr ''guess'')" "py_strip ''guess'' \<noteq> []"
    "CHR 0x00 \<notin> set (py_strip ''guess'')" "\<not> check_password ex_ann (py_strip ''guess'')"
    by (simp_all add: ex_cp_wrong_def strip_by_def py_isspace_def check_password_def
                      make_password_def ex_ann_def)
  show ?thesis
    using h change_password_wrong_old [where data = ex_cp_wrong and so = "''guess''" and u = ex_ann
                                        and cfg = ex_cfg and d = ex_db1, OF h]
    by blast
qed

theorem update_read_only_preserved_witness:
  "role ex_anna = role ex_ann \<and> email ex_anna = email ex_ann \<and> invites ex_db3 = invites ex_db1"
  using update_read_only_preserved [OF ex_update] by simp

theorem update_failure_no_write_witness:
  "ex_db1 = ex_db1 \<and> (\<exists>es. Invalid [(''profile'', Not_a_dict)] = Invalid es)"
  using update_failure_no_write [OF ex_db1_constraints ex_update_bad] .

theorem patch_keeps_absent_names_witness:
  "ex_upd ''last_name'' = None \<and> last_name ex_anna = last_name ex_ann"
proof -
  have "ex_upd ''last_name'' = None" by (simp add: ex_upd_def)
  with patch_keeps_absent_names [OF ex_update] show ?thesis by simp
qed

theorem update_read_back_witness:
  "\<exists>rep. user_repr ex_cfg ex_db3 ex_anna = Some rep \<and> map_of rep ''first_name'' = Some (OStr ''Anna'') \<and>
     (\<exists>prep. map_of rep ''profile'' = Some (OObj prep) \<and>
        map_of prep ''bio'' = Some (OStr ''Site reliability''))"
proof -
  have "ex_ann \<in> set (users ex_db1)" by (simp add: ex_db1_def)
  from update_read_back [OF ex_db1_constraints this ex_upd_valid ex_update] show ?thesis
    by (simp add: profile_field_repr_def)
qed

end
