(* ===== verification/Invitation_Issue.thy ===== *)
theory Invitation_Issue
  imports Settings Uuid "HOL-Library.Word"
begin

unbundle bit_operations_syntax

text \<open>
  \<open>InvitationCodeSerializer\<close> (src/users/serializers.py, lines 167-182): of
  its \<open>Meta.fields\<close> minus \<open>read_only_fields\<close> leave \<open>role\<close> (a choice of
  \<open>User.Role\<close>) and \<open>expires_at\<close> (an optional date-time) writable; \<open>create\<close> sets \<open>created_by\<close> to the
  request's user, generates the code with \<open>uuid.uuid4()\<close> when the validated
  data has none (always: \<open>code\<close> is read-only), and inserts the row with
  \<open>ModelSerializer.create\<close>. The random UUID is an argument of the request; the
  unique code column rejects a collision with \<open>IntegrityError\<close>. The code is
  shown to clients as \<open>str(uuid)\<close> (\<^const>\<open>uuid_str\<close>).
\<close>

subsection \<open>Fields (lines 168-174)\<close>

text \<open>\<open>role\<close>: the \<open>ChoiceField\<close> derived from the model's choices.\<close>

definition inv_role_step :: "config \<Rightarrow> jval option \<Rightarrow> msg list + string" where
  "inv_role_step cfg v =
     (case v of
        None \<Rightarrow> Inl [Required]
      | Some JNull \<Rightarrow> Inl [Null_not_allowed]
      | Some (JStr s) \<Rightarrow> if s \<in> set (role_values cfg) then Inr s else Inl [Invalid_choice]
      | Some (JObj _) \<Rightarrow> Inl [Invalid_choice])"

text \<open>\<open>expires_at\<close>: a nullable, optional \<open>DateTimeField\<close>; \<open>None\<close> when skipped.\<close>

definition expires_at_step :: "config \<Rightarrow> jval option \<Rightarrow> msg list + time option option" where
  "expires_at_step cfg v =
     (case v of
        None \<Rightarrow> Inr None
      | Some JNull \<Rightarrow> Inr (Some None)
      | Some (JStr s) \<Rightarrow> (case parse_datetime cfg s of None \<Rightarrow> Inl [Datetime_invalid]
                                                 | Some t \<Rightarrow> Inr (Some (Some t)))
      | Some (JObj _) \<Rightarrow> Inl [Datetime_invalid])"

text \<open>
  \<open>code\<close>: the \<open>UUIDField\<close> derived from the model's \<open>UUIDField(default=uuid4)\<close>,
  hence optional; a string is read by \<open>uuid.UUID(hex=...)\<close>.
\<close>

definition code_step :: "jval option \<Rightarrow> msg list + nat option" where
  "code_step v =
     (case v of
        None \<Rightarrow> Inr None
      | Some JNull \<Rightarrow> Inl [Null_not_allowed]
      | Some (JStr s) \<Rightarrow> (case uuid_parse s of None \<Rightarrow> Inl [Uuid_invalid] | Some c \<Rightarrow> Inr (Some c))
      | Some (JObj _) \<Rightarrow> Inl [Uuid_invalid])"

text \<open>\<open>Meta.fields\<close> and \<open>Meta.read_only_fields\<close> (lines 172-173); the writable fields are the others, in order.\<close>

definition inv_fields :: "field_name list" where
  "inv_fields = [''id'', ''code'', ''role'', ''created_by'', ''created_by_email'', ''used_by'',
                 ''used_by_email'', ''created_at'', ''expires_at'', ''is_valid'']"

definition inv_read_only_fields :: "field_name list" where
  "inv_read_only_fields = [''id'', ''code'', ''created_by'', ''created_by_email'', ''used_by'',
                           ''used_by_email'', ''created_at'', ''is_valid'']"

definition inv_writable :: "field_name list" where
  "inv_writable = filter (\<lambda>n. n \<notin> set inv_read_only_fields) inv_fields"

text \<open>
  A validated value of one writable field, and the step of one field: \<open>Inr None\<close>
  when the field is skipped. The relations (\<open>created_by\<close>, \<open>used_by\<close>), the
  dotted-source emails, \<open>id\<close>, \<open>created_at\<close> and the method field
  \<open>is_valid\<close> take no text value in this model and are skipped.
\<close>

datatype ival = IRole string | IExpiry "time option" | ICode nat

definition inv_field_step :: "config \<Rightarrow> field_name \<Rightarrow> jval option \<Rightarrow> msg list + ival option" where
  "inv_field_step cfg n v =
     (if n = ''role'' then map_sum id (\<lambda>r. Some (IRole r)) (inv_role_step cfg v)
      else if n = ''expires_at'' then map_sum id (map_option IExpiry) (expires_at_step cfg v)
      else if n = ''code'' then map_sum id (map_option ICode) (code_step v)
      else Inr None)"

record inv_data =
  vd_role :: string
  vd_expires_at :: "time option option"
  vd_code :: "nat option"

text \<open>
  \<open>to_internal_value\<close> over the writable fields: the errors of all fields keyed
  by field name, or the validated data.
\<close>

definition inv_to_internal :: "config \<Rightarrow> payload \<Rightarrow> verrors + inv_data" where
  "inv_to_internal cfg data =
     (let rs = map (\<lambda>n. (n, inv_field_step cfg n (data n))) inv_writable;
          es = concat (map (\<lambda>(n, r). case r of Inl ms \<Rightarrow> map (Pair n) ms | Inr _ \<Rightarrow> []) rs);
          vs = List.map_filter (\<lambda>(n, r). case r of Inr (Some x) \<Rightarrow> Some (n, x) | _ \<Rightarrow> None) rs
      in if es \<noteq> [] then Inl es
         else Inr \<lparr>vd_role = (case map_of vs ''role'' of Some (IRole r) \<Rightarrow> r | _ \<Rightarrow> []),
                   vd_expires_at = (case map_of vs ''expires_at'' of Some (IExpiry e) \<Rightarrow> Some e | _ \<Rightarrow> None),
                   vd_code = (case map_of vs ''code'' of Some (ICode c) \<Rightarrow> Some c | _ \<Rightarrow> None)\<rparr>)"

subsection \<open>Creation (lines 176-182)\<close>

text \<open>
  \<open>uuid.uuid4()\<close> of the Python library: 128 random bits, with the variant
  field set to RFC 4122 (bits 62-63 are \<open>10\<close>) and the version field (bits
  76-79) set to 4, exactly as \<open>UUID.__init__(bytes=os.urandom(16), version=4)\<close>
  masks them. The random bits are an argument of the request.
\<close>

definition uuid4 :: "128 word \<Rightarrow> 128 word" where
  "uuid4 r = ((r AND NOT (push_bit 48 0xc000)) OR push_bit 48 0x8000) AND NOT (push_bit 64 0xf000)
             OR push_bit 76 4"

definition inv_create :: "db \<Rightarrow> user \<Rightarrow> 128 word \<Rightarrow> inv_data \<Rightarrow> db_error + (invitation \<times> db)" where
  "inv_create d req_user rnd vd =
     (let c = (case vd_code vd of None \<Rightarrow> unat (uuid4 rnd) | Some c \<Rightarrow> c);
          i = \<lparr>inv_pk = next_inv_pk d, code = c, inv_role = vd_role vd, created_by = user_pk req_user,
               used_by = None, created_at = now d,
               expires_at = (case vd_expires_at vd of None \<Rightarrow> None | Some e \<Rightarrow> e)\<rparr>
      in if c \<in> code ` set (invites d) then Inl IntegrityError
         else Inr (i, d\<lparr>invites := invites d @ [i], next_inv_pk := Suc (next_inv_pk d)\<rparr>))"

subsection \<open>The request\<close>

definition issue_invitation ::
  "config \<Rightarrow> db \<Rightarrow> user \<Rightarrow> 128 word \<Rightarrow> payload \<Rightarrow> failure + (invitation \<times> db)" where
  "issue_invitation cfg d req_user rnd data =
     (case inv_to_internal cfg data of
        Inl es \<Rightarrow> Inl (Invalid es)
      | Inr vd \<Rightarrow> (case inv_create d req_user rnd vd of
                    Inl e \<Rightarrow> Inl (Server_error e)
                  | Inr r \<Rightarrow> Inr r))"

subsection \<open>Representation (lines 168-174)\<close>

text \<open>
  The response body: \<open>code\<close> as \<open>str(uuid)\<close>, the related users' emails
  through \<open>source='created_by.email'\<close> and \<open>'used_by.email'\<close> (the latter
  \<open>None\<close> for an unused code, which \<open>allow_null=True\<close> permits), and the
  model's \<open>is_valid()\<close> at the current time. Date-times are kept as times, not
  formatted. A foreign key to a missing row raises \<open>DoesNotExist\<close> (\<open>None\<close>).
\<close>

definition user_email :: "db \<Rightarrow> user_id \<Rightarrow> string option" where
  "user_email d k = map_option email (find (\<lambda>u. user_pk u = k) (users d))"

definition inv_repr :: "db \<Rightarrow> invitation \<Rightarrow> (string \<times> oval) list option" where
  "inv_repr d i =
     (case user_email d (created_by i) of
        None \<Rightarrow> None
      | Some ce \<Rightarrow>
          Option.bind
            (case used_by i of None \<Rightarrow> Some ONull | Some k \<Rightarrow> map_option OStr (user_email d k))
            (\<lambda>ue. Some [(''id'', ONum (inv_pk i)), (''code'', OStr (uuid_str (code i))),
                (''role'', OStr (inv_role i)), (''created_by'', ONum (created_by i)),
                (''created_by_email'', OStr ce),
                (''used_by'', case used_by i of None \<Rightarrow> ONull | Some k \<Rightarrow> ONum k),
                (''used_by_email'', ue), (''created_at'', OTime (created_at i)),
                (''expires_at'', case expires_at i of None \<Rightarrow> ONull | Some t \<Rightarrow> OTime t),
                (''is_valid'', OBool (is_valid (now d) i))]))"

subsection \<open>Lemmas\<close>

lemma uuid4_lt: "unat (uuid4 r) < 2 ^ 128"
  using unsigned_less [of "uuid4 r"] by simp

lemma uuid4_version: "take_bit 4 (drop_bit 76 (uuid4 r)) = 4"
  by (rule bit_word_eqI) (auto simp: uuid4_def bit_simps)

lemma uuid4_variant: "take_bit 2 (drop_bit 62 (uuid4 r)) = 2"
  by (rule bit_word_eqI) (auto simp: uuid4_def bit_simps)

lemma expires_at_step_Inr:
  "expires_at_step cfg v = Inr e \<longleftrightarrow>
     (v = None \<and> e = None) \<or> (v = Some JNull \<and> e = Some None) \<or>
     (\<exists>s t. v = Some (JStr s) \<and> parse_datetime cfg s = Some t \<and> e = Some (Some t))"
  by (auto simp: expires_at_step_def split: option.splits jval.splits)

lemma inv_writable_eq: "inv_writable = [''role'', ''expires_at'']"
  by (simp add: inv_writable_def inv_fields_def inv_read_only_fields_def)

text \<open>With the current \<open>Meta\<close>, validation reads \<open>role\<close> and \<open>expires_at\<close> only.\<close>

lemma inv_to_internal_eq:
  "inv_to_internal cfg data =
     (case (inv_role_step cfg (data ''role''), expires_at_step cfg (data ''expires_at'')) of
        (Inl ms, Inl ns) \<Rightarrow> Inl (map (Pair ''role'') ms @ map (Pair ''expires_at'') ns)
      | (Inl ms, Inr _) \<Rightarrow> Inl (map (Pair ''role'') ms)
      | (Inr _, Inl ns) \<Rightarrow> Inl (map (Pair ''expires_at'') ns)
      | (Inr r, Inr e) \<Rightarrow> Inr \<lparr>vd_role = r, vd_expires_at = e, vd_code = None\<rparr>)"
proof (cases "inv_role_step cfg (data ''role'')")
  case (Inl ms)
  then have "ms \<noteq> []" by (auto simp: inv_role_step_def split: option.splits jval.splits if_splits)
  with Inl show ?thesis
    by (cases "expires_at_step cfg (data ''expires_at'')")
       (simp_all add: inv_to_internal_def inv_writable_eq inv_field_step_def Let_def)
next
  case (Inr r)
  show ?thesis
  proof (cases "expires_at_step cfg (data ''expires_at'')")
    case (Inl ns)
    then have "ns \<noteq> []" by (auto simp: expires_at_step_def split: option.splits jval.splits)
    with Inr Inl show ?thesis
      by (simp add: inv_to_internal_def inv_writable_eq inv_field_step_def Let_def)
  next
    case (Inr e)
    with \<open>inv_role_step cfg (data ''role'') = Inr r\<close> show ?thesis
      by (cases e) (simp_all add: inv_to_internal_def inv_writable_eq inv_field_step_def Let_def
                                  map_filter_def)
  qed
qed

lemma inv_to_internal_Inr:
  "inv_to_internal cfg data = Inr vd \<longleftrightarrow>
     (\<exists>r. data ''role'' = Some (JStr r) \<and> r \<in> set (role_values cfg) \<and> vd_role vd = r) \<and>
     expires_at_step cfg (data ''expires_at'') = Inr (vd_expires_at vd) \<and> vd_code vd = None"
  by (cases vd) (auto simp: inv_to_internal_eq inv_role_step_def
                      split: sum.splits option.splits jval.splits if_splits)

lemma inv_create_Inr:
  "vd_code vd = None \<Longrightarrow> inv_create d ru rnd vd = Inr (i, d1) \<longleftrightarrow>
     unat (uuid4 rnd) \<notin> code ` set (invites d) \<and>
     i = \<lparr>inv_pk = next_inv_pk d, code = unat (uuid4 rnd), inv_role = vd_role vd,
          created_by = user_pk ru, used_by = None, created_at = now d,
          expires_at = (case vd_expires_at vd of None \<Rightarrow> None | Some e \<Rightarrow> e)\<rparr> \<and>
     d1 = d\<lparr>invites := invites d @ [i], next_inv_pk := Suc (next_inv_pk d)\<rparr>"
  by (auto simp: inv_create_def Let_def)

lemma issue_invitation_Inr:
  assumes "issue_invitation cfg d ru rnd data = Inr (i, d1)"
  obtains vd where "inv_to_internal cfg data = Inr vd" and "vd_code vd = None"
    and "inv_create d ru rnd vd = Inr (i, d1)"
  using assms inv_to_internal_Inr
  by (auto simp: issue_invitation_def split: sum.splits)

lemma issue_invitation_constraints [inv_intros]:
  assumes "db_constraints d" and "ru \<in> set (users d)"
    and "issue_invitation cfg d ru rnd data = Inr (i, d1)"
  shows "db_constraints d1"
proof -
  from assms(3) obtain vd where "vd_code vd = None" and "inv_create d ru rnd vd = Inr (i, d1)"
    by (rule issue_invitation_Inr)
  then have fresh: "code i \<notin> code ` set (invites d)" and i: "inv_pk i = next_inv_pk d"
    "created_by i = user_pk ru" "used_by i = None"
    and d1: "d1 = d\<lparr>invites := invites d @ [i], next_inv_pk := Suc (next_inv_pk d)\<rparr>"
    by (auto simp: inv_create_Inr)
  have "next_inv_pk d \<notin> inv_pk ` set (invites d)"
    using assms(1) by (auto simp: db_constraints_def)
  with assms(1,2) fresh i d1 show ?thesis
    by (auto simp: db_constraints_def less_Suc_eq)
qed

lemma inv_repr_code:
  "inv_repr d i = Some rep \<Longrightarrow> map_of rep ''code'' = Some (OStr (uuid_str (code i)))"
  by (auto simp: inv_repr_def bind_eq_Some_conv split: option.splits)

subsection \<open>Properties of issuing an invitation\<close>

text \<open>
  C21. A successful issue inserts one new row: the requested role (a valid
  choice), a fresh version-4 code, the request's user as creator, unused,
  created now, expiring as the payload says; nothing else changes.
\<close>

theorem issue_invitation_result:
  assumes "issue_invitation cfg d ru rnd data = Inr (i, d1)"
  shows "data ''role'' = Some (JStr (inv_role i)) \<and> inv_role i \<in> set (role_values cfg) \<and>
         code i = unat (uuid4 rnd) \<and> code i \<notin> code ` set (invites d) \<and> inv_pk i = next_inv_pk d \<and>
         created_by i = user_pk ru \<and> used_by i = None \<and> created_at i = now d \<and>
         (\<exists>e. expires_at_step cfg (data ''expires_at'') = Inr e \<and>
              expires_at i = (case e of None \<Rightarrow> None | Some x \<Rightarrow> x)) \<and>
         invites d1 = invites d @ [i] \<and> users d1 = users d \<and> profiles d1 = profiles d \<and> now d1 = now d"
proof -
  from assms obtain vd where ti: "inv_to_internal cfg data = Inr vd" and nc: "vd_code vd = None"
    and cr: "inv_create d ru rnd vd = Inr (i, d1)"
    by (rule issue_invitation_Inr)
  from cr nc show ?thesis using ti by (auto simp: inv_create_Inr inv_to_internal_Inr)
qed

text \<open>
  C22. Only the writable fields \<open>role\<close> and \<open>expires_at\<close> of the payload are
  read: a client cannot choose the code, the creator or the user of the code.
\<close>

theorem issue_reads_only_writable:
  "issue_invitation cfg d ru rnd data =
     issue_invitation cfg d ru rnd (\<lambda>n. if n = ''role'' \<or> n = ''expires_at'' then data n else None)"
  by (simp add: issue_invitation_def inv_to_internal_eq)

text \<open>
  C26. \<open>expires_at\<close> is not checked against the clock: a payload whose expiry
  is already past issues a code that is invalid from the start.
\<close>

theorem issue_past_expiry:
  assumes "data ''role'' = Some (JStr r)" and "r \<in> set (role_values cfg)"
    and "data ''expires_at'' = Some (JStr s)" and "parse_datetime cfg s = Some t" and "t \<le> now d"
    and "unat (uuid4 rnd) \<notin> code ` set (invites d)"
  shows "\<exists>i d1. issue_invitation cfg d ru rnd data = Inr (i, d1) \<and> \<not> is_valid (now d1) i"
  using assms
  by (simp add: issue_invitation_def inv_to_internal_eq inv_role_step_def expires_at_step_def
                inv_create_def is_valid_def Let_def)

end
