(* ===== verification/Issue_Scenarios.thy ===== *)
theory Issue_Scenarios
  imports Scenarios Invitation_Issue
begin

text \<open>
  The administrator of the scenario database issues an invitation for the role
  \<open>admin\<close> that expires at time 100, with the random bits all zero; the payload
  also tries to choose the code. A second request asks for an unknown role, and
  a third one is sent after the expiry date.
\<close>

definition ex_issue_req :: payload where
  "ex_issue_req = [''role'' \<mapsto> JStr ''admin'', ''expires_at'' \<mapsto> JStr ''1970-01-01T00:01:40Z'',
                   ''code'' \<mapsto> JStr ''00000000-0000-0000-0000-000000000001'']"

definition ex_issue_bad :: payload where
  "ex_issue_bad = [''role'' \<mapsto> JStr ''guest'']"

definition ex_inv2 :: invitation where
  "ex_inv2 = \<lparr>inv_pk = 2, code = 302240678275694148452352, inv_role = ''admin'', created_by = 0,
              used_by = None, created_at = 5, expires_at = Some 100\<rparr>"

definition ex_db4 :: db where
  "ex_db4 = ex_db\<lparr>invites := [ex_inv, ex_inv2], next_inv_pk := 3\<rparr>"

definition ex_db_late :: db where
  "ex_db_late = ex_db\<lparr>now := 200\<rparr>"

lemmas issue_eval = issue_invitation_def inv_to_internal_eq inv_role_step_def expires_at_step_def
  inv_create_def role_values_def ex_cfg_def ex_issue_req_def ex_issue_bad_def Let_def

lemma ex_uuid4_0: "unat (uuid4 0) = 302240678275694148452352"
proof -
  have "uuid4 0 = 302240678275694148452352" by (simp add: uuid4_def)
  then show ?thesis by simp
qed

lemma ex_issue: "issue_invitation ex_cfg ex_db ex_admin 0 ex_issue_req = Inr (ex_inv2, ex_db4)"
  by (simp add: issue_eval ex_uuid4_0 ex_db_def ex_inv_def ex_inv2_def ex_db4_def ex_admin_def)

lemma ex_issue_bad: "issue_invitation ex_cfg ex_db ex_admin 0 ex_issue_bad = Inl (Invalid [(''role'', Invalid_choice)])"
  by (simp add: issue_eval)

subsection \<open>Witnesses\<close>

theorem issue_invitation_result_witness:
  "issue_invitation ex_cfg ex_db ex_admin 0 ex_issue_req = Inr (ex_inv2, ex_db4) \<and>
   code ex_inv2 = unat (uuid4 0) \<and> created_by ex_inv2 = user_pk ex_admin"
  using issue_invitation_result [OF ex_issue] ex_issue by simp

theorem issue_past_expiry_witness:
  "\<exists>i d1. issue_invitation ex_cfg ex_db_late ex_admin 0 ex_issue_req = Inr (i, d1) \<and> \<not> is_valid (now d1) i"
proof (rule issue_past_expiry [where s = "''1970-01-01T00:01:40Z''" and t = 100 and r = "''admin''"])
  show "unat (uuid4 0) \<notin> code ` set (invites ex_db_late)"
    by (simp add: ex_uuid4_0 ex_db_late_def ex_db_def ex_inv_def)
qed (simp_all add: issue_eval ex_db_late_def ex_db_def)

end
