(* ===== verification/System.thy ===== *)
theory System
  imports Registration Change_Password User_Update Invitation_Issue
begin

text \<open>
  The serializers as the API runs them: one request at a time, each an
  operation of a component theory on the shared database. The views, URLs and
  authentication are not among the sources; they are modelled from the spec:
  the account endpoints act for the authenticated user (an active row of the
  user table, as Django's \<open>ModelBackend\<close> requires), registration is anonymous,
  and a request that fails leaves the database as the component left it. The
  clock advances between requests. \<open>reachable\<close> is the set of databases a
  sequence of requests produces.
\<close>

datatype request =
    Register payload
  | UpdateProfile user_id bool payload
  | ChangePassword user_id payload
  | IssueInvite user_id "128 word" payload
  | Tick nat

definition authenticated :: "db \<Rightarrow> user_id \<Rightarrow> user option" where
  "authenticated d k =
     (case orm_get (\<lambda>u. user_pk u = k) (users d) of
        Got u \<Rightarrow> if is_active u then Some u else None
      | _ \<Rightarrow> None)"

fun step :: "config \<Rightarrow> db \<Rightarrow> request \<Rightarrow> db" where
  "step cfg d (Register data) = (case register cfg d data of Inr (_, d') \<Rightarrow> d' | Inl _ \<Rightarrow> d)"
| "step cfg d (UpdateProfile k partial data) =
     (case authenticated d k of None \<Rightarrow> d | Some u \<Rightarrow> snd (update_profile_request cfg d u partial data))"
| "step cfg d (ChangePassword k data) =
     (case authenticated d k of None \<Rightarrow> d
      | Some u \<Rightarrow> (case change_password cfg d u data of Inr (_, d') \<Rightarrow> d' | Inl _ \<Rightarrow> d))"
| "step cfg d (IssueInvite k rnd data) =
     (case authenticated d k of None \<Rightarrow> d
      | Some u \<Rightarrow> (case issue_invitation cfg d u rnd data of Inr (_, d') \<Rightarrow> d' | Inl _ \<Rightarrow> d))"
| "step cfg d (Tick n) = d\<lparr>now := now d + n\<rparr>"

inductive reachable :: "config \<Rightarrow> db \<Rightarrow> db \<Rightarrow> bool" for cfg d0 where
  reach_init: "reachable cfg d0 d0"
| reach_step: "reachable cfg d0 d \<Longrightarrow> reachable cfg d0 (step cfg d r)"

subsection \<open>Invariants\<close>

text \<open>
  Users created after the watermark \<open>w\<close> (the first primary key the run
  assigns) are active exactly when their role is confirmed, and a confirmed
  one is backed by an invitation it used, for the role it holds.
\<close>

definition confirmed_backed :: "nat \<Rightarrow> db \<Rightarrow> bool" where
  "confirmed_backed w d \<longleftrightarrow> w \<le> next_user_pk d \<and>
     (\<forall>u \<in> set (users d). w \<le> user_pk u \<longrightarrow> is_active u = is_role_confirmed u \<and>
        (is_role_confirmed u \<longrightarrow> (\<exists>i \<in> set (invites d). used_by i = Some (user_pk u) \<and> inv_role i = role u)))"

text \<open>A request that creates no user and keeps every invitation row.\<close>

definition kept :: "db \<Rightarrow> db \<Rightarrow> bool" where
  "kept d d' \<longleftrightarrow>
     (\<forall>x \<in> set (users d'). \<exists>y \<in> set (users d). user_pk x = user_pk y \<and> role x = role y \<and>
        is_active x = is_active y \<and> is_role_confirmed x = is_role_confirmed y) \<and>
     set (invites d) \<subseteq> set (invites d') \<and> next_user_pk d' = next_user_pk d"

subsection \<open>Lemmas: the requests that create no user\<close>

lemma authenticated_D:
  "authenticated d k = Some u \<Longrightarrow> u \<in> set (users d) \<and> user_pk u = k \<and> is_active u"
  by (auto simp: authenticated_def split: get_result.splits if_splits dest: orm_get_Got_D)

lemma kept_refl [intro]: "kept d d"
  by (auto simp: kept_def)

lemma kept_backed:
  assumes "kept d d'" and "confirmed_backed w d"
  shows "confirmed_backed w d'"
  unfolding confirmed_backed_def
proof (intro conjI ballI impI)
  show "w \<le> next_user_pk d'" using assms by (simp add: kept_def confirmed_backed_def)
next
  fix x assume x: "x \<in> set (users d')" and w: "w \<le> user_pk x"
  from assms(1) x obtain y where y: "y \<in> set (users d)" "user_pk x = user_pk y" "role x = role y"
    "is_active x = is_active y" "is_role_confirmed x = is_role_confirmed y"
    by (auto simp: kept_def)
  with w assms(2) show "is_active x = is_role_confirmed x" by (auto simp: confirmed_backed_def)
  assume "is_role_confirmed x"
  with y w assms(2) obtain i where "i \<in> set (invites d)" "used_by i = Some (user_pk x)" "inv_role i = role x"
    by (auto simp: confirmed_backed_def)
  with assms(1) show "\<exists>i \<in> set (invites d'). used_by i = Some (user_pk x) \<and> inv_role i = role x"
    by (auto simp: kept_def)
qed

lemma update_profile_request_frame:
  assumes "update_profile_request cfg d u partial data = (r, d')"
  shows "invites d' = invites d \<and> next_user_pk d' = next_user_pk d \<and> now d' = now d \<and>
         (users d' = users d \<or> (\<exists>a. fst ` set a \<inter> set user_read_only_fields = {} \<and>
                                      users d' = replace_by user_pk (foldl set_user_attr u a) (users d)))"
proof (cases "user_to_internal cfg partial data")
  case (Inl es)
  with assms show ?thesis by (simp add: update_profile_request_def)
next
  case (Inr vd)
  obtain a pd where vd: "vd = (a, pd)" by (cases vd)
  have w: "fst ` set a \<inter> set user_read_only_fields = {}"
    using Inr unfolding vd by (rule user_to_internal_writable)
  have uu: "user_update cfg d u (a, pd) = (r, d')"
    using assms Inr vd by (simp add: update_profile_request_def)
  have "invites d' = invites d \<and> next_user_pk d' = next_user_pk d \<and> now d' = now d \<and>
        (users d' = users d \<or> users d' = replace_by user_pk (foldl set_user_attr u a) (users d))"
    using uu
    by (auto simp: user_update_def model_update_user_def Let_def
                   get_or_create_profile_def profile_serializer_update_def save_profile_def save_user_def
             split: option.splits sum.splits get_result.splits prod.splits if_splits)
  with w show ?thesis by blast
qed

lemma kept_update:
  assumes "u \<in> set (users d)" and "update_profile_request cfg d u partial data = (r, d')"
  shows "kept d d'"
proof -
  note f = update_profile_request_frame [OF assms(2)]
  have "\<exists>y \<in> set (users d). user_pk x = user_pk y \<and> role x = role y \<and>
          is_active x = is_active y \<and> is_role_confirmed x = is_role_confirmed y"
    if x: "x \<in> set (users d')" for x
  proof -
    from f x have "x \<in> set (users d) \<or>
        (\<exists>a. fst ` set a \<inter> set user_read_only_fields = {} \<and> x = foldl set_user_attr u a)"
      by (metis set_replace_by)
    with assms(1) show ?thesis by (auto dest: foldl_set_user_attr_ro)
  qed
  with f show ?thesis by (simp add: kept_def)
qed

lemma change_password_Inr_D:
  "change_password cfg d u data = Inr (u', d') \<Longrightarrow> \<exists>raw. u' = set_password u raw \<and> d' = save_user d u'"
  by (auto simp: change_password_def cp_save_def Let_def split: sum.splits)

lemma kept_save_user:
  assumes "u \<in> set (users d)" and "user_pk u' = user_pk u" and "role u' = role u"
    and "is_active u' = is_active u" and "is_role_confirmed u' = is_role_confirmed u"
  shows "kept d (save_user d u')"
  using assms by (auto simp: kept_def save_user_def dest: set_replace_by)

lemma kept_issue:
  "issue_invitation cfg d ru rnd data = Inr (i, d') \<Longrightarrow> kept d d'"
  by (erule issue_invitation_Inr) (auto simp: kept_def inv_create_Inr)

subsection \<open>Lemmas: one step\<close>

lemma step_kept:
  assumes "\<forall>data. r \<noteq> Register data"
  shows "kept d (step cfg d r)"
proof (cases r)
  case (UpdateProfile k partial data)
  show ?thesis
  proof (cases "authenticated d k")
    case (Some u)
    obtain r' d' where e: "update_profile_request cfg d u partial data = (r', d')" by fastforce
    from Some have "u \<in> set (users d)" by (blast dest: authenticated_D)
    from kept_update [OF this e] Some e UpdateProfile show ?thesis by simp
  qed (simp add: UpdateProfile kept_refl)
next
  case (ChangePassword k data)
  then show ?thesis
    by (auto split: option.splits sum.splits dest!: authenticated_D change_password_Inr_D
             intro!: kept_save_user)
next
  case (IssueInvite k rnd data)
  then show ?thesis by (auto split: option.splits sum.splits intro: kept_issue)
next
  case (Tick n)
  then show ?thesis by (auto simp: kept_def)
qed (use assms in auto)

lemma register_keeps_used:
  assumes "db_constraints d" and "register cfg d data = Inr (u, d')"
    and "i' \<in> set (invites d)" and "used_by i' \<noteq> None"
  shows "i' \<in> set (invites d')"
proof -
  from assms(2) obtain attrs a io where rv: "reg_validate cfg d attrs = Inr (a, io)"
    and rc: "reg_create d (a, io) = Inr (u, d')"
    by (rule register_Inr_D)
  note c = reg_create_Inr [OF rc]
  show ?thesis
  proof (cases io)
    case None
    with c assms(3) show ?thesis by simp
  next
    case (Some i)
    with reg_validate_Inr(3) [OF rv] have i: "i \<in> set (invites d)" "used_by i = None"
      by (auto simp: is_valid_def)
    with assms(3,4) have "inv_pk i' \<noteq> inv_pk i"
      using assms(1) by (auto simp: db_constraints_def dest: distinct_map_eqD)
    with assms(3) Some c show ?thesis by (auto intro: replace_by_other)
  qed
qed

lemma register_backed:
  assumes "db_constraints d" and "cfg_ok cfg" and "register cfg d data = Inr (u, d')"
    and "confirmed_backed w d"
  shows "confirmed_backed w d'"
proof -
  from assms(3) obtain a io where rv: "reg_is_valid cfg d data = Inr (a, io)"
    and rc: "reg_create d (a, io) = Inr (u, d')"
    by (auto simp: register_def split: sum.splits)
  from reg_is_valid_Inr [OF rv assms(2)] obtain r where r: "attr a ''role'' = Val r"
    and io: "\<forall>i. io = Some i \<longrightarrow> i \<in> set (invites d) \<and> is_valid (now d) i \<and> inv_role i = r"
    by blast
  note c = reg_create_Inr [OF rc]
  have keep: "i' \<in> set (invites d')" if "i' \<in> set (invites d)" and "used_by i' \<noteq> None" for i'
    using assms(1,3) that by (rule register_keeps_used)
  have new: "is_active u = is_role_confirmed u \<and>
      (is_role_confirmed u \<longrightarrow> (\<exists>i \<in> set (invites d'). used_by i = Some (user_pk u) \<and> inv_role i = role u))"
  proof (cases io)
    case None
    with c show ?thesis by simp
  next
    case (Some i)
    with io have "i \<in> set (invites d)" "inv_role i = r" by auto
    with Some c r show ?thesis by (auto intro!: bexI [OF _ replace_by_mem])
  qed
  have "is_active x = is_role_confirmed x \<and>
      (is_role_confirmed x \<longrightarrow> (\<exists>i \<in> set (invites d'). used_by i = Some (user_pk x) \<and> inv_role i = role x))"
    if x: "x \<in> set (users d')" and w: "w \<le> user_pk x" for x
  proof (cases "x = u")
    case True
    with new show ?thesis by simp
  next
    case False
    with x c have "x \<in> set (users d)" by simp
    with w assms(4) keep show ?thesis by (fastforce simp: confirmed_backed_def)
  qed
  moreover have "w \<le> next_user_pk d'" using assms(4) c by (simp add: confirmed_backed_def)
  ultimately show ?thesis by (simp add: confirmed_backed_def)
qed

lemma step_db_constraints:
  assumes "db_constraints d" and "cfg_ok cfg"
  shows "db_constraints (step cfg d r)"
proof (cases r)
  case (Register data)
  with assms show ?thesis by (auto split: sum.splits intro: register_db_constraints)
next
  case (UpdateProfile k partial data)
  show ?thesis
  proof (cases "authenticated d k")
    case (Some u)
    obtain r' d' where e: "update_profile_request cfg d u partial data = (r', d')" by fastforce
    from Some have "u \<in> set (users d)" by (blast dest: authenticated_D)
    from update_profile_constraints [OF assms(1) this refl refl e] Some e UpdateProfile show ?thesis by simp
  qed (simp add: UpdateProfile assms(1))
next
  case (ChangePassword k data)
  with assms(1) show ?thesis
    by (auto split: option.splits sum.splits dest!: authenticated_D change_password_Inr_D
             intro: save_user_constraints)
next
  case (IssueInvite k rnd data)
  with assms(1) show ?thesis
    by (auto split: option.splits sum.splits dest!: authenticated_D intro: issue_invitation_constraints)
next
  case (Tick n)
  with assms(1) show ?thesis by (simp add: db_constraints_def)
qed

lemma step_backed:
  assumes "db_constraints d" and "cfg_ok cfg" and "confirmed_backed w d"
  shows "confirmed_backed w (step cfg d r)"
proof (cases "\<exists>data. r = Register data")
  case True
  with assms show ?thesis by (auto split: sum.splits intro: register_backed)
next
  case False
  with assms(3) show ?thesis by (blast intro: kept_backed step_kept)
qed

subsection \<open>Properties of the request sequence\<close>

text \<open>
  C3. Run one request at a time from a database satisfying its constraints,
  every reachable database satisfies them, and every user the run creates is
  active exactly when its role is confirmed, a confirmed one being backed by an
  invitation it used, for its role.
\<close>

theorem reachable_invariant:
  assumes "db_constraints d0" and "cfg_ok cfg" and "reachable cfg d0 d"
  shows "db_constraints d \<and> confirmed_backed (next_user_pk d0) d"
  using assms(3)
proof (induction rule: reachable.induct)
  case reach_init
  from assms(1) show ?case by (auto simp: confirmed_backed_def db_constraints_def)
next
  case (reach_step d r)
  with assms(2) show ?case by (blast intro: step_db_constraints step_backed)
qed

text \<open>
  C23. Single use across all endpoints: a request of any kind keeps every
  invitation row that has been used, unchanged.
\<close>

theorem step_keeps_used:
  assumes "db_constraints d" and "i \<in> set (invites d)" and "used_by i \<noteq> None"
  shows "i \<in> set (invites (step cfg d r))"
proof (cases "\<exists>data. r = Register data")
  case True
  then obtain data where "r = Register data" by blast
  then show ?thesis using register_keeps_used [OF assms(1) _ assms(2,3)] assms(2) by (auto split: sum.splits)
next
  case False
  then have "kept d (step cfg d r)" by (blast intro: step_kept)
  with assms(2) show ?thesis by (auto simp: kept_def)
qed

end
