(* ===== verification/Concurrency.thy ===== *)
theory Concurrency
  imports System
begin

text \<open>
  Registrations running concurrently with the other requests.
  \<open>UserRegistrationSerializer.validate\<close> reads the invitation
  (\<open>InvitationCode.objects.get\<close>, line 101) and \<open>create\<close> writes it back
  (\<open>invitation.save()\<close>, line 130) in a later statement of the same request,
  without a lock on the row; other requests may run in between. The pending
  registrations are the validated data, invitation instance included, of the
  requests that have passed \<open>is_valid()\<close> and not yet saved. The schema
  constraints survive every interleaving; single use does not survive (the root
  theory shows the run).
\<close>

text \<open>
  Concurrent registrations: \<open>is_valid()\<close> runs on the database as it is when
  the request reads it, and \<open>save()\<close> runs later, on the database as it is
  then, with the validated data (and the invitation instance) read before.
  No row is locked in between.
\<close>

inductive conc_reachable :: "config \<Rightarrow> db \<Rightarrow> db \<Rightarrow> reg_data list \<Rightarrow> bool" for cfg d0 where
  conc_init: "conc_reachable cfg d0 d0 []"
| conc_step: "conc_reachable cfg d0 d ps \<Longrightarrow> conc_reachable cfg d0 (step cfg d r) ps"
| conc_validate: "conc_reachable cfg d0 d ps \<Longrightarrow> reg_is_valid cfg d data = Inr vd \<Longrightarrow>
                  conc_reachable cfg d0 d (ps @ [vd])"
| conc_save: "conc_reachable cfg d0 d (ps @ vd # qs) \<Longrightarrow> reg_create d vd = Inr (u, d') \<Longrightarrow>
              conc_reachable cfg d0 d' (ps @ qs)"
| conc_save_fail: "conc_reachable cfg d0 d (ps @ vd # qs) \<Longrightarrow> reg_create d vd = Inl e \<Longrightarrow>
                   conc_reachable cfg d0 d (ps @ qs)"

text \<open>An invitation row with the key, code and creator of \<open>i\<close> is stored.\<close>

definition row_present :: "db \<Rightarrow> invitation \<Rightarrow> bool" where
  "row_present d i \<longleftrightarrow>
     (\<exists>j \<in> set (invites d). inv_pk j = inv_pk i \<and> code j = code i \<and> created_by j = created_by i)"

definition rows_kept :: "db \<Rightarrow> db \<Rightarrow> bool" where
  "rows_kept d d' \<longleftrightarrow> (\<forall>i \<in> set (invites d). row_present d' i)"

definition pending_ok :: "db \<Rightarrow> reg_data list \<Rightarrow> bool" where
  "pending_ok d ps \<longleftrightarrow> (\<forall>vd \<in> set ps. \<forall>i. snd vd = Some i \<longrightarrow> row_present d i)"

subsection \<open>Lemmas\<close>

lemma row_present_mem [intro]: "i \<in> set (invites d) \<Longrightarrow> row_present d i"
  by (auto simp: row_present_def)

lemma row_present_kept: "rows_kept d d' \<Longrightarrow> row_present d i \<Longrightarrow> row_present d' i"
  by (fastforce simp: rows_kept_def row_present_def)

lemma rows_kept_trans: "rows_kept d d1 \<Longrightarrow> rows_kept d1 d2 \<Longrightarrow> rows_kept d d2"
  by (auto simp: rows_kept_def intro: row_present_kept)

lemma rows_kept_subset: "set (invites d) \<subseteq> set (invites d') \<Longrightarrow> rows_kept d d'"
  by (auto simp: rows_kept_def)

lemma save_invitation_rows_kept:
  assumes "db_constraints d" and "j \<in> set (invites d)" and "inv_pk r = inv_pk j" and "code r = code j"
    and "created_by r = created_by j"
  shows "rows_kept d (save_invitation d r)"
  unfolding rows_kept_def
proof
  fix x assume x: "x \<in> set (invites d)"
  show "row_present (save_invitation d r) x"
  proof (cases "inv_pk x = inv_pk r")
    case True
    with assms(1-3) x have "x = j" by (auto simp: db_constraints_def dest: distinct_map_eqD)
    moreover have "r \<in> set (invites (save_invitation d r))"
      using assms(2,3) by (simp add: save_invitation_def replace_by_mem)
    ultimately show ?thesis using True assms(4,5) by (auto simp: row_present_def)
  next
    case False
    with x have "x \<in> set (invites (save_invitation d r))"
      by (simp add: save_invitation_def replace_by_other)
    then show ?thesis by (rule row_present_mem)
  qed
qed

text \<open>Saving a registration validated earlier, on the database as it is now.\<close>

lemma reg_create_pending:
  assumes "db_constraints d" and "\<forall>i. io = Some i \<longrightarrow> row_present d i"
    and "reg_create d (a, io) = Inr (u, d')"
  shows "db_constraints d' \<and> rows_kept d d'"
proof -
  from reg_create_steps [OF assms(3)] obtain d1 where cu: "create_user d (fstr (attr a ''email''))
        (fstr (attr a ''password'')) (fstr (attr a ''first_name'')) (fstr (attr a ''last_name''))
        (get_str a ''patronymic'' []) (fstr (attr a ''role'')) (io \<noteq> None) (io \<noteq> None) = Inr (u, d1)"
    and d': "d' = (case io of None \<Rightarrow> d1 | Some i \<Rightarrow> save_invitation d1 (i\<lparr>used_by := Some (user_pk u)\<rparr>))"
    by blast
  have c1: "db_constraints d1" using assms(1) cu by (rule create_user_constraints)
  have d1: "invites d1 = invites d" "users d1 = users d @ [u]" using cu by (auto simp: create_user_Inr)
  then have k1: "rows_kept d d1" by (simp add: rows_kept_subset)
  show ?thesis
  proof (cases io)
    case None
    with c1 k1 d' show ?thesis by simp
  next
    case (Some i)
    with assms(2) d1 obtain j where j: "j \<in> set (invites d1)" "inv_pk j = inv_pk i" "code j = code i"
      "created_by j = created_by i"
      by (auto simp: row_present_def)
    let ?r = "i\<lparr>used_by := Some (user_pk u)\<rparr>"
    have "db_constraints (save_invitation d1 ?r)"
      by (rule save_invitation_constraints [OF c1 j(1)]) (use j d1 in auto)
    moreover have "rows_kept d1 (save_invitation d1 ?r)"
      by (rule save_invitation_rows_kept [OF c1 j(1)]) (use j in auto)
    ultimately show ?thesis using Some d' k1 by (auto intro: rows_kept_trans)
  qed
qed

lemma reg_is_valid_invitation:
  "reg_is_valid cfg d data = Inr (a, Some i) \<Longrightarrow> i \<in> set (invites d)"
  by (auto simp: reg_is_valid_def split: sum.splits dest: reg_validate_Inr(3))

lemma step_rows_kept:
  assumes "db_constraints d"
  shows "rows_kept d (step cfg d r)"
proof (cases "\<exists>data. r = Register data")
  case True
  then obtain data where r: "r = Register data" by blast
  show ?thesis
  proof (cases "register cfg d data")
    case (Inr x)
    obtain u d' where x: "x = (u, d')" by (cases x)
    with Inr obtain a io where rv: "reg_is_valid cfg d data = Inr (a, io)"
      and rc: "reg_create d (a, io) = Inr (u, d')"
      by (auto simp: register_def split: sum.splits)
    have "\<forall>i. io = Some i \<longrightarrow> row_present d i"
      using rv by (auto dest: reg_is_valid_invitation)
    with reg_create_pending [OF assms this rc] r Inr x show ?thesis by simp
  qed (simp add: r rows_kept_subset)
next
  case False
  then have "kept d (step cfg d r)" by (blast intro: step_kept)
  then show ?thesis by (simp add: kept_def rows_kept_subset)
qed

lemma pending_ok_kept: "pending_ok d ps \<Longrightarrow> rows_kept d d' \<Longrightarrow> pending_ok d' ps"
  by (auto simp: pending_ok_def intro: row_present_kept)

subsection \<open>Properties of concurrent runs\<close>

text \<open>
  C4. Whatever the interleaving of registrations with the other requests, the
  database keeps its schema constraints (unique keys, emails and codes, the
  foreign keys), and the invitation of every pending registration is still
  stored with its key, code and creator: the race costs single use, not
  consistency of the tables.
\<close>

theorem conc_invariant:
  assumes "db_constraints d0" and "cfg_ok cfg" and "conc_reachable cfg d0 d ps"
  shows "db_constraints d \<and> pending_ok d ps"
  using assms(3)
proof (induction rule: conc_reachable.induct)
  case conc_init
  from assms(1) show ?case by (simp add: pending_ok_def)
next
  case (conc_step d ps r)
  then show ?case
    using step_db_constraints [OF _ assms(2)] step_rows_kept by (blast intro: pending_ok_kept)
next
  case (conc_validate d ps data vd)
  then show ?case
    by (cases vd) (auto simp: pending_ok_def dest: reg_is_valid_invitation)
next
  case (conc_save d ps vd qs u d')
  obtain a io where vd: "vd = (a, io)" by (cases vd)
  from conc_save.IH have "\<forall>i. io = Some i \<longrightarrow> row_present d i"
    by (auto simp: pending_ok_def vd)
  from reg_create_pending [OF _ this] conc_save.IH conc_save.hyps(2)
  have "db_constraints d' \<and> rows_kept d d'" by (simp add: vd)
  moreover have "pending_ok d (ps @ qs)" using conc_save.IH by (auto simp: pending_ok_def)
  ultimately show ?case by (blast intro: pending_ok_kept)
next
  case (conc_save_fail d ps vd qs e)
  then show ?case by (auto simp: pending_ok_def)
qed

end
