(* ===== verification/Abstract_Accounts.thy ===== *)
theory Abstract_Accounts
  imports System
begin

text \<open>
  What the account endpoints promise, stated without tables, keys or
  serializers: a set of accounts (email, role, whether the role is confirmed),
  the invitation tokens not yet used (code, role, expiry), the codes redeemed
  and by which email, and a clock. An account is opened without a token
  (unconfirmed) or by redeeming an unexpired token for its role (confirmed),
  which moves the token to the redeemed codes; a token is issued under a code
  never seen before; time passes; every other request changes nothing
  observable here. \<open>abs_db\<close> reads this state off the database, and the
  request system of \<open>System\<close> refines the abstract machine: each request is
  one abstract event.
\<close>

subsection \<open>The abstract machine\<close>

record acct_state =
  accounts :: "(string \<times> string \<times> bool) set"
  tokens :: "(nat \<times> string \<times> time option) set"
  redeemed :: "(nat \<times> string) set"
  clock :: time

definition unexpired :: "time \<Rightarrow> time option \<Rightarrow> bool" where
  "unexpired t x = (case x of None \<Rightarrow> True | Some e \<Rightarrow> t < e)"

inductive acct_step :: "acct_state \<Rightarrow> acct_state \<Rightarrow> bool" where
  join_plain: "e \<notin> fst ` accounts s \<Longrightarrow>
    acct_step s (s\<lparr>accounts := insert (e, r, False) (accounts s)\<rparr>)"
| join_code: "e \<notin> fst ` accounts s \<Longrightarrow> (c, r, x) \<in> tokens s \<Longrightarrow> unexpired (clock s) x \<Longrightarrow>
    acct_step s (s\<lparr>accounts := insert (e, r, True) (accounts s), tokens := tokens s - {(c, r, x)},
                   redeemed := insert (c, e) (redeemed s)\<rparr>)"
| issue: "c \<notin> fst ` tokens s \<Longrightarrow> c \<notin> fst ` redeemed s \<Longrightarrow>
    acct_step s (s\<lparr>tokens := insert (c, r, x) (tokens s)\<rparr>)"
| tick: "acct_step s (s\<lparr>clock := clock s + n\<rparr>)"
| stay: "acct_step s s"

inductive acct_reach :: "acct_state \<Rightarrow> acct_state \<Rightarrow> bool" for s0 where
  acct_init: "acct_reach s0 s0"
| acct_next: "acct_reach s0 s \<Longrightarrow> acct_step s s' \<Longrightarrow> acct_reach s0 s'"

subsection \<open>The abstraction of a database\<close>

text \<open>What of a user the abstract state sees: key, email, role, confirmation.\<close>

definition user_view :: "db \<Rightarrow> (user_id \<times> string \<times> string \<times> bool) list" where
  "user_view d = map (\<lambda>u. (user_pk u, email u, role u, is_role_confirmed u)) (users d)"

definition abs_db :: "db \<Rightarrow> acct_state" where
  "abs_db d =
     \<lparr>accounts = (\<lambda>(k, e, r, c). (e, r, c)) ` set (user_view d),
      tokens = (\<lambda>i. (code i, inv_role i, expires_at i)) ` Set.filter (\<lambda>i. used_by i = None) (set (invites d)),
      redeemed = (\<Union>i \<in> set (invites d).
                    (\<lambda>(k, e, r, c). (code i, e)) ` Set.filter (\<lambda>v. used_by i = Some (fst v)) (set (user_view d))),
      clock = now d\<rparr>"

text \<open>Every account opened in a run from \<open>s0\<close> with a confirmed role redeemed a code.\<close>

subsection \<open>Lemmas on the abstraction\<close>

lemma mem_accounts:
  "a \<in> accounts (abs_db d) \<longleftrightarrow> (\<exists>u \<in> set (users d). a = (email u, role u, is_role_confirmed u))"
  by (simp add: abs_db_def user_view_def image_image image_iff)

lemma mem_tokens:
  "t \<in> tokens (abs_db d) \<longleftrightarrow> (\<exists>i \<in> set (invites d). used_by i = None \<and> t = (code i, inv_role i, expires_at i))"
  by (auto simp: abs_db_def)

lemma mem_redeemed:
  "p \<in> redeemed (abs_db d) \<longleftrightarrow>
     (\<exists>i \<in> set (invites d). \<exists>u \<in> set (users d). used_by i = Some (user_pk u) \<and> p = (code i, email u))"
proof
  assume "p \<in> redeemed (abs_db d)"
  then show "\<exists>i \<in> set (invites d). \<exists>u \<in> set (users d). used_by i = Some (user_pk u) \<and> p = (code i, email u)"
    by (auto simp: abs_db_def user_view_def) blast
next
  assume "\<exists>i \<in> set (invites d). \<exists>u \<in> set (users d). used_by i = Some (user_pk u) \<and> p = (code i, email u)"
  then obtain i u where iu: "i \<in> set (invites d)" "u \<in> set (users d)" "used_by i = Some (user_pk u)"
    "p = (code i, email u)" by blast
  let ?v = "(user_pk u, email u, role u, is_role_confirmed u)"
  have mv: "?v \<in> Set.filter (\<lambda>v. used_by i = Some (fst v)) (set (user_view d))"
    using iu by (simp add: user_view_def)
  have "p \<in> (\<lambda>(k, e, r, c). (code i, e)) ` Set.filter (\<lambda>v. used_by i = Some (fst v)) (set (user_view d))"
    by (rule image_eqI [where x = ?v]) (simp add: iu(4), rule mv)
  with iu(1) have "p \<in> (\<Union>i \<in> set (invites d).
      (\<lambda>(k, e, r, c). (code i, e)) ` Set.filter (\<lambda>v. used_by i = Some (fst v)) (set (user_view d)))"
    by (rule UN_I)
  then show "p \<in> redeemed (abs_db d)" by (simp add: abs_db_def)
qed

lemma clock_abs_db [simp]: "clock (abs_db d) = now d"
  by (simp add: abs_db_def)

lemma abs_db_eq:
  "user_view d' = user_view d \<Longrightarrow> invites d' = invites d \<Longrightarrow> now d' = now d \<Longrightarrow> abs_db d' = abs_db d"
  by (simp add: abs_db_def)

lemma user_view_replace:
  assumes "db_constraints d" and "u \<in> set (users d)" and "user_pk u' = user_pk u" and "email u' = email u"
    and "role u' = role u" and "is_role_confirmed u' = is_role_confirmed u"
  shows "map (\<lambda>u. (user_pk u, email u, role u, is_role_confirmed u)) (replace_by user_pk u' (users d))
           = user_view d"
proof -
  have dpk: "distinct (map user_pk (users d))" using assms(1) by (simp add: db_constraints_def)
  have "x = u" if "x \<in> set (users d)" "user_pk x = user_pk u'" for x
    using distinct_map_eqD [OF dpk that(1) assms(2)] that(2) assms(3) by simp
  then have "\<forall>x \<in> set (users d). user_pk x = user_pk u' \<longrightarrow>
          (user_pk x, email x, role x, is_role_confirmed x) = (user_pk u', email u', role u', is_role_confirmed u')"
    using assms(3-6) by auto
  then show ?thesis by (simp add: user_view_def map_replace_by_same)
qed

lemma abs_update:
  assumes "db_constraints d" and "u \<in> set (users d)"
    and "update_profile_request cfg d u partial data = (r, d')"
  shows "abs_db d' = abs_db d"
proof -
  note f = update_profile_request_frame [OF assms(3)]
  have "user_view d' = user_view d"
  proof (cases "users d' = users d")
    case True
    then show ?thesis by (simp add: user_view_def)
  next
    case False
    with f obtain a where w: "fst ` set a \<inter> set user_read_only_fields = {}"
      and e: "users d' = replace_by user_pk (foldl set_user_attr u a) (users d)" by blast
    with user_view_replace [OF assms(1,2)] show ?thesis
      using foldl_set_user_attr_ro [OF w, of u] by (simp add: user_view_def)
  qed
  with f show ?thesis by (intro abs_db_eq) auto
qed

lemma abs_change_password:
  assumes "db_constraints d" and "u \<in> set (users d)" and "change_password cfg d u data = Inr (u', d')"
  shows "abs_db d' = abs_db d"
proof -
  from change_password_Inr_D [OF assms(3)] obtain raw where
    u': "u' = set_password u raw" and d': "d' = save_user d u'" by blast
  have "user_view d' = user_view d"
    using user_view_replace [OF assms(1,2), of u'] u' d' by (simp add: user_view_def save_user_def)
  with d' show ?thesis by (intro abs_db_eq) (simp_all add: save_user_def)
qed

lemma abs_tick: "abs_db (d\<lparr>now := now d + n\<rparr>) = (abs_db d)\<lparr>clock := clock (abs_db d) + n\<rparr>"
  by (simp add: abs_db_def user_view_def)

lemma abs_issue:
  assumes "issue_invitation cfg d ru rnd data = Inr (i, d')"
  shows "abs_db d' = (abs_db d)\<lparr>tokens := insert (code i, inv_role i, expires_at i) (tokens (abs_db d))\<rparr>"
    and "code i \<notin> fst ` tokens (abs_db d)" and "code i \<notin> fst ` redeemed (abs_db d)"
proof -
  from assms obtain vd where "vd_code vd = None" and "inv_create d ru rnd vd = Inr (i, d')"
    by (rule issue_invitation_Inr)
  then have i: "used_by i = None" "code i \<notin> code ` set (invites d)"
    and d': "d' = d\<lparr>invites := invites d @ [i], next_inv_pk := Suc (next_inv_pk d)\<rparr>"
    by (auto simp: inv_create_Inr)
  have "tokens (abs_db d') = insert (code i, inv_role i, expires_at i) (tokens (abs_db d))"
    using d' i(1) by (auto simp: set_eq_iff mem_tokens)
  moreover have "redeemed (abs_db d') = redeemed (abs_db d)"
    using d' i(1) by (auto simp: set_eq_iff mem_redeemed)
  moreover have "accounts (abs_db d') = accounts (abs_db d)" "clock (abs_db d') = clock (abs_db d)"
    using d' by (simp_all add: abs_db_def user_view_def)
  ultimately show "abs_db d' = (abs_db d)\<lparr>tokens := insert (code i, inv_role i, expires_at i) (tokens (abs_db d))\<rparr>"
    by (intro acct_state.equality) (simp_all add: abs_db_def)
  from i(2) show "code i \<notin> fst ` tokens (abs_db d)" "code i \<notin> fst ` redeemed (abs_db d)"
    by (auto simp: mem_tokens mem_redeemed)
qed

lemma abs_register:
  assumes "db_constraints d" and "register cfg d data = Inr (u, d')"
  shows "acct_step (abs_db d) (abs_db d')"
proof -
  from assms(2) obtain attrs a io where rv: "reg_validate cfg d attrs = Inr (a, io)"
    and rc: "reg_create d (a, io) = Inr (u, d')"
    by (rule register_Inr_D)
  note c = reg_create_Inr [OF rc]
  have pk_lt: "\<forall>w \<in> set (users d). user_pk w \<noteq> user_pk u"
    using assms(1) c(1) by (auto simp: db_constraints_def)
  have fresh_pk: "\<forall>x \<in> set (invites d). used_by x \<noteq> Some (user_pk u)"
    using assms(1) pk_lt by (fastforce simp: db_constraints_def)
  have e: "email u \<notin> fst ` accounts (abs_db d)"
    using c(7) by (force simp: mem_accounts)
  have acc: "accounts (abs_db d') = insert (email u, role u, is_role_confirmed u) (accounts (abs_db d))"
    using c(8) by (auto simp: set_eq_iff mem_accounts)
  have clk: "clock (abs_db d') = clock (abs_db d)" using c(10) by simp
  show ?thesis
  proof (cases io)
    case None
    have "tokens (abs_db d') = tokens (abs_db d)" using c(13) None by (simp add: abs_db_def)
    moreover have "redeemed (abs_db d') = redeemed (abs_db d)"
      using c(8,13) None fresh_pk by (auto simp: set_eq_iff mem_redeemed)
    ultimately have "abs_db d' = (abs_db d)\<lparr>accounts := insert (email u, role u, False) (accounts (abs_db d))\<rparr>"
      using acc clk c(6) None by (intro acct_state.equality) (simp_all add: abs_db_def)
    with e show ?thesis by (simp add: join_plain)
  next
    case (Some i)
    from reg_validate_Inr(3) [OF rv Some] have i: "i \<in> set (invites d)" "is_valid (now d) i"
      "attr attrs ''role'' = Val (inv_role i)" by auto
    have a: "a = reg_cleanup attrs" using rv by (rule reg_validate_Inr)
    have role: "role u = inv_role i" using c(3) i(3) a by simp
    have unused: "used_by i = None" and unexp: "unexpired (now d) (expires_at i)"
      using i(2) by (auto simp: is_valid_def unexpired_def)
    let ?i' = "i\<lparr>used_by := Some (user_pk u)\<rparr>"
    have inv': "set (invites d') = insert ?i' (set (invites d) - {i})"
      using c(13) Some assms(1) i(1)
      by (simp add: set_replace_by_distinct db_constraints_def)
    have dc: "\<forall>x \<in> set (invites d). code x = code i \<longrightarrow> x = i"
      using assms(1) i(1) by (auto simp: db_constraints_def dest: distinct_map_eqD)
    have "tokens (abs_db d') = tokens (abs_db d) - {(code i, inv_role i, expires_at i)}"
      using inv' dc unused by (auto simp: set_eq_iff mem_tokens)
    moreover have "redeemed (abs_db d') = insert (code i, email u) (redeemed (abs_db d))"
    proof (rule set_eqI)
      fix p
      show "p \<in> redeemed (abs_db d') \<longleftrightarrow> p \<in> insert (code i, email u) (redeemed (abs_db d))"
      proof
        assume "p \<in> redeemed (abs_db d')"
        then obtain x w where x: "x \<in> set (invites d')" and w: "w \<in> set (users d')"
          and xw: "used_by x = Some (user_pk w)" "p = (code x, email w)"
          by (auto simp: mem_redeemed)
        show "p \<in> insert (code i, email u) (redeemed (abs_db d))"
        proof (cases "x = ?i'")
          case True
          with xw(1) pk_lt w c(8) have "w = u" by auto
          with True xw(2) show ?thesis by simp
        next
          case False
          with x inv' have x': "x \<in> set (invites d)" by auto
          with xw(1) fresh_pk have "w \<noteq> u" by auto
          with w c(8) have "w \<in> set (users d)" by simp
          with x' xw show ?thesis by (auto simp: mem_redeemed)
        qed
      next
        assume "p \<in> insert (code i, email u) (redeemed (abs_db d))"
        then consider "p = (code i, email u)" | "p \<in> redeemed (abs_db d)" by blast
        then show "p \<in> redeemed (abs_db d')"
        proof cases
          case 1
          have mi: "?i' \<in> set (invites d')" and mu: "u \<in> set (users d')" using inv' c(8) by auto
          have "\<exists>x \<in> set (invites d'). \<exists>w \<in> set (users d'). used_by x = Some (user_pk w) \<and> p = (code x, email w)"
            by (rule bexI [OF _ mi], rule bexI [OF _ mu]) (simp add: 1)
          then show ?thesis by (simp only: mem_redeemed)
        next
          case 2
          then obtain x w where x: "x \<in> set (invites d)" and w: "w \<in> set (users d)"
            and xw: "used_by x = Some (user_pk w)" "p = (code x, email w)"
            by (auto simp: mem_redeemed)
          from xw(1) unused have "x \<noteq> i" by auto
          with x inv' have "x \<in> set (invites d')" by auto
          moreover from w c(8) have "w \<in> set (users d')" by simp
          ultimately show ?thesis using xw by (auto simp: mem_redeemed)
        qed
      qed
    qed
    ultimately have "abs_db d' = (abs_db d)\<lparr>accounts := insert (email u, inv_role i, True) (accounts (abs_db d)),
        tokens := tokens (abs_db d) - {(code i, inv_role i, expires_at i)},
        redeemed := insert (code i, email u) (redeemed (abs_db d))\<rparr>"
      using acc clk c(6) Some role by (intro acct_state.equality) (simp_all add: abs_db_def)
    moreover have "(code i, inv_role i, expires_at i) \<in> tokens (abs_db d)"
      using i(1) unused by (auto simp: mem_tokens)
    ultimately show ?thesis using e unexp by (simp add: join_code)
  qed
qed

subsection \<open>The request system refines the abstract machine\<close>

text \<open>
  C6. Every request, whatever its outcome, is one event of the abstract account
  machine on the abstraction of the database: a registration opens an account
  (redeeming the presented token exactly when it confirms the role), an issue
  adds a fresh token, time passes, and a profile edit, a password change or a
  failed request changes nothing the abstract state observes.
\<close>

theorem step_refines:
  assumes "db_constraints d"
  shows "acct_step (abs_db d) (abs_db (step cfg d r))"
proof (cases r)
  case (Register data)
  show ?thesis
  proof (cases "register cfg d data")
    case (Inr x)
    obtain u d' where x: "x = (u, d')" by (cases x)
    with Inr assms Register show ?thesis by (simp add: abs_register)
  qed (simp add: Register stay)
next
  case (UpdateProfile k partial data)
  show ?thesis
  proof (cases "authenticated d k")
    case (Some u)
    obtain r' d' where e: "update_profile_request cfg d u partial data = (r', d')" by fastforce
    have "u \<in> set (users d)" using Some by (blast dest: authenticated_D)
    from abs_update [OF assms this e] Some e UpdateProfile show ?thesis by (simp add: stay)
  qed (simp add: UpdateProfile stay)
next
  case (ChangePassword k data)
  show ?thesis
  proof (cases "authenticated d k")
    case (Some u)
    have u: "u \<in> set (users d)" using Some by (blast dest: authenticated_D)
    show ?thesis
    proof (cases "change_password cfg d u data")
      case (Inr x)
      obtain u' d' where x: "x = (u', d')" by (cases x)
      with Inr abs_change_password [OF assms u] Some ChangePassword show ?thesis by (simp add: stay)
    qed (simp add: Some ChangePassword stay)
  qed (simp add: ChangePassword stay)
next
  case (IssueInvite k rnd data)
  show ?thesis
  proof (cases "authenticated d k")
    case (Some u)
    show ?thesis
    proof (cases "issue_invitation cfg d u rnd data")
      case (Inr x)
      obtain i d' where x: "x = (i, d')" by (cases x)
      with Inr have iss: "issue_invitation cfg d u rnd data = Inr (i, d')" by simp
      from abs_issue [OF iss] Some IssueInvite iss show ?thesis by (simp add: issue)
    qed (simp add: Some IssueInvite stay)
  qed (simp add: IssueInvite stay)
next
  case (Tick n)
  have "acct_step (abs_db d) ((abs_db d)\<lparr>clock := clock (abs_db d) + n\<rparr>)" by (rule tick)
  with Tick show ?thesis by (simp only: abs_tick [symmetric]) simp
qed

text \<open>
  C5. Hence every database a run of requests reaches from a consistent one is
  the concrete form of a state the abstract machine reaches: the sequential
  system refines the abstract specification.
\<close>

theorem reachable_refines:
  assumes "db_constraints d0" and "cfg_ok cfg" and "reachable cfg d0 d"
  shows "acct_reach (abs_db d0) (abs_db d)"
proof -
  from assms(3) have "db_constraints d \<and> acct_reach (abs_db d0) (abs_db d)"
  proof (induction rule: reachable.induct)
    case reach_init
    from assms(1) show ?case by (simp add: acct_init)
  next
    case (reach_step d r)
    then show ?case
      using step_db_constraints [OF _ assms(2)] step_refines by (blast intro: acct_next)
  qed
  then show ?thesis ..
qed

end
