(* ===== verification/Lost_Update.thy ===== *)
theory Lost_Update
  imports System
begin

text \<open>
  Authenticated requests running concurrently. An authenticated request works on
  the user instance that authentication loaded at its start
  (\<open>request.user\<close>), and both writes of a user row in serializers.py save
  that whole instance: \<open>super().update(instance, validated_data)\<close> ends in
  \<open>instance.save()\<close> (line 59), and \<open>ChangePasswordSerializer.save\<close> in
  \<open>user.save()\<close> (line 164), neither with \<open>update_fields\<close>. A request that
  has authenticated and not yet finished is pending with its snapshot of the
  user; other requests run in between. The schema constraints survive every
  interleaving, and every snapshot keeps agreeing with its row on the columns
  no endpoint writes; the columns the endpoints do write (names, password) can
  be overwritten with stale values, which the root theory shows on two runs.
\<close>

subsection \<open>Pending requests\<close>

text \<open>The body of an authenticated request that writes the user row.\<close>

datatype pending_op = Upd bool payload | Cp payload

text \<open>Finishing a pending request on the database as it is now, with the snapshot read before.\<close>

fun finish :: "config \<Rightarrow> db \<Rightarrow> user \<Rightarrow> pending_op \<Rightarrow> db" where
  "finish cfg d u (Upd partial data) = snd (update_profile_request cfg d u partial data)"
| "finish cfg d u (Cp data) = (case change_password cfg d u data of Inr (_, d') \<Rightarrow> d' | Inl _ \<Rightarrow> d)"

inductive inter_reachable :: "config \<Rightarrow> db \<Rightarrow> db \<Rightarrow> (user \<times> pending_op) list \<Rightarrow> bool" for cfg d0 where
  inter_init: "inter_reachable cfg d0 d0 []"
| inter_step: "inter_reachable cfg d0 d ps \<Longrightarrow> inter_reachable cfg d0 (step cfg d r) ps"
| inter_auth: "inter_reachable cfg d0 d ps \<Longrightarrow> authenticated d k = Some u \<Longrightarrow>
               inter_reachable cfg d0 d (ps @ [(u, op)])"
| inter_finish: "inter_reachable cfg d0 d (ps @ (u, op) # qs) \<Longrightarrow>
                 inter_reachable cfg d0 (finish cfg d u op) (ps @ qs)"

text \<open>Two instances of one user agree on the columns no endpoint writes.\<close>

definition ro_eq :: "user \<Rightarrow> user \<Rightarrow> bool" where
  "ro_eq x y \<longleftrightarrow> user_pk x = user_pk y \<and> email x = email y \<and> role x = role y \<and>
     is_active x = is_active y \<and> is_role_confirmed x = is_role_confirmed y \<and> date_joined x = date_joined y"

definition snap_ok :: "db \<Rightarrow> user \<Rightarrow> bool" where
  "snap_ok d u \<longleftrightarrow> (\<exists>r \<in> set (users d). ro_eq r u)"

subsection \<open>Lemmas\<close>

lemma ro_eq_refl [simp]: "ro_eq u u"
  by (simp add: ro_eq_def)

lemma ro_eq_sym: "ro_eq x y \<Longrightarrow> ro_eq y x"
  by (simp add: ro_eq_def)

lemma ro_eq_trans: "ro_eq x y \<Longrightarrow> ro_eq y z \<Longrightarrow> ro_eq x z"
  by (simp add: ro_eq_def)

lemma ro_eq_set_password [simp]: "ro_eq (set_password u raw) u"
  by (simp add: ro_eq_def set_password_def)

lemma ro_eq_foldl_set_user_attr:
  "fst ` set a \<inter> set user_read_only_fields = {} \<Longrightarrow> ro_eq (foldl set_user_attr u a) u"
  by (simp add: ro_eq_def foldl_set_user_attr_ro)

lemma snap_ok_mem [intro]: "u \<in> set (users d) \<Longrightarrow> snap_ok d u"
  unfolding snap_ok_def by (rule bexI [where x = u]) simp_all

lemma snap_ok_users: "users d' = users d \<Longrightarrow> snap_ok d x \<Longrightarrow> snap_ok d' x"
  by (simp add: snap_ok_def)

lemma snap_ok_append: "snap_ok d x \<Longrightarrow> users d' = users d @ [u] \<Longrightarrow> snap_ok d' x"
  by (auto simp: snap_ok_def)

lemma snap_ok_ro_eq: "snap_ok d u \<Longrightarrow> ro_eq u' u \<Longrightarrow> snap_ok d u'"
  by (auto simp: snap_ok_def intro: ro_eq_trans ro_eq_sym)

text \<open>The request paths of \<^const>\<open>step\<close> that write a user row are an authentication followed at once by \<^const>\<open>finish\<close>.\<close>

lemma step_finish:
  "step cfg d (UpdateProfile k partial data) =
     (case authenticated d k of None \<Rightarrow> d | Some u \<Rightarrow> finish cfg d u (Upd partial data))"
  "step cfg d (ChangePassword k data) =
     (case authenticated d k of None \<Rightarrow> d | Some u \<Rightarrow> finish cfg d u (Cp data))"
  by (simp_all split: option.splits sum.splits)

text \<open>Saving an instance that agrees with a stored row keeps every other snapshot's agreement.\<close>

lemma save_user_snap:
  assumes "db_constraints d" and "snap_ok d u'" and "snap_ok d x"
  shows "snap_ok (save_user d u') x"
proof -
  from assms(2) obtain r0 where r0: "r0 \<in> set (users d)" "ro_eq r0 u'" by (auto simp: snap_ok_def)
  from assms(3) obtain r where r: "r \<in> set (users d)" "ro_eq r x" by (auto simp: snap_ok_def)
  have dist: "distinct (map user_pk (users d))" using assms(1) by (simp add: db_constraints_def)
  show ?thesis
  proof (cases "user_pk r = user_pk u'")
    case True
    with r0(2) have "user_pk r = user_pk r0" by (simp add: ro_eq_def)
    with dist r(1) r0(1) have "r = r0" by (rule distinct_map_eqD)
    with r(2) r0(2) have "ro_eq u' x" by (blast intro: ro_eq_trans ro_eq_sym)
    moreover have "u' \<in> set (users (save_user d u'))"
      using r0 by (simp add: save_user_def replace_by_mem ro_eq_def)
    ultimately show ?thesis by (auto simp: snap_ok_def)
  next
    case False
    with r(1) have "r \<in> set (users (save_user d u'))" by (simp add: save_user_def replace_by_other)
    with r(2) show ?thesis by (auto simp: snap_ok_def)
  qed
qed

text \<open>Finishing a request leaves the user table alone or saves an instance that agrees with the snapshot.\<close>

lemma finish_users:
  "users (finish cfg d u op) = users d \<or>
   (\<exists>u'. ro_eq u' u \<and> users (finish cfg d u op) = users (save_user d u'))"
proof (cases op)
  case (Upd partial data)
  obtain r d' where e: "update_profile_request cfg d u partial data = (r, d')" by fastforce
  from update_profile_request_frame [OF e]
  have "users d' = users d \<or> (\<exists>a. fst ` set a \<inter> set user_read_only_fields = {} \<and>
                                  users d' = replace_by user_pk (foldl set_user_attr u a) (users d))"
    by blast
  then show ?thesis
  proof
    assume "users d' = users d"
    with Upd e show ?thesis by simp
  next
    assume "\<exists>a. fst ` set a \<inter> set user_read_only_fields = {} \<and>
                users d' = replace_by user_pk (foldl set_user_attr u a) (users d)"
    then obtain a where w: "fst ` set a \<inter> set user_read_only_fields = {}"
      and "users d' = users (save_user d (foldl set_user_attr u a))"
      by (auto simp: save_user_def)
    with Upd e show ?thesis by (metis ro_eq_foldl_set_user_attr finish.simps(1) snd_conv)
  qed
next
  case (Cp data)
  show ?thesis
  proof (cases "change_password cfg d u data")
    case (Inr y)
    obtain u'' d'' where y: "y = (u'', d'')" by (cases y)
    with Inr obtain raw where "d'' = save_user d (set_password u raw)"
      by (blast dest: change_password_Inr_D)
    with Cp Inr y show ?thesis by (metis ro_eq_set_password finish.simps(2) sum.simps(6) case_prod_conv)
  qed (simp add: Cp)
qed

lemma finish_snap:
  assumes "db_constraints d" and "snap_ok d u" and "snap_ok d x"
  shows "snap_ok (finish cfg d u op) x"
  using finish_users [of cfg d u op]
proof
  assume "users (finish cfg d u op) = users d"
  from this assms(3) show ?thesis by (rule snap_ok_users)
next
  assume "\<exists>u'. ro_eq u' u \<and> users (finish cfg d u op) = users (save_user d u')"
  then obtain u' where u': "ro_eq u' u" and e: "users (finish cfg d u op) = users (save_user d u')" by blast
  have "snap_ok (save_user d u') x"
    using assms(1) snap_ok_ro_eq [OF assms(2) u'] assms(3) by (rule save_user_snap)
  with e show ?thesis by (rule snap_ok_users)
qed

lemma finish_constraints:
  assumes "db_constraints d" and "snap_ok d u"
  shows "db_constraints (finish cfg d u op)"
proof -
  from assms(2) obtain r0 where r0: "r0 \<in> set (users d)" "ro_eq r0 u" by (auto simp: snap_ok_def)
  then have k: "user_pk u = user_pk r0" "email u = email r0" by (simp_all add: ro_eq_def)
  show ?thesis
  proof (cases op)
    case (Upd partial data)
    obtain r d' where e: "update_profile_request cfg d u partial data = (r, d')" by fastforce
    from update_profile_constraints [OF assms(1) r0(1) k e] Upd e show ?thesis by simp
  next
    case (Cp data)
    with assms(1) r0(1) k show ?thesis
      by (auto split: sum.splits dest!: change_password_Inr_D intro: save_user_constraints)
  qed
qed

lemma issue_invitation_users: "issue_invitation cfg d ru rnd data = Inr (i, d') \<Longrightarrow> users d' = users d"
  by (erule issue_invitation_Inr) (auto simp: inv_create_Inr)

lemma step_snap:
  assumes "db_constraints d" and "snap_ok d x"
  shows "snap_ok (step cfg d r) x"
proof (cases r)
  case (Register data)
  show ?thesis
  proof (cases "register cfg d data")
    case (Inr y)
    obtain u d' where y: "y = (u, d')" by (cases y)
    with Inr obtain a io where "reg_create d (a, io) = Inr (u, d')" by (blast elim: register_Inr_D)
    then have "users d' = users d @ [u]" by (rule reg_create_Inr(8))
    with assms(2) Register Inr y show ?thesis by (simp add: snap_ok_append)
  qed (use assms Register in simp)
next
  case (UpdateProfile k partial data)
  show ?thesis
  proof (cases "authenticated d k")
    case (Some u)
    then have "snap_ok d u" by (blast dest: authenticated_D)
    from finish_snap [OF assms(1) this assms(2)] Some UpdateProfile show ?thesis
      by (simp only: step_finish option.case)
  qed (use assms UpdateProfile in simp)
next
  case (ChangePassword k data)
  show ?thesis
  proof (cases "authenticated d k")
    case (Some u)
    then have "snap_ok d u" by (blast dest: authenticated_D)
    from finish_snap [OF assms(1) this assms(2)] Some ChangePassword show ?thesis
      by (simp only: step_finish option.case)
  qed (use assms ChangePassword in simp)
next
  case (IssueInvite k rnd data)
  have "users (step cfg d r) = users d"
    using IssueInvite by (auto split: option.splits sum.splits dest: issue_invitation_users)
  from this assms(2) show ?thesis by (rule snap_ok_users)
next
  case (Tick n)
  have "users (step cfg d r) = users d" using Tick by simp
  from this assms(2) show ?thesis by (rule snap_ok_users)
qed

subsection \<open>Properties of interleaved runs\<close>

text \<open>
  C9. Whatever the interleaving of authenticated requests with each other and
  with the rest, the database keeps its schema constraints, and the user
  instance of every pending request still agrees with its stored row on the
  key, the email, the role, the two flags and the join date: a stale instance
  can only carry stale names or a stale password.
\<close>

theorem inter_invariant:
  assumes "db_constraints d0" and "cfg_ok cfg" and "inter_reachable cfg d0 d ps"
  shows "db_constraints d \<and> (\<forall>(u, op) \<in> set ps. snap_ok d u)"
  using assms(3)
proof (induction rule: inter_reachable.induct)
  case inter_init
  from assms(1) show ?case by simp
next
  case (inter_step d ps r)
  then show ?case using step_db_constraints [OF _ assms(2)] step_snap by fast
next
  case (inter_auth d ps k u op)
  then show ?case by (auto dest: authenticated_D)
next
  case (inter_finish d ps u op qs)
  then have c: "db_constraints d" and s: "snap_ok d u" and rest: "\<forall>(x, o') \<in> set (ps @ qs). snap_ok d x"
    by auto
  from c s have "db_constraints (finish cfg d u op)" by (rule finish_constraints)
  moreover have "\<forall>(x, o') \<in> set (ps @ qs). snap_ok (finish cfg d u op) x"
    using rest c s by (auto intro: finish_snap)
  ultimately show ?case by simp
qed

end
