(* ===== verification/Spec2Isabelle.thy ===== *)
theory Spec2Isabelle
  imports Issue_Scenarios Concurrency Abstract_Accounts Lost_Update
begin

text \<open>
  \<^bold>\<open>Account serializers of server_monitor_api.\<close>
  The program is src/users/serializers.py: four Django REST framework
  serializers between request payloads and the tables \<open>User\<close>, \<open>Profile\<close> and
  \<open>InvitationCode\<close>. \<open>UserRegistrationSerializer\<close> creates a user, active and
  role-confirmed exactly when a valid invitation code for the requested role is
  presented, and marks that invitation used; \<open>UserSerializer\<close> with the nested
  \<open>ProfileSerializer\<close> edits the authenticated user's names and profile;
  \<open>ChangePasswordSerializer\<close> replaces the user's password after checking the
  old one; \<open>InvitationCodeSerializer\<close> issues codes. They interact only through
  the database: an issued code is printed in a response, typed into a
  registration, parsed and looked up.

  \<^bold>\<open>Theories.\<close>
  \<^item> \<open>Prelim\<close>: Python's \<open>str.strip\<close> and \<open>str.replace\<close>, the ORM's
    \<open>objects.get\<close> (\<^const>\<open>orm_get\<close>: a row, \<open>DoesNotExist\<close> or
    \<open>MultipleObjectsReturned\<close>) and \<open>save()\<close> as an UPDATE by key
    (\<^const>\<open>replace_by\<close>), with the table lemmas all components use.
  \<^item> \<open>Orm\<close>: the three tables and counters as the record \<^typ>\<open>db\<close>, the
    Django operations the serializers call (\<^const>\<open>create_user\<close>,
    \<^const>\<open>set_password\<close>, \<^const>\<open>get_or_create_profile\<close>, the saves,
    \<^const>\<open>is_valid\<close>), the schema's constraints \<^const>\<open>db_constraints\<close>
    and that each write preserves them. users/models.py is not among the sources:
    this theory follows the spec and what serializers.py reads and writes, and
    \<^const>\<open>create_user\<close> follows Django's manager pattern, normalizing the
    address (\<^const>\<open>normalize_email\<close>: domain lower-cased) before the unique
    insert.
  \<^item> \<open>Drf_Fields\<close>: the request payload (JSON objects, strings, null), the
    DRF \<open>CharField.run_validation\<close> (\<^const>\<open>run_char_field\<close>: required,
    null, blank, \<open>trim_whitespace\<close>, validators) and \<open>to_internal_value\<close>
    (\<^const>\<open>to_internal\<close>: every field in order, errors collected per field,
    absent fields skipped), with what a successful validation establishes.
  \<^item> \<open>Settings\<close>: what ModelSerializer takes from outside the file (the
    model-derived fields, the password validators, the role choices, the
    date-time parser, and how an image and a date are represented) as a record \<^typ>\<open>config\<close>; every theorem holds for each
    configuration satisfying \<^const>\<open>cfg_ok\<close> (Django's \<open>null=False\<close> text
    columns, a required email).
  \<^item> \<open>Uuid\<close>: \<open>uuid.UUID(hex=...)\<close> as the lookup of a code string runs it
    (\<^const>\<open>uuid_parse\<close>, including \<open>int(s, 16)\<close>'s signs, prefix and
    underscores) and \<open>str(uuid)\<close> (\<^const>\<open>uuid_str\<close>), both of the Python
    library, with the round trip that the registration of a printed code uses.
  \<^item> \<open>Registration\<close> (lines 66-141), \<open>Change_Password\<close> (144-165),
    \<open>User_Update\<close> (8-64) and \<open>Invitation_Issue\<close> (167-182): one group of
    definitions per serializer in the order of the code: its fields, its field
    hooks (\<open>validate_<field>\<close>), its \<open>validate\<close>, its \<open>create\<close>,
    \<open>update\<close> or \<open>save\<close>, and the request (\<open>is_valid()\<close> then \<open>save()\<close>)
    returning a \<^typ>\<open>failure\<close> (the 400 errors, or a server error raised by
    the ORM) or the result and the new database. A profile update returns the
    database in both cases, since it may have written before failing.
    The writable fields are derived as DRF derives them, \<open>Meta.fields\<close> minus
    \<open>read_only_fields\<close>, and \<open>ModelSerializer.update\<close> sets every text
    column it is given (\<^const>\<open>set_user_attr\<close>), so the read-only
    declarations are what protects the other columns. \<open>User_Update\<close> also
    holds the response body of \<open>UserSerializer\<close> (\<^const>\<open>user_repr\<close>,
    with the nested profile, its image and date shown through the configured
    representations).
  \<^item> \<open>System\<close>: the endpoints as one \<^const>\<open>step\<close> per request with the
    authentication guard, and \<^const>\<open>reachable\<close> for runs of one request at a
    time. The views are not among the sources; this part follows the spec.
  \<^item> \<open>Concurrency\<close>: \<^const>\<open>conc_reachable\<close>, runs in which registrations
    validate on the database they read and save later, interleaved with any
    other request, and the invariant that survives them.
  \<^item> \<open>Lost_Update\<close>: \<^const>\<open>inter_reachable\<close>, runs in which an
    authenticated profile update or password change loads the user instance
    at authentication (\<open>request.user\<close>) and saves it when it finishes
    (\<^const>\<open>finish\<close>), with any other request in between; both saves write
    the whole instance (\<open>instance.save()\<close> at line 59, \<open>user.save()\<close> at
    line 164).
  \<^item> \<open>Abstract_Accounts\<close>: the contract of the endpoints without tables or
    serializers, the record \<^typ>\<open>acct_state\<close> (accounts with their role and
    confirmation, unused tokens, redeemed codes with the email that redeemed
    them, the clock) and its events \<^const>\<open>acct_step\<close>; the abstraction
    \<^const>\<open>abs_db\<close> of a database, and one lemma per request saying which
    event it performs.
  \<^item> \<open>Scenarios\<close>, \<open>Issue_Scenarios\<close> and this theory's examples: a concrete
    configuration and database on which every property with hypotheses is
    applied, evaluated by \<open>simp\<close>.

  \<^bold>\<open>What is proved.\<close>
  \<^item> Registration: codes are single-use (\<open>register_single_use\<close>); on a
    consistent database a registration fails with validation errors, or with
    an \<open>IntegrityError\<close> exactly when the address is new as typed but taken
    once normalized (\<open>register_failures\<close>; the scenario registers
    \<open>ann@EXAMPLE.org\<close> after \<open>ann@example.org\<close>); it creates exactly the
    user and the used-mark described (\<open>register_result\<close>), and the user is
    active and confirmed exactly when a code was presented
    (\<open>register_active_iff_code\<close>); an empty body reports every missing required field at once, in field
    order (\<open>register_empty\<close>).
  \<^item> Runs of requests: every reachable database satisfies the constraints and
    every confirmed user created in the run is backed by the invitation it used
    (\<open>reachable_invariant\<close>); no request reverts a used invitation
    (\<open>step_keeps_used\<close>).
  \<^item> Concurrency: two registrations with the same code that are both
    validated before either saves both succeed, so a code is used twice and the
    first confirmed user is backed by no invitation
    (\<open>concurrent_double_use\<close>): serializers.py reads the invitation in
    \<open>validate\<close> and writes it in \<open>create\<close> without a row lock. The schema
    constraints survive every interleaving (\<open>conc_invariant\<close>).
  \<^item> Lost updates: interleaved authenticated requests keep the constraints
    and the read-only columns (\<open>inter_invariant\<close>), but a profile update
    that authenticated before a password change finishes after it and
    restores the old password (\<open>lost_password_change\<close>), and a password
    change restores the names a concurrent profile edit wrote
    (\<open>lost_name_change\<close>).
  \<^item> Refinement: on a consistent database every request, failed or not, is
    one event of the abstract account machine (\<open>step_refines\<close>), so every
    sequential run is an abstract run (\<open>reachable_refines\<close>).
  \<^item> Across components: a code as an issue response prints it is accepted by
    registration (\<open>issued_code_redeemable\<close>); a 400 response names only
    declared fields (\<open>error_keys_declared\<close>).
  \<^item> Password change, profile update (the read-only columns kept,
    \<open>update_read_only_preserved\<close>; reading back what was written,
    \<open>update_read_back\<close>; the empty PATCH a no-op, \<open>patch_empty_noop\<close>)
    and invitation issue (only the writable fields read,
    \<open>issue_reads_only_writable\<close>; a past expiry accepted,
    \<open>issue_past_expiry\<close>) are characterised on every branch, errors
    included.

  \<^bold>\<open>Choices.\<close>
  No loop of the code is unbounded: field lists, payloads and tables are finite
  lists, so every definition is a total, executable function, and no fuel is
  needed; the one recursion that is not structural, \<^const>\<open>remove_all\<close>
  (\<open>str.replace\<close>), terminates by the length of the remaining string.
  Password hashing is an injective constructor
  (\<^const>\<open>make_password\<close>): only \<open>check_password\<close>'s agreement with
  \<open>set_password\<close> matters. \<open>uuid4\<close> is modelled on \<open>128 word\<close> from the
  random bits, as the Python library masks them. Date-times are natural
  numbers; the date-time parser is part of the configuration.

  \<^bold>\<open>Not modelled.\<close>
  Sending a confirmation email (the code's branch for registrations without a
  code is a TODO whose body is \<open>pass\<close>, modelled as doing nothing), the
  validation of the field types other than text that ModelSerializer derives
  (email syntax, image upload, date parsing: folded into the configured
  validators; their representation is configured), setting the non-text
  columns of a user (they are read-only in the \<open>Meta\<close>), JSON numbers, booleans and lists in
  payloads, URL routing, permission classes beyond authentication, HTTP
  encoding, and database transactions. The hashers are not modelled beyond
  an injective \<^const>\<open>make_password\<close> (no algorithm, salt or upgrade on
  login). users/models.py and users/views.py are not among the sources: the
  tables, the model methods the serializers call and the request handling
  follow the spec and what serializers.py reads and writes, so those parts,
  like the DRF library, are modelled only as far as serializers.py uses them.
\<close>

subsection \<open>A concurrent run\<close>

text \<open>
  Carl registers with the same printed code as Ann, and both requests are
  validated before either is saved.
\<close>

definition ex_pay3 :: payload where
  "ex_pay3 = [''email'' \<mapsto> JStr ''carl@example.org'', ''password'' \<mapsto> JStr ''carlpass99'',
     ''password2'' \<mapsto> JStr ''carlpass99'', ''first_name'' \<mapsto> JStr ''Carl'',
     ''last_name'' \<mapsto> JStr ''Berg'', ''role'' \<mapsto> JStr ''engineer'',
     ''invite_code'' \<mapsto> JStr ''00000000-0000-0000-0000-0000000003e8'']"

definition ex_vd1 :: reg_data where
  "ex_vd1 = ([(''email'', Val ''ann@example.org''), (''password'', Val ''secret123''),
              (''first_name'', Val ''Ann''), (''last_name'', Val ''Lee''), (''role'', Val ''engineer'')],
             Some ex_inv)"

definition ex_vd3 :: reg_data where
  "ex_vd3 = ([(''email'', Val ''carl@example.org''), (''password'', Val ''carlpass99''),
              (''first_name'', Val ''Carl''), (''last_name'', Val ''Berg''), (''role'', Val ''engineer'')],
             Some ex_inv)"

definition ex_carl :: user where
  "ex_carl = \<lparr>user_pk = 2, email = ''carl@example.org'', password = Hashed ''carlpass99'',
     first_name = ''Carl'', last_name = ''Berg'', patronymic = [], role = ''engineer'',
     is_active = True, is_role_confirmed = True, date_joined = 5\<rparr>"

definition race_db :: db where
  "race_db = ex_db\<lparr>users := [ex_admin, ex_ann, ex_carl], invites := [ex_inv\<lparr>used_by := Some 2\<rparr>],
                   next_user_pk := 3\<rparr>"

text \<open>
  Dan registers with the code the administrator's invitation of the scenario
  \<open>Issue_Scenarios\<close> shows in its response.
\<close>

definition ex_dan_attrs :: "(field_name \<times> fval) list" where
  "ex_dan_attrs = [(''email'', Val ''dan@example.org''), (''password'', Val ''danpass77''),
     (''password2'', Val ''danpass77''), (''role'', Val ''admin''),
     (''invite_code'', Val (uuid_str (code ex_inv2)))]"

definition ex_inv2_repr :: "(string \<times> oval) list" where
  "ex_inv2_repr = [(''id'', ONum 2), (''code'', OStr (uuid_str (code ex_inv2))), (''role'', OStr ''admin''),
     (''created_by'', ONum 0), (''created_by_email'', OStr ''root@example.org''), (''used_by'', ONull),
     (''used_by_email'', ONull), (''created_at'', OTime 5), (''expires_at'', OTime 100),
     (''is_valid'', OBool True)]"

text \<open>
  Two interleaved requests of Ann on the database after her registration:
  a profile update and a password change, each authenticated before the
  other finishes.
\<close>

definition ex_ann_new :: user where
  "ex_ann_new = ex_ann\<lparr>password := Hashed ''newsecret9''\<rparr>"

definition ex_db_cp :: db where
  "ex_db_cp = ex_db1\<lparr>users := [ex_admin, ex_ann_new]\<rparr>"

definition ex_db_names_lost :: db where
  "ex_db_names_lost = ex_db3\<lparr>users := [ex_admin, ex_ann_new]\<rparr>"

subsection \<open>Evaluation of the concurrent run\<close>

lemma ex_valid_ann: "reg_is_valid ex_cfg ex_db ex_pay1 = Inr ex_vd1"
  by (simp add: reg_eval ex_db_def ex_pay1_def ex_inv_def ex_admin_def ex_vd1_def)

lemma ex_valid_carl: "reg_is_valid ex_cfg ex_db ex_pay3 = Inr ex_vd3"
  by (simp add: reg_eval ex_db_def ex_pay3_def ex_inv_def ex_admin_def ex_vd3_def)

lemma ex_save_ann: "reg_create ex_db ex_vd1 = Inr (ex_ann, ex_db1)"
  by (simp add: reg_create_def create_user_def make_password_def save_invitation_def replace_by_def Let_def
                attr_def get_str_def ex_vd1_def ex_db_def ex_db1_def ex_ann_def ex_admin_def ex_inv_def)

lemma ex_save_carl: "reg_create ex_db1 ex_vd3 = Inr (ex_carl, race_db)"
  by (simp add: reg_create_def create_user_def make_password_def save_invitation_def replace_by_def Let_def
                attr_def get_str_def ex_vd3_def ex_db_def ex_db1_def ex_ann_def ex_admin_def ex_inv_def
                ex_carl_def race_db_def)

lemma ex_race_pending: "conc_reachable ex_cfg ex_db ex_db [ex_vd1, ex_vd3]"
proof -
  have "conc_reachable ex_cfg ex_db ex_db [ex_vd1]"
    using conc_validate [OF conc_init ex_valid_ann] by simp
  then show ?thesis using conc_validate [OF _ ex_valid_carl] by fastforce
qed

lemma ex_race_run: "conc_reachable ex_cfg ex_db race_db []"
proof -
  have "conc_reachable ex_cfg ex_db ex_db1 [ex_vd3]"
    using conc_save [of ex_cfg ex_db ex_db "[]" ex_vd1 "[ex_vd3]", OF _ ex_save_ann] ex_race_pending
    by simp
  then show ?thesis
    using conc_save [of ex_cfg ex_db ex_db1 "[]" ex_vd3 "[]", OF _ ex_save_carl] by simp
qed

lemma ex_cp_mismatch:
  "change_password ex_cfg ex_db1 ex_ann (ex_cp(''new_password2'' \<mapsto> JStr ''different1'')) =
     Inl (Invalid [(''new_password2'', New_passwords_differ)])"
  by (simp add: cp_eval ex_cp_def ex_ann_def)

subsection \<open>Evaluation of the interleaved runs\<close>

lemma ex_auth_ann: "authenticated ex_db1 1 = Some ex_ann"
  by (simp add: authenticated_def orm_get_def ex_db1_def ex_db_def ex_admin_def ex_ann_def)

lemma ex_cp_step: "step ex_cfg ex_db1 (ChangePassword 1 ex_cp) = ex_db_cp"
  unfolding step.simps ex_auth_ann option.case ex_change_password sum.case prod.case
  by (simp add: ex_ann_new_def ex_db_cp_def save_user_def replace_by_def
      ex_db1_def ex_db_def ex_admin_def ex_ann_def)

lemma ex_upd_step: "step ex_cfg ex_db1 (UpdateProfile 1 True ex_upd) = ex_db3"
  unfolding step.simps ex_auth_ann option.case by (simp add: ex_update)

lemma ex_update_stale: "update_profile_request ex_cfg ex_db_cp ex_ann True ex_upd = (Inr ex_anna, ex_db3)"
  by (simp add: upd_eval ex_upd_def ex_db_cp_def ex_db1_def ex_db3_def ex_db_def ex_ann_def ex_anna_def
      ex_ann_new_def ex_admin_def ex_inv_def)

lemma ex_cp_stale:
  "change_password ex_cfg ex_db3 ex_ann ex_cp = Inr (ex_ann_new, ex_db_names_lost)"
  by (simp add: cp_eval ex_cp_def ex_ann_def ex_ann_new_def ex_db_names_lost_def ex_db3_def ex_db1_def
      ex_db_def ex_admin_def ex_anna_def save_user_def replace_by_def)

lemma ex_run_upd_pending: "inter_reachable ex_cfg ex_db1 ex_db_cp [(ex_ann, Upd True ex_upd)]"
proof -
  have "inter_reachable ex_cfg ex_db1 ex_db1 [(ex_ann, Upd True ex_upd)]"
    using inter_auth [OF inter_init ex_auth_ann] by simp
  from inter_step [OF this, of "ChangePassword 1 ex_cp"] show ?thesis by (simp only: ex_cp_step)
qed

lemma ex_run_upd_done: "inter_reachable ex_cfg ex_db1 ex_db3 []"
  using inter_finish [of ex_cfg ex_db1 ex_db_cp "[]" ex_ann "Upd True ex_upd" "[]"] ex_run_upd_pending
  by (simp add: ex_update_stale)

lemma ex_run_cp_pending: "inter_reachable ex_cfg ex_db1 ex_db3 [(ex_ann, Cp ex_cp)]"
proof -
  have "inter_reachable ex_cfg ex_db1 ex_db1 [(ex_ann, Cp ex_cp)]"
    using inter_auth [OF inter_init ex_auth_ann] by simp
  from inter_step [OF this, of "UpdateProfile 1 True ex_upd"] show ?thesis by (simp only: ex_upd_step)
qed

lemma ex_run_cp_done: "inter_reachable ex_cfg ex_db1 ex_db_names_lost []"
  using inter_finish [of ex_cfg ex_db1 ex_db3 "[]" ex_ann "Cp ex_cp" "[]"] ex_run_cp_pending
  by (simp add: ex_cp_stale)

lemma ex_auth_cp: "authenticated ex_db_cp 1 = Some ex_ann_new"
  by (simp add: authenticated_def orm_get_def ex_db_cp_def ex_admin_def ex_ann_new_def ex_ann_def)

lemma ex_auth_db3: "authenticated ex_db3 1 = Some ex_anna"
  by (simp add: authenticated_def orm_get_def ex_db3_def ex_admin_def ex_anna_def ex_ann_def)

lemma ex_auth_names_lost: "authenticated ex_db_names_lost 1 = Some ex_ann_new"
  by (simp add: authenticated_def orm_get_def ex_db_names_lost_def ex_admin_def ex_ann_new_def ex_ann_def)

subsection \<open>Properties across the components\<close>

text \<open>
  C2. Single use does not survive concurrency: two registrations that present
  the same code and are both validated before either saves both create active,
  role-confirmed users, and the invitation ends up used by the second one only;
  the first user's role is backed by no invitation, which no sequential run
  allows.
\<close>

theorem concurrent_double_use:
  "conc_reachable ex_cfg ex_db race_db [] \<and> map is_role_confirmed (users race_db) = [True, True, True] \<and>
   invites race_db = [ex_inv\<lparr>used_by := Some 2\<rparr>] \<and> \<not> confirmed_backed (next_user_pk ex_db) race_db"
proof (intro conjI)
  show "conc_reachable ex_cfg ex_db race_db []" by (rule ex_race_run)
  show "map is_role_confirmed (users race_db) = [True, True, True]"
    by (simp add: race_db_def ex_admin_def ex_ann_def ex_carl_def)
  show "invites race_db = [ex_inv\<lparr>used_by := Some 2\<rparr>]"
    by (simp add: race_db_def)
  show "\<not> confirmed_backed (next_user_pk ex_db) race_db"
    by (simp add: confirmed_backed_def race_db_def ex_db_def ex_admin_def ex_ann_def ex_carl_def ex_inv_def)
qed

text \<open>
  C7. A password change can be silently undone: Ann authenticates a profile
  update, her password change then completes and the new password works, and
  the profile update, finishing with the instance loaded before, saves every
  column of it; the new password no longer works, the old one does again, and
  the database is the one in which the password was never changed.
\<close>

theorem lost_password_change:
  "inter_reachable ex_cfg ex_db1 ex_db_cp [(ex_ann, Upd True ex_upd)] \<and>
   authenticated ex_db_cp 1 = Some ex_ann_new \<and> check_password ex_ann_new ''newsecret9'' \<and>
   inter_reachable ex_cfg ex_db1 ex_db3 [] \<and>
   authenticated ex_db3 1 = Some ex_anna \<and> check_password ex_anna ''secret123'' \<and>
   \<not> check_password ex_anna ''newsecret9''"
  using ex_run_upd_pending ex_auth_cp ex_run_upd_done ex_auth_db3
  by (simp add: check_password_def make_password_def ex_ann_new_def ex_anna_def ex_ann_def)

text \<open>
  C8. Symmetrically, a profile edit can be silently undone: Ann authenticates a
  password change, her profile update then completes and renames her to Anna,
  and the password change, saving the instance loaded before, restores the
  first name Ann while setting the new password.
\<close>

theorem lost_name_change:
  "inter_reachable ex_cfg ex_db1 ex_db3 [(ex_ann, Cp ex_cp)] \<and>
   authenticated ex_db3 1 = Some ex_anna \<and> first_name ex_anna = ''Anna'' \<and>
   inter_reachable ex_cfg ex_db1 ex_db_names_lost [] \<and>
   authenticated ex_db_names_lost 1 = Some ex_ann_new \<and> first_name ex_ann_new = ''Ann'' \<and>
   check_password ex_ann_new ''newsecret9''"
  using ex_run_cp_pending ex_auth_db3 ex_run_cp_done ex_auth_names_lost
  by (simp add: check_password_def make_password_def ex_ann_new_def ex_anna_def ex_ann_def)

text \<open>
  C14. Issuing and redeeming agree: the code an invitation response shows, sent
  back as the \<open>invite_code\<close> of a registration for the invitation's role while
  the invitation is valid, passes \<open>validate\<close> and resolves to that invitation.
\<close>

theorem issued_code_redeemable:
  assumes "db_constraints d" and "ru \<in> set (users d)"
    and "issue_invitation cfg d ru rnd data = Inr (i, d1)"
    and "inv_repr d1 i = Some rep" and "map_of rep ''code'' = Some (OStr s)"
    and "is_valid (now d1) i"
    and "attr attrs ''password'' = attr attrs ''password2''" and "attr attrs ''invite_code'' = Val s"
    and "attr attrs ''role'' = Val (inv_role i)"
  shows "reg_validate cfg d1 attrs = Inr (reg_cleanup attrs, Some i)"
proof -
  have c1: "db_constraints d1" using assms(1-3) by (rule issue_invitation_constraints)
  from assms(3) obtain vd where "vd_code vd = None" and "inv_create d ru rnd vd = Inr (i, d1)"
    by (rule issue_invitation_Inr)
  then have i: "code i = unat (uuid4 rnd)" "i \<in> set (invites d1)" by (auto simp: inv_create_Inr)
  have s: "s = uuid_str (code i)"
    using inv_repr_code [OF assms(4)] assms(5) by simp
  have "uuid_parse s = Some (code i)"
    unfolding s using i(1) uuid4_lt [of rnd] by (simp add: uuid_roundtrip)
  moreover have "s \<noteq> []" unfolding s by (simp add: uuid_str_def Let_def)
  moreover have "orm_get (\<lambda>x. code x = code i) (invites d1) = Got i"
    using c1 i(2) by (simp add: db_constraints_def orm_get_key_Got)
  ultimately show ?thesis using assms(6-9)
    by (simp add: reg_validate_def Let_def)
qed

theorem issued_code_redeemable_witness:
  "reg_validate ex_cfg ex_db4 ex_dan_attrs = Inr (reg_cleanup ex_dan_attrs, Some ex_inv2)"
proof (rule issued_code_redeemable [OF ex_db_constraints _ ex_issue, where rep = ex_inv2_repr
                                       and s = "uuid_str (code ex_inv2)"])
  show "ex_admin \<in> set (users ex_db)" by (simp add: ex_db_def)
  show "inv_repr ex_db4 ex_inv2 = Some ex_inv2_repr"
    by (simp add: inv_repr_def user_email_def ex_db4_def ex_db_def ex_admin_def ex_inv2_def
                  ex_inv2_repr_def is_valid_def)
  show "is_valid (now ex_db4) ex_inv2" by (simp add: is_valid_def ex_db4_def ex_db_def ex_inv2_def)
qed (simp_all add: ex_inv2_repr_def ex_dan_attrs_def attr_def ex_inv2_def)

theorem step_refines_witness: "acct_step (abs_db ex_db) (abs_db ex_db1)"
  using step_refines [OF ex_db_constraints, of ex_cfg "Register ex_pay1"] by (simp add: ex_register_ann)

theorem reachable_refines_witness: "acct_reach (abs_db ex_db) (abs_db ex_db1)"
proof -
  have "reachable ex_cfg ex_db (step ex_cfg ex_db (Register ex_pay1))" by (rule reach_step [OF reach_init])
  then have r: "reachable ex_cfg ex_db ex_db1" by (simp add: ex_register_ann)
  show ?thesis by (rule reachable_refines [OF ex_db_constraints ex_cfg_ok r])
qed

theorem lost_password_change_witness:
  "\<exists>d d' u u'. inter_reachable ex_cfg ex_db1 d [(ex_ann, Upd True ex_upd)] \<and>
     authenticated d 1 = Some u \<and> check_password u ''newsecret9'' \<and> inter_reachable ex_cfg ex_db1 d' [] \<and>
     authenticated d' 1 = Some u' \<and> \<not> check_password u' ''newsecret9''"
  using lost_password_change by blast

theorem lost_name_change_witness:
  "\<exists>d u. inter_reachable ex_cfg ex_db1 d [] \<and> authenticated d 1 = Some u \<and> first_name u = ''Ann'' \<and>
     check_password u ''newsecret9''"
  using lost_name_change by blast

theorem inter_invariant_witness: "db_constraints ex_db_cp \<and> snap_ok ex_db_cp ex_ann"
  using inter_invariant [OF ex_db1_constraints ex_cfg_ok ex_run_upd_pending] by simp

theorem concurrent_double_use_witness:
  "\<exists>d. conc_reachable ex_cfg ex_db d [] \<and> \<not> confirmed_backed 1 d"
  using concurrent_double_use by (auto simp: ex_db_def)

theorem reachable_invariant_witness:
  "reachable ex_cfg ex_db ex_db1 \<and> db_constraints ex_db1 \<and> confirmed_backed (next_user_pk ex_db) ex_db1"
proof -
  have "reachable ex_cfg ex_db (step ex_cfg ex_db (Register ex_pay1))" by (rule reach_step [OF reach_init])
  then have r: "reachable ex_cfg ex_db ex_db1" by (simp add: ex_register_ann)
  with reachable_invariant [OF ex_db_constraints ex_cfg_ok r] show ?thesis by simp
qed

theorem step_keeps_used_witness:
  "ex_inv\<lparr>used_by := Some 1\<rparr> \<in> set (invites (step ex_cfg ex_db1 (Register ex_pay3)))"
  by (rule step_keeps_used [OF ex_db1_constraints]) (simp_all add: ex_db1_def)

theorem conc_invariant_witness:
  "db_constraints ex_db \<and> pending_ok ex_db [ex_vd1, ex_vd3] \<and> db_constraints race_db"
  using conc_invariant [OF ex_db_constraints ex_cfg_ok ex_race_pending]
        conc_invariant [OF ex_db_constraints ex_cfg_ok ex_race_run] by simp

text \<open>
  C15. A 400 response names only what the serializer declares: every key of the
  validation errors of a registration, a password change, a profile update or
  an invitation issue is one of that serializer's fields or
  \<open>non_field_errors\<close>.
\<close>

theorem error_keys_declared:
  "(register cfg d1 data1 = Inl (Invalid es1) \<longrightarrow> keys_declared (map fst (reg_fields cfg)) es1) \<and>
   (change_password cfg d2 u2 data2 = Inl (Invalid es2) \<longrightarrow> keys_declared (map fst (cp_fields cfg)) es2) \<and>
   (db_constraints d3 \<and> fst (update_profile_request cfg d3 u3 p data3) = Inl (Invalid es3) \<longrightarrow>
      keys_declared (''profile'' # map fst (user_fields cfg)) es3) \<and>
   (issue_invitation cfg d4 u4 rnd data4 = Inl (Invalid es4) \<longrightarrow> keys_declared [''role'', ''expires_at''] es4)"
proof (intro conjI impI)
  assume a: "register cfg d1 data1 = Inl (Invalid es1)"
  show "keys_declared (map fst (reg_fields cfg)) es1"
  proof (cases "to_internal (reg_fields cfg) (reg_hook cfg d1) False data1")
    case (Inl es)
    with a have "es1 = es" by (simp add: register_def reg_is_valid_def)
    with to_internal_Inl_keys [OF Inl] show ?thesis by (auto simp: keys_declared_def list_all_iff)
  next
    case (Inr attrs)
    with a have "reg_validate cfg d1 attrs = Inl (Invalid es1)"
      by (auto simp: register_def reg_is_valid_def split: sum.splits)
    then show ?thesis
      by (auto simp: reg_validate_def Let_def keys_declared_def reg_fields_def
               split: if_splits option.splits get_result.splits)
  qed
next
  assume a: "change_password cfg d2 u2 data2 = Inl (Invalid es2)"
  show "keys_declared (map fst (cp_fields cfg)) es2"
  proof (cases "to_internal (cp_fields cfg) (cp_hook u2) False data2")
    case (Inl es)
    with a have "es2 = es" by (simp add: change_password_def cp_is_valid_def)
    with to_internal_Inl_keys [OF Inl] show ?thesis by (auto simp: keys_declared_def list_all_iff)
  next
    case (Inr attrs)
    with a show ?thesis
      by (auto simp: change_password_def cp_is_valid_def cp_validate_def keys_declared_def cp_fields_def
               split: if_splits)
  qed
next
  assume a: "db_constraints d3 \<and> fst (update_profile_request cfg d3 u3 p data3) = Inl (Invalid es3)"
  obtain r d' where e: "update_profile_request cfg d3 u3 p data3 = (r, d')" by fastforce
  with a have r: "r = Inl (Invalid es3)" by simp
  show "keys_declared (''profile'' # map fst (user_fields cfg)) es3"
  proof (cases "user_to_internal cfg p data3")
    case (Inl es)
    with e r have es: "es3 = es" by (simp add: update_profile_request_def)
    from Inl show ?thesis unfolding es
      by (auto simp: user_to_internal_def keys_declared_def list_all_iff
               split: sum.splits dest!: to_internal_Inl_keys) force+
  next
    case (Inr vd)
    obtain at pd where vd: "vd = (at, pd)" by (cases vd)
    have ps: "profile_step cfg p (data3 ''profile'') = Inr pd"
      using Inr unfolding vd by (rule user_to_internal_Inr(2))
    have "distinct (map prof_user (profiles d3))" using a by (simp add: db_constraints_def)
    have "user_update cfg d3 u3 (at, pd) = (Inl (Invalid es3), d')"
      using e Inr vd r by (simp add: update_profile_request_def)
    from user_update_steps [OF this \<open>distinct (map prof_user (profiles d3))\<close> ps] show ?thesis
      by simp
  qed
next
  assume a: "issue_invitation cfg d4 u4 rnd data4 = Inl (Invalid es4)"
  then have "inv_to_internal cfg data4 = Inl es4"
    by (auto simp: issue_invitation_def split: sum.splits)
  then show "keys_declared [''role'', ''expires_at''] es4"
    by (auto simp: inv_to_internal_eq keys_declared_def list_all_iff split: sum.splits)
qed

theorem error_keys_declared_witness:
  "keys_declared (map fst (reg_fields ex_cfg)) [(''password2'', Passwords_differ)] \<and>
   keys_declared (map fst (cp_fields ex_cfg)) [(''new_password2'', New_passwords_differ)] \<and>
   keys_declared (''profile'' # map fst (user_fields ex_cfg)) [(''profile'', Not_a_dict)] \<and>
   keys_declared [''role'', ''expires_at''] [(''role'', Invalid_choice)]"
  using error_keys_declared [of ex_cfg ex_db "ex_pay2(''password2'' \<mapsto> JStr ''other'')"
          "[(''password2'', Passwords_differ)]" ex_db1 ex_ann "ex_cp(''new_password2'' \<mapsto> JStr ''different1'')"
          "[(''new_password2'', New_passwords_differ)]" ex_db1 ex_ann True ex_upd_bad "[(''profile'', Not_a_dict)]"
          ex_db ex_admin 0 ex_issue_bad "[(''role'', Invalid_choice)]"]
        ex_register_mismatch ex_cp_mismatch ex_update_bad ex_issue_bad ex_db1_constraints
  by simp

end
